theory Spec2Isabelle
  imports Complex_Main "HOL-Library.Char_ord" "HOL-Library.List_Lexorder"
begin

section \<open>Data model\<close>

text \<open>
  The preprocessors work on pandas data frames.  A frame is modelled by its row index
  and its labelled columns, in order.  A cell is a missing value, a number or a string;
  numbers are exact rationals, which stand for the floating-point values of the source.
  Python exceptions are values of \<open>error\<close>: every function that can raise returns
  \<open>error + 'a\<close>, with \<open>Inl\<close> for the exception.
\<close>

datatype error = ValueError | KeyError | TypeError | LookupError

datatype cell = NaN | Num rat | Str string

record table =
  row_index :: "nat list"
  columns :: "(string \<times> cell list) list"

text \<open>The configuration file, after \<open>yaml.safe_load\<close>: the declared columns
  (\<open>config['dataset']['input_columns']\<close>) and one block per column type
  (\<open>config['preprocessing'][...]\<close>).  The enum-like settings are the strings of the
  file, so that an unrecognised value can be written down.\<close>

record column_spec =
  cs_name :: string
  cs_type :: string

record text_config =
  lowercase :: bool
  remove_punctuation :: bool
  remove_stopwords :: bool
  stemming :: bool

record numeric_config =
  num_handle_missing :: string
  scaling :: string

record categorical_config =
  cat_handle_missing :: string
  encoding :: string

record config =
  input_columns :: "column_spec list"
  text_cfg :: text_config
  numeric_cfg :: numeric_config
  categorical_cfg :: categorical_config

section \<open>Library functions taken as parameters\<close>

text \<open>
  The scalers of scikit-learn and the tokenizer, stop-word list and stemmer of NLTK are
  not code of this repository.  They are parameters of the model: a fitted scaler is a
  value of the type \<open>'p\<close>, fitting and applying a scaler work on one column and may
  raise.  \<open>str_of_num\<close> is Python's \<open>str\<close> on a number and \<open>str_lower\<close> is
  \<open>str.lower\<close>.
\<close>

datatype scaler_class = StandardScaler | MinMaxScaler | RobustScaler

record 'p library =
  scaler_fit :: "scaler_class \<Rightarrow> cell list \<Rightarrow> error + 'p"
  scaler_transform :: "'p \<Rightarrow> cell list \<Rightarrow> error + cell list"
  str_of_num :: "rat \<Rightarrow> string"
  str_lower :: "string \<Rightarrow> string"
  word_tokenize :: "string \<Rightarrow> error + string list"
  stopwords_words :: "error + string list"
  stem :: "string \<Rightarrow> error + string"

section \<open>Data frame operations\<close>

text \<open>\<open>col in data.columns\<close>.\<close>

definition has_column :: "table \<Rightarrow> string \<Rightarrow> bool" where
  "has_column data col = (col \<in> set (map fst (columns data)))"

text \<open>\<open>df[col]\<close>: the column with that label, \<open>KeyError\<close> when there is none.  When
  the label is repeated pandas returns a frame instead of a column; this only arises
  inside the categorical transform (a generated one-hot column named like a later
  categorical column), where the encoder call on it raises \<open>ValueError\<close>.\<close>

definition getitem :: "table \<Rightarrow> string \<Rightarrow> error + cell list" where
  "getitem df col =
     (case filter (\<lambda>c. fst c = col) (columns df) of
        [] \<Rightarrow> Inl KeyError
      | [c] \<Rightarrow> Inr (snd c)
      | _ \<Rightarrow> Inl ValueError)"

text \<open>Replacing the values under a label, as an in-place \<open>fillna\<close> on \<open>df[col]\<close>
  does.\<close>

definition replace_column :: "table \<Rightarrow> string \<Rightarrow> cell list \<Rightarrow> table" where
  "replace_column df col xs =
     df\<lparr>columns := map (\<lambda>c. if fst c = col then (col, xs) else c) (columns df)\<rparr>"

text \<open>\<open>df[col] = values\<close>: pandas raises \<open>ValueError\<close> when the number of values is
  not the number of rows; a new label is appended as the last column.\<close>

definition setitem :: "table \<Rightarrow> string \<Rightarrow> cell list \<Rightarrow> error + table" where
  "setitem df col xs =
     (if length xs \<noteq> length (row_index df) then Inl ValueError
      else if has_column df col then Inr (replace_column df col xs)
      else Inr (df\<lparr>columns := columns df @ [(col, xs)]\<rparr>))"

text \<open>\<open>data[columns]\<close> with a list of labels: the named columns in the order of the
  list, on the same index; \<open>KeyError\<close> when a label is absent.\<close>

fun select_columns :: "table \<Rightarrow> string list \<Rightarrow> error + (string \<times> cell list) list" where
  "select_columns data [] = Inr []"
| "select_columns data (col # cols) =
     (case getitem data col of
        Inl e \<Rightarrow> Inl e
      | Inr xs \<Rightarrow>
          (case select_columns data cols of
             Inl e \<Rightarrow> Inl e
           | Inr cs \<Rightarrow> Inr ((col, xs) # cs)))"

definition getitems :: "table \<Rightarrow> string list \<Rightarrow> error + table" where
  "getitems data cols =
     (case select_columns data cols of
        Inl e \<Rightarrow> Inl e
      | Inr cs \<Rightarrow> Inr \<lparr>row_index = row_index data, columns = cs\<rparr>)"

text \<open>\<open>df.drop(columns=[col])\<close>.\<close>

definition drop_column :: "table \<Rightarrow> string \<Rightarrow> table" where
  "drop_column df col = df\<lparr>columns := filter (\<lambda>c. fst c \<noteq> col) (columns df)\<rparr>"

text \<open>\<open>pd.concat(dfs, axis=1)\<close> for frames on one index (every frame concatenated
  in the source is built on the index of the frame being transformed): the columns of
  all frames, in order.  The caller guards against the empty list.\<close>

definition concat_axis1 :: "table list \<Rightarrow> table" where
  "concat_axis1 dfs =
     (case dfs of
        [] \<Rightarrow> \<lparr>row_index = [], columns = []\<rparr>
      | df # _ \<Rightarrow> \<lparr>row_index = row_index df, columns = concat (map columns dfs)\<rparr>)"

text \<open>\<open>Series.fillna(value)\<close>.\<close>

definition fillna :: "cell list \<Rightarrow> cell \<Rightarrow> cell list" where
  "fillna xs v = map (\<lambda>x. if x = NaN then v else x) xs"

definition dropna :: "cell list \<Rightarrow> cell list" where
  "dropna xs = filter (\<lambda>x. x \<noteq> NaN) xs"

text \<open>Cells of one kind are ordered as Python orders them (numbers by value, strings
  lexicographically by character code).  pandas and scikit-learn only ever sort cells of
  one kind; the order between kinds makes the order total.\<close>

instantiation cell :: linorder
begin

fun less_eq_cell :: "cell \<Rightarrow> cell \<Rightarrow> bool" where
  "less_eq_cell NaN _ = True"
| "less_eq_cell (Num a) NaN = False"
| "less_eq_cell (Num a) (Num b) = (a \<le> b)"
| "less_eq_cell (Num a) (Str t) = True"
| "less_eq_cell (Str s) (Str t) = (s \<le> t)"
| "less_eq_cell (Str s) _ = False"

definition less_cell :: "cell \<Rightarrow> cell \<Rightarrow> bool" where
  "less_cell x y = (x \<le> y \<and> \<not> y \<le> x)"

instance
proof
  fix x y z :: cell
  show "(x < y) = (x \<le> y \<and> \<not> y \<le> x)"
    by (simp add: less_cell_def)
  show "x \<le> x"
    by (cases x) simp_all
  show "x \<le> y \<Longrightarrow> y \<le> z \<Longrightarrow> x \<le> z"
    by (cases x; cases y; cases z) auto
  show "x \<le> y \<Longrightarrow> y \<le> x \<Longrightarrow> x = y"
    by (cases x; cases y) auto
  show "x \<le> y \<or> y \<le> x"
    by (cases x; cases y) auto
qed

end

text \<open>The numbers of a column, missing values skipped (\<open>skipna\<close>); a string cell
  makes the numeric reductions of pandas raise \<open>TypeError\<close>.\<close>

fun as_numbers :: "cell list \<Rightarrow> error + rat list" where
  "as_numbers [] = Inr []"
| "as_numbers (NaN # xs) = as_numbers xs"
| "as_numbers (Num r # xs) =
     (case as_numbers xs of Inl e \<Rightarrow> Inl e | Inr rs \<Rightarrow> Inr (r # rs))"
| "as_numbers (Str s # xs) = Inl TypeError"

text \<open>\<open>Series.mean()\<close> and \<open>Series.median()\<close>: \<open>NaN\<close> when no value is present.\<close>

definition mean :: "cell list \<Rightarrow> error + cell" where
  "mean xs =
     (case as_numbers xs of
        Inl e \<Rightarrow> Inl e
      | Inr [] \<Rightarrow> Inr NaN
      | Inr rs \<Rightarrow> Inr (Num (sum_list rs / of_nat (length rs))))"

definition median :: "cell list \<Rightarrow> error + cell" where
  "median xs =
     (case as_numbers xs of
        Inl e \<Rightarrow> Inl e
      | Inr [] \<Rightarrow> Inr NaN
      | Inr rs \<Rightarrow>
          (let s = sort rs; n = length s in
           if odd n then Inr (Num (s ! (n div 2)))
           else Inr (Num ((s ! (n div 2 - 1) + s ! (n div 2)) / 2))))"

text \<open>\<open>Series.mode()[0]\<close>: the most frequent present value, the smallest one on a
  tie (pandas returns the modes sorted).  With no value present \<open>mode()\<close> is empty and
  the subscript raises \<open>KeyError\<close>.\<close>

definition mode_better :: "cell list \<Rightarrow> cell \<Rightarrow> cell \<Rightarrow> bool" where
  "mode_better vs a b =
     (count_list vs b < count_list vs a \<or> (count_list vs a = count_list vs b \<and> a < b))"

definition mode_first :: "cell list \<Rightarrow> error + cell" where
  "mode_first xs =
     (case dropna xs of
        [] \<Rightarrow> Inl KeyError
      | v # vs \<Rightarrow> Inr (fold (\<lambda>x best. if mode_better (v # vs) x best then x else best) vs v))"

section \<open>BasePreprocessor\<close>

text \<open>\<open>validate_input\<close> is inherited unchanged by the three preprocessors: the
  expected columns are all columns the configuration declares.\<close>

definition validate_input :: "config \<Rightarrow> table \<Rightarrow> bool" where
  "validate_input cfg data =
     (let expected_columns = map cs_name (input_columns cfg);
          missing_columns = filter (\<lambda>col. \<not> has_column data col) expected_columns
      in missing_columns = [])"

text \<open>The list comprehension \<open>[col['name'] for col in ... if col['type'] == t]\<close>,
  written out in each \<open>fit\<close> and \<open>transform\<close> and in \<open>_get_columns_by_type\<close>.\<close>

definition get_columns_by_type :: "config \<Rightarrow> string \<Rightarrow> string list" where
  "get_columns_by_type cfg data_type =
     map cs_name (filter (\<lambda>col. cs_type col = data_type) (input_columns cfg))"

section \<open>NumericPreprocessor\<close>

record 'p numeric_preprocessor =
  np_config :: config
  np_scaler_class :: scaler_class
  np_scalers :: "string \<rightharpoonup> 'p"

definition setup_scalers :: "string \<Rightarrow> error + scaler_class" where
  "setup_scalers scaling_method =
     (if scaling_method = ''standard'' then Inr StandardScaler
      else if scaling_method = ''minmax'' then Inr MinMaxScaler
      else if scaling_method = ''robust'' then Inr RobustScaler
      else Inl ValueError)"

definition numeric_init :: "config \<Rightarrow> error + 'p numeric_preprocessor" where
  "numeric_init cfg =
     (case setup_scalers (scaling (numeric_cfg cfg)) of
        Inl e \<Rightarrow> Inl e
      | Inr cls \<Rightarrow> Inr \<lparr>np_config = cfg, np_scaler_class = cls, np_scalers = Map.empty\<rparr>)"

text \<open>The value \<open>_handle_missing_values\<close> fills a column with: a statistic of the
  column it is given.\<close>

definition numeric_fill_value :: "string \<Rightarrow> cell list \<Rightarrow> error + cell" where
  "numeric_fill_value method xs =
     (if method = ''mean'' then mean xs
      else if method = ''median'' then median xs
      else if method = ''mode'' then mode_first xs
      else Inl ValueError)"

fun numeric_handle_missing_loop :: "string \<Rightarrow> table \<Rightarrow> string list \<Rightarrow> error + table" where
  "numeric_handle_missing_loop method df [] = Inr df"
| "numeric_handle_missing_loop method df (col # cols) =
     (case getitem df col of
        Inl e \<Rightarrow> Inl e
      | Inr xs \<Rightarrow>
          (case numeric_fill_value method xs of
             Inl e \<Rightarrow> Inl e
           | Inr v \<Rightarrow>
               numeric_handle_missing_loop method (replace_column df col (fillna xs v)) cols))"

definition numeric_handle_missing_values ::
  "numeric_config \<Rightarrow> table \<Rightarrow> string list \<Rightarrow> error + table" where
  "numeric_handle_missing_values ncfg data cols =
     numeric_handle_missing_loop (num_handle_missing ncfg) data cols"

fun numeric_fit_loop ::
  "'p library \<Rightarrow> scaler_class \<Rightarrow> table \<Rightarrow> string list \<Rightarrow> (string \<rightharpoonup> 'p) \<Rightarrow> error + (string \<rightharpoonup> 'p)" where
  "numeric_fit_loop L cls data [] scalers = Inr scalers"
| "numeric_fit_loop L cls data (col # cols) scalers =
     (case getitem data col of
        Inl e \<Rightarrow> Inl e
      | Inr xs \<Rightarrow>
          (case scaler_fit L cls xs of
             Inl e \<Rightarrow> Inl e
           | Inr s \<Rightarrow> numeric_fit_loop L cls data cols (scalers(col \<mapsto> s))))"

definition numeric_fit ::
  "'p library \<Rightarrow> 'p numeric_preprocessor \<Rightarrow> table \<Rightarrow> error + 'p numeric_preprocessor" where
  "numeric_fit L self data =
     (if \<not> validate_input (np_config self) data then Inl ValueError
      else
        let numeric_columns = get_columns_by_type (np_config self) ''numeric'' in
        case numeric_handle_missing_values (numeric_cfg (np_config self)) data numeric_columns of
          Inl e \<Rightarrow> Inl e
        | Inr data' \<Rightarrow>
            (case numeric_fit_loop L (np_scaler_class self) data' numeric_columns (np_scalers self) of
               Inl e \<Rightarrow> Inl e
             | Inr scalers \<Rightarrow> Inr (self\<lparr>np_scalers := scalers\<rparr>)))"

fun numeric_transform_loop ::
  "'p library \<Rightarrow> (string \<rightharpoonup> 'p) \<Rightarrow> table \<Rightarrow> string list \<Rightarrow> error + table" where
  "numeric_transform_loop L scalers df [] = Inr df"
| "numeric_transform_loop L scalers df (col # cols) =
     (case scalers col of
        None \<Rightarrow> numeric_transform_loop L scalers df cols
      | Some s \<Rightarrow>
          (case getitem df col of
             Inl e \<Rightarrow> Inl e
           | Inr xs \<Rightarrow>
               (case scaler_transform L s xs of
                  Inl e \<Rightarrow> Inl e
                | Inr ys \<Rightarrow>
                    (case setitem df col ys of
                       Inl e \<Rightarrow> Inl e
                     | Inr df' \<Rightarrow> numeric_transform_loop L scalers df' cols))))"

definition numeric_transform ::
  "'p library \<Rightarrow> 'p numeric_preprocessor \<Rightarrow> table \<Rightarrow> error + table" where
  "numeric_transform L self data =
     (if \<not> validate_input (np_config self) data then Inl ValueError
      else
        let numeric_columns = get_columns_by_type (np_config self) ''numeric'' in
        case numeric_handle_missing_values (numeric_cfg (np_config self)) data numeric_columns of
          Inl e \<Rightarrow> Inl e
        | Inr df \<Rightarrow> numeric_transform_loop L (np_scalers self) df numeric_columns)"

section \<open>TextPreprocessor\<close>

record text_preprocessor =
  tp_config :: config

definition text_init :: "config \<Rightarrow> text_preprocessor" where
  "text_init cfg = \<lparr>tp_config = cfg\<rparr>"

text \<open>\<open>string.punctuation\<close>: the 32 ASCII punctuation characters.\<close>

definition punctuation :: string where
  "punctuation =
     ''!'' @ [CHR 0x22] @ ''#$%&'' @ [CHR 0x27] @ ''()*+,-./:;<=>?@['' @ [CHR 0x5C]
       @ '']^_'' @ [CHR 0x60] @ ''{|}~''"

text \<open>\<open>sep.join(tokens)\<close>.\<close>

fun join :: "string \<Rightarrow> string list \<Rightarrow> string" where
  "join sep [] = []"
| "join sep [t] = t"
| "join sep (t # ts) = t @ sep @ join sep ts"

text \<open>\<open>[self.stemmer.stem(token) for token in tokens]\<close>, stopping at the first call
  that raises.\<close>

fun stem_all :: "'p library \<Rightarrow> string list \<Rightarrow> error + string list" where
  "stem_all L [] = Inr []"
| "stem_all L (t # ts) =
     (case stem L t of
        Inl e \<Rightarrow> Inl e
      | Inr s \<Rightarrow> (case stem_all L ts of Inl e \<Rightarrow> Inl e | Inr ss \<Rightarrow> Inr (s # ss)))"

text \<open>The body of the \<open>try\<close> block of \<open>_preprocess_text\<close>.\<close>

definition preprocess_text_try :: "'p library \<Rightarrow> text_config \<Rightarrow> cell \<Rightarrow> error + string" where
  "preprocess_text_try L tcfg text =
     (case text of
        Str s \<Rightarrow>
          (let text1 = (if lowercase tcfg then str_lower L s else s);
               text2 = (if remove_punctuation tcfg
                        then filter (\<lambda>c. c \<notin> set punctuation) text1 else text1)
           in case word_tokenize L text2 of
                Inl e \<Rightarrow> Inl e
              | Inr tokens \<Rightarrow>
                  (case (if remove_stopwords tcfg
                         then (case stopwords_words L of
                                 Inl e \<Rightarrow> Inl e
                               | Inr stop_words \<Rightarrow>
                                   Inr (filter (\<lambda>token. token \<notin> set stop_words) tokens))
                         else Inr tokens) of
                     Inl e \<Rightarrow> Inl e
                   | Inr tokens1 \<Rightarrow>
                       (case (if stemming tcfg then stem_all L tokens1 else Inr tokens1) of
                          Inl e \<Rightarrow> Inl e
                        | Inr tokens2 \<Rightarrow> Inr (join '' '' tokens2))))
      | _ \<Rightarrow> Inr [])"

text \<open>\<open>_preprocess_text\<close>: the \<open>except Exception\<close> clause turns every exception of
  the body into the empty string.\<close>

definition preprocess_text :: "'p library \<Rightarrow> text_config \<Rightarrow> cell \<Rightarrow> string" where
  "preprocess_text L tcfg text =
     (case preprocess_text_try L tcfg text of Inl e \<Rightarrow> [] | Inr s \<Rightarrow> s)"

definition text_fit :: "text_preprocessor \<Rightarrow> table \<Rightarrow> error + text_preprocessor" where
  "text_fit self data =
     (if \<not> validate_input (tp_config self) data then Inl ValueError else Inr self)"

fun text_transform_loop ::
  "'p library \<Rightarrow> text_config \<Rightarrow> table \<Rightarrow> string list \<Rightarrow> error + table" where
  "text_transform_loop L tcfg df [] = Inr df"
| "text_transform_loop L tcfg df (col # cols) =
     (case getitem df col of
        Inl e \<Rightarrow> Inl e
      | Inr xs \<Rightarrow>
          (case setitem df col (map (\<lambda>x. Str (preprocess_text L tcfg x)) xs) of
             Inl e \<Rightarrow> Inl e
           | Inr df' \<Rightarrow> text_transform_loop L tcfg df' cols))"

definition text_transform :: "'p library \<Rightarrow> text_preprocessor \<Rightarrow> table \<Rightarrow> error + table" where
  "text_transform L self data =
     (if \<not> validate_input (tp_config self) data then Inl ValueError
      else
        let text_columns = get_columns_by_type (tp_config self) ''text'' in
        text_transform_loop L (text_cfg (tp_config self)) data text_columns)"

section \<open>The encoders of scikit-learn\<close>

text \<open>
  An encoder is given by the values it has learned (\<open>classes_\<close>, \<open>categories_\<close>); a new
  encoder has none.  Both encoders learn the sorted distinct values of a column and raise
  \<open>TypeError\<close> on a column that mixes numbers and strings.  \<open>LabelEncoder.transform\<close>
  raises \<open>ValueError\<close> at a value that is not among the classes.  The one-hot encoder is
  constructed with \<open>handle_unknown='ignore'\<close>: a value that is not among the categories
  gets a row of zeros.  The one-hot encoder validates its input array and raises
  \<open>ValueError\<close> on an array without rows.
\<close>

datatype encoder = LabelEncoder "cell list" | OneHotEncoder "cell list"

datatype encoding_map = LabelMap "(cell \<times> nat) list" | FeatureNames "string list"

fun is_num :: "cell \<Rightarrow> bool" where
  "is_num (Num r) = True"
| "is_num _ = False"

fun is_str :: "cell \<Rightarrow> bool" where
  "is_str (Str s) = True"
| "is_str _ = False"

definition sorted_unique :: "cell list \<Rightarrow> error + cell list" where
  "sorted_unique xs =
     (if list_ex is_num xs \<and> list_ex is_str xs then Inl TypeError
      else Inr (sort (remdups xs)))"

definition label_fit :: "cell list \<Rightarrow> error + cell list" where
  "label_fit xs = sorted_unique xs"

fun label_code :: "cell list \<Rightarrow> cell \<Rightarrow> error + nat" where
  "label_code [] x = Inl ValueError"
| "label_code (c # cs) x =
     (if x = c then Inr 0
      else case label_code cs x of Inl e \<Rightarrow> Inl e | Inr n \<Rightarrow> Inr (Suc n))"

fun label_transform :: "cell list \<Rightarrow> cell list \<Rightarrow> error + nat list" where
  "label_transform classes [] = Inr []"
| "label_transform classes (x # xs) =
     (case label_code classes x of
        Inl e \<Rightarrow> Inl e
      | Inr n \<Rightarrow>
          (case label_transform classes xs of
             Inl e \<Rightarrow> Inl e
           | Inr ns \<Rightarrow> Inr (n # ns)))"

definition onehot_fit :: "cell list \<Rightarrow> error + cell list" where
  "onehot_fit xs = (if xs = [] then Inl ValueError else sorted_unique xs)"

text \<open>The encoded array, one row per input value and one entry per category.\<close>

definition onehot_transform :: "cell list \<Rightarrow> cell list \<Rightarrow> error + cell list list" where
  "onehot_transform categories xs =
     (if xs = [] then Inl ValueError
      else Inr (map (\<lambda>x. map (\<lambda>c. if x = c then Num 1 else Num 0) categories) xs))"

definition str_cell :: "'p library \<Rightarrow> cell \<Rightarrow> string" where
  "str_cell L c = (case c of Str s \<Rightarrow> s | Num r \<Rightarrow> str_of_num L r | NaN \<Rightarrow> ''nan'')"

text \<open>\<open>get_feature_names_out([col])\<close>.\<close>

definition get_feature_names_out :: "'p library \<Rightarrow> string \<Rightarrow> cell list \<Rightarrow> string list" where
  "get_feature_names_out L col categories = map (\<lambda>c. col @ ''_'' @ str_cell L c) categories"

text \<open>\<open>pd.DataFrame(array, columns=names, index=idx)\<close>: \<open>ValueError\<close> when the shape of
  the array does not fit the labels.\<close>

definition data_frame :: "cell list list \<Rightarrow> string list \<Rightarrow> nat list \<Rightarrow> error + table" where
  "data_frame rows names idx =
     (if length rows \<noteq> length idx \<or> list_ex (\<lambda>row. length row \<noteq> length names) rows
      then Inl ValueError
      else Inr \<lparr>row_index = idx,
                columns = map (\<lambda>j. (names ! j, map (\<lambda>row. row ! j) rows)) [0..<length names]\<rparr>)"

section \<open>CategoricalPreprocessor\<close>

record categorical_preprocessor =
  cp_config :: config
  cp_encoders :: "string \<rightharpoonup> encoder"
  cp_encoding_maps :: "string \<rightharpoonup> encoding_map"

definition categorical_init :: "config \<Rightarrow> categorical_preprocessor" where
  "categorical_init cfg = \<lparr>cp_config = cfg, cp_encoders = Map.empty, cp_encoding_maps = Map.empty\<rparr>"

definition categorical_fill_value :: "string \<Rightarrow> cell list \<Rightarrow> error + cell" where
  "categorical_fill_value method xs =
     (if method = ''mode'' then mode_first xs else Inr (Str ''MISSING''))"

fun categorical_handle_missing_loop :: "string \<Rightarrow> table \<Rightarrow> string list \<Rightarrow> error + table" where
  "categorical_handle_missing_loop method df [] = Inr df"
| "categorical_handle_missing_loop method df (col # cols) =
     (case getitem df col of
        Inl e \<Rightarrow> Inl e
      | Inr xs \<Rightarrow>
          (case categorical_fill_value method xs of
             Inl e \<Rightarrow> Inl e
           | Inr v \<Rightarrow>
               categorical_handle_missing_loop method (replace_column df col (fillna xs v)) cols))"

definition categorical_handle_missing_values ::
  "categorical_config \<Rightarrow> table \<Rightarrow> string list \<Rightarrow> error + table" where
  "categorical_handle_missing_values ccfg data cols =
     categorical_handle_missing_loop (cat_handle_missing ccfg) data cols"

text \<open>\<open>_setup_encoder\<close>: the new encoder that the source stores under
  \<open>self.encoders[column_name]\<close>.\<close>

definition setup_encoder :: "categorical_config \<Rightarrow> error + encoder" where
  "setup_encoder ccfg =
     (let encoding_method = encoding ccfg in
      if encoding_method = ''label'' then Inr (LabelEncoder [])
      else if encoding_method = ''onehot'' then Inr (OneHotEncoder [])
      else Inl ValueError)"

fun categorical_fit_loop ::
  "'p library \<Rightarrow> table \<Rightarrow> string list \<Rightarrow> categorical_preprocessor \<Rightarrow> error + categorical_preprocessor" where
  "categorical_fit_loop L data [] self = Inr self"
| "categorical_fit_loop L data (col # cols) self =
     (case setup_encoder (categorical_cfg (cp_config self)) of
        Inl e \<Rightarrow> Inl e
      | Inr (LabelEncoder _) \<Rightarrow>
          (case getitem data col of
             Inl e \<Rightarrow> Inl e
           | Inr xs \<Rightarrow>
               (case label_fit xs of
                  Inl e \<Rightarrow> Inl e
                | Inr classes \<Rightarrow>
                    (case label_transform classes classes of
                       Inl e \<Rightarrow> Inl e
                     | Inr codes \<Rightarrow>
                         categorical_fit_loop L data cols
                           (self\<lparr>cp_encoders := (cp_encoders self)(col \<mapsto> LabelEncoder classes),
                                 cp_encoding_maps :=
                                   (cp_encoding_maps self)(col \<mapsto> LabelMap (zip classes codes))\<rparr>))))
      | Inr (OneHotEncoder _) \<Rightarrow>
          (case getitem data col of
             Inl e \<Rightarrow> Inl e
           | Inr xs \<Rightarrow>
               (case onehot_fit xs of
                  Inl e \<Rightarrow> Inl e
                | Inr categories \<Rightarrow>
                    categorical_fit_loop L data cols
                      (self\<lparr>cp_encoders := (cp_encoders self)(col \<mapsto> OneHotEncoder categories),
                            cp_encoding_maps :=
                              (cp_encoding_maps self)
                                (col \<mapsto> FeatureNames (get_feature_names_out L col categories))\<rparr>))))"

definition categorical_fit ::
  "'p library \<Rightarrow> categorical_preprocessor \<Rightarrow> table \<Rightarrow> error + categorical_preprocessor" where
  "categorical_fit L self data =
     (if \<not> validate_input (cp_config self) data then Inl ValueError
      else
        let categorical_columns = get_columns_by_type (cp_config self) ''categorical'' in
        case categorical_handle_missing_values (categorical_cfg (cp_config self)) data
               categorical_columns of
          Inl e \<Rightarrow> Inl e
        | Inr data' \<Rightarrow> categorical_fit_loop L data' categorical_columns self)"

fun categorical_transform_loop ::
  "(string \<rightharpoonup> encoder) \<Rightarrow> (string \<rightharpoonup> encoding_map) \<Rightarrow> table \<Rightarrow> string list \<Rightarrow> error + table" where
  "categorical_transform_loop encoders encoding_maps df [] = Inr df"
| "categorical_transform_loop encoders encoding_maps df (col # cols) =
     (case encoders col of
        None \<Rightarrow> categorical_transform_loop encoders encoding_maps df cols
      | Some (LabelEncoder classes) \<Rightarrow>
          (case getitem df col of
             Inl e \<Rightarrow> Inl e
           | Inr xs \<Rightarrow>
               (case label_transform classes xs of
                  Inl e \<Rightarrow> Inl e
                | Inr codes \<Rightarrow>
                    (case setitem df col (map (\<lambda>n. Num (of_nat n)) codes) of
                       Inl e \<Rightarrow> Inl e
                     | Inr df' \<Rightarrow> categorical_transform_loop encoders encoding_maps df' cols)))
      | Some (OneHotEncoder categories) \<Rightarrow>
          (case getitem df col of
             Inl e \<Rightarrow> Inl e
           | Inr xs \<Rightarrow>
               (case onehot_transform categories xs of
                  Inl e \<Rightarrow> Inl e
                | Inr encoded_features \<Rightarrow>
                    (case encoding_maps col of
                       None \<Rightarrow> Inl KeyError
                     | Some (LabelMap _) \<Rightarrow> Inl KeyError
                     | Some (FeatureNames feature_names) \<Rightarrow>
                         (case data_frame encoded_features feature_names (row_index df) of
                            Inl e \<Rightarrow> Inl e
                          | Inr encoded_df \<Rightarrow>
                              categorical_transform_loop encoders encoding_maps
                                (concat_axis1 [drop_column df col, encoded_df]) cols)))))"

definition categorical_transform :: "categorical_preprocessor \<Rightarrow> table \<Rightarrow> error + table" where
  "categorical_transform self data =
     (if \<not> validate_input (cp_config self) data then Inl ValueError
      else
        let categorical_columns = get_columns_by_type (cp_config self) ''categorical'' in
        case categorical_handle_missing_values (categorical_cfg (cp_config self)) data
               categorical_columns of
          Inl e \<Rightarrow> Inl e
        | Inr df \<Rightarrow>
            categorical_transform_loop (cp_encoders self) (cp_encoding_maps self) df
              categorical_columns)"

section \<open>PreprocessorFactory\<close>

datatype 'p preprocessor =
    TextPreprocessor text_preprocessor
  | NumericPreprocessor "'p numeric_preprocessor"
  | CategoricalPreprocessor categorical_preprocessor

text \<open>The dictionary \<open>self.preprocessors\<close> keeps its keys in insertion order.\<close>

record 'p preprocessor_factory =
  pf_config :: config
  pf_preprocessors :: "(string \<times> 'p preprocessor) list"

definition initialize_preprocessors :: "config \<Rightarrow> error + (string \<times> 'p preprocessor) list" where
  "initialize_preprocessors cfg =
     (let column_types = set (map cs_type (input_columns cfg));
          p1 = (if ''text'' \<in> column_types
                then [(''text'', TextPreprocessor (text_init cfg))] else [])
      in case (if ''numeric'' \<in> column_types
               then (case numeric_init cfg of
                       Inl e \<Rightarrow> Inl e
                     | Inr np \<Rightarrow> Inr (p1 @ [(''numeric'', NumericPreprocessor np)]))
               else Inr p1) of
           Inl e \<Rightarrow> Inl e
         | Inr p2 \<Rightarrow>
             Inr (if ''categorical'' \<in> column_types
                  then p2 @ [(''categorical'', CategoricalPreprocessor (categorical_init cfg))]
                  else p2))"

definition factory_init :: "config \<Rightarrow> error + 'p preprocessor_factory" where
  "factory_init cfg =
     (case initialize_preprocessors cfg of
        Inl e \<Rightarrow> Inl e
      | Inr ps \<Rightarrow> Inr \<lparr>pf_config = cfg, pf_preprocessors = ps\<rparr>)"

fun preprocessor_fit :: "'p library \<Rightarrow> 'p preprocessor \<Rightarrow> table \<Rightarrow> error + 'p preprocessor" where
  "preprocessor_fit L (TextPreprocessor p) data =
     (case text_fit p data of Inl e \<Rightarrow> Inl e | Inr p' \<Rightarrow> Inr (TextPreprocessor p'))"
| "preprocessor_fit L (NumericPreprocessor p) data =
     (case numeric_fit L p data of Inl e \<Rightarrow> Inl e | Inr p' \<Rightarrow> Inr (NumericPreprocessor p'))"
| "preprocessor_fit L (CategoricalPreprocessor p) data =
     (case categorical_fit L p data of
        Inl e \<Rightarrow> Inl e
      | Inr p' \<Rightarrow> Inr (CategoricalPreprocessor p'))"

fun preprocessor_transform :: "'p library \<Rightarrow> 'p preprocessor \<Rightarrow> table \<Rightarrow> error + table" where
  "preprocessor_transform L (TextPreprocessor p) data = text_transform L p data"
| "preprocessor_transform L (NumericPreprocessor p) data = numeric_transform L p data"
| "preprocessor_transform L (CategoricalPreprocessor p) data = categorical_transform p data"

fun factory_fit_loop ::
  "'p library \<Rightarrow> config \<Rightarrow> table \<Rightarrow> (string \<times> 'p preprocessor) list
     \<Rightarrow> error + (string \<times> 'p preprocessor) list" where
  "factory_fit_loop L cfg data [] = Inr []"
| "factory_fit_loop L cfg data ((preprocessor_type, preprocessor) # rest) =
     (let cols = get_columns_by_type cfg preprocessor_type in
      case (if cols \<noteq> []
            then (case getitems data cols of
                    Inl e \<Rightarrow> Inl e
                  | Inr sub \<Rightarrow> preprocessor_fit L preprocessor sub)
            else Inr preprocessor) of
        Inl e \<Rightarrow> Inl e
      | Inr preprocessor' \<Rightarrow>
          (case factory_fit_loop L cfg data rest of
             Inl e \<Rightarrow> Inl e
           | Inr rest' \<Rightarrow> Inr ((preprocessor_type, preprocessor') # rest')))"

definition factory_fit ::
  "'p library \<Rightarrow> 'p preprocessor_factory \<Rightarrow> table \<Rightarrow> error + 'p preprocessor_factory" where
  "factory_fit L self data =
     (case factory_fit_loop L (pf_config self) data (pf_preprocessors self) of
        Inl e \<Rightarrow> Inl e
      | Inr ps \<Rightarrow> Inr (self\<lparr>pf_preprocessors := ps\<rparr>))"

fun factory_transform_loop ::
  "'p library \<Rightarrow> config \<Rightarrow> table \<Rightarrow> (string \<times> 'p preprocessor) list \<Rightarrow> error + table list" where
  "factory_transform_loop L cfg df [] = Inr []"
| "factory_transform_loop L cfg df ((preprocessor_type, preprocessor) # rest) =
     (let cols = get_columns_by_type cfg preprocessor_type in
      case (if cols \<noteq> []
            then (case getitems df cols of
                    Inl e \<Rightarrow> Inl e
                  | Inr sub \<Rightarrow>
                      (case preprocessor_transform L preprocessor sub of
                         Inl e \<Rightarrow> Inl e
                       | Inr processed_df \<Rightarrow> Inr [processed_df]))
            else Inr []) of
        Inl e \<Rightarrow> Inl e
      | Inr processed \<Rightarrow>
          (case factory_transform_loop L cfg df rest of
             Inl e \<Rightarrow> Inl e
           | Inr processed_dfs \<Rightarrow> Inr (processed @ processed_dfs)))"

definition factory_transform ::
  "'p library \<Rightarrow> 'p preprocessor_factory \<Rightarrow> table \<Rightarrow> error + table" where
  "factory_transform L self data =
     (case factory_transform_loop L (pf_config self) data (pf_preprocessors self) of
        Inl e \<Rightarrow> Inl e
      | Inr processed_dfs \<Rightarrow>
          if processed_dfs \<noteq> [] then Inr (concat_axis1 processed_dfs) else Inr data)"

section \<open>A library instance and example data\<close>

text \<open>
  Evaluating the model at a concrete input needs concrete library functions.  The
  instance has \<open>MinMaxScaler\<close> only; the other two scaler classes are not part of it.
  A fitted \<open>MinMaxScaler\<close> holds the smallest and the largest number of the fitted
  column (\<open>data_min_\<close>, \<open>data_max_\<close>); missing values are disregarded in \<open>fit\<close>, and
  on a column without any number both bounds are \<open>nan\<close>.  \<open>fit\<close> and \<open>transform\<close>
  raise \<open>ValueError\<close> on a column with no rows and on a column that holds a string.
  \<open>transform\<close> maps a number \<open>x\<close> to \<open>(x - data_min_) / (data_max_ - data_min_)\<close>, a
  constant fitted column being scaled by 1; a missing value stays missing, and with
  \<open>nan\<close> bounds every cell of the result is \<open>nan\<close>.  The tokenizer splits at spaces,
  the stop words are a few English ones, and stemming, lower-casing and the printing of
  numbers are placeholders that the examples with this instance do not exercise.
\<close>

datatype minmax = MinMax rat rat | MinMaxNaN

definition minmax_fit :: "scaler_class \<Rightarrow> cell list \<Rightarrow> error + minmax" where
  "minmax_fit cls xs =
     (if cls \<noteq> MinMaxScaler \<or> xs = [] then Inl ValueError
      else case as_numbers xs of
             Inl e \<Rightarrow> Inl ValueError
           | Inr [] \<Rightarrow> Inr MinMaxNaN
           | Inr (r # rs) \<Rightarrow> Inr (MinMax (fold min rs r) (fold max rs r)))"

definition minmax_transform :: "minmax \<Rightarrow> cell list \<Rightarrow> error + cell list" where
  "minmax_transform p xs =
     (if xs = [] \<or> list_ex is_str xs then Inl ValueError
      else Inr (map (\<lambda>x. case (p, x) of
                           (MinMax lo hi, Num r) \<Rightarrow>
                             Num ((r - lo) / (if hi = lo then 1 else hi - lo))
                         | _ \<Rightarrow> NaN) xs))"

fun split_spaces :: "string \<Rightarrow> string \<Rightarrow> string list" where
  "split_spaces w [] = (if w = [] then [] else [w])"
| "split_spaces w (c # cs) =
     (if c = CHR '' '' then (if w = [] then split_spaces [] cs else w # split_spaces [] cs)
      else split_spaces (w @ [c]) cs)"

definition example_library :: "minmax library" where
  "example_library =
     \<lparr>scaler_fit = minmax_fit,
      scaler_transform = minmax_transform,
      str_of_num = (\<lambda>r. ''0''),
      str_lower = (\<lambda>s. s),
      word_tokenize = (\<lambda>s. Inr (split_spaces [] s)),
      stopwords_words = Inr [''the'', ''a'', ''of''],
      stem = (\<lambda>t. Inr t)\<rparr>"

definition example_text_config :: text_config where
  "example_text_config =
     \<lparr>lowercase = False, remove_punctuation = True, remove_stopwords = True, stemming = False\<rparr>"

definition example_config :: config where
  "example_config =
     \<lparr>input_columns = [\<lparr>cs_name = ''age'', cs_type = ''numeric''\<rparr>,
                       \<lparr>cs_name = ''city'', cs_type = ''categorical''\<rparr>],
      text_cfg = example_text_config,
      numeric_cfg = \<lparr>num_handle_missing = ''mean'', scaling = ''minmax''\<rparr>,
      categorical_cfg = \<lparr>cat_handle_missing = ''mode'', encoding = ''label''\<rparr>\<rparr>"

definition example_table :: table where
  "example_table =
     \<lparr>row_index = [0, 1, 2],
      columns = [(''age'', [Num 10, Num 20, NaN]),
                 (''city'', [Str ''A'', Str ''B'', Str ''A''])]\<rparr>"

text \<open>A configuration whose enum-like settings are not recognised, except for the
  scaling method, and a table with a missing category.\<close>

definition unknown_config :: config where
  "unknown_config =
     \<lparr>input_columns = [\<lparr>cs_name = ''city'', cs_type = ''categorical''\<rparr>],
      text_cfg = example_text_config,
      numeric_cfg = \<lparr>num_handle_missing = ''bogus'', scaling = ''minmax''\<rparr>,
      categorical_cfg = \<lparr>cat_handle_missing = ''bogus'', encoding = ''bogus''\<rparr>\<rparr>"

definition city_table :: table where
  "city_table = \<lparr>row_index = [0, 1], columns = [(''city'', [Str ''A'', NaN])]\<rparr>"

definition unknown_numeric :: "minmax numeric_preprocessor" where
  "unknown_numeric =
     \<lparr>np_config =
        example_config\<lparr>numeric_cfg := \<lparr>num_handle_missing = ''bogus'', scaling = ''minmax''\<rparr>\<rparr>,
      np_scaler_class = MinMaxScaler, np_scalers = Map.empty\<rparr>"

section \<open>The text pipeline as the specification words it\<close>

text \<open>
  The specification describes the processing of one string as a fixed sequence of steps,
  each applied when it is enabled: lowercase, strip punctuation, tokenize, remove
  stop words, stem, rejoin with single spaces.  The steps are written here one by one,
  without the functions of the model of \<open>_preprocess_text\<close>, and composed in that order;
  a step that calls the library can raise, which ends the sequence.  This definition is
  compared with \<open>preprocess_text\<close> below.
\<close>

definition spec_lowercase :: "'p library \<Rightarrow> text_config \<Rightarrow> string \<Rightarrow> string" where
  "spec_lowercase L tcfg s = (if lowercase tcfg then str_lower L s else s)"

definition spec_strip_punctuation :: "text_config \<Rightarrow> string \<Rightarrow> string" where
  "spec_strip_punctuation tcfg s =
     (if remove_punctuation tcfg then filter (\<lambda>c. c \<notin> set punctuation) s else s)"

definition spec_remove_stopwords ::
  "'p library \<Rightarrow> text_config \<Rightarrow> string list \<Rightarrow> error + string list" where
  "spec_remove_stopwords L tcfg tokens =
     (if remove_stopwords tcfg
      then (case stopwords_words L of
              Inl e \<Rightarrow> Inl e
            | Inr stop_words \<Rightarrow> Inr (filter (\<lambda>t. t \<notin> set stop_words) tokens))
      else Inr tokens)"

text \<open>Stem: every token is replaced by its stem, the tokens keeping their order.  When
  the stemmer raises on a token, the step raises what the first such token raises.\<close>

definition spec_stem :: "'p library \<Rightarrow> text_config \<Rightarrow> string list \<Rightarrow> error + string list" where
  "spec_stem L tcfg tokens =
     (if stemming tcfg
      then (case find isl (map (stem L) tokens) of
              Some r \<Rightarrow> Inl (projl r)
            | None \<Rightarrow> Inr (map (\<lambda>t. projr (stem L t)) tokens))
      else Inr tokens)"

text \<open>Rejoin with single spaces: the first token, and one space before each of the
  tokens after it; nothing for no token.\<close>

definition spec_rejoin :: "string list \<Rightarrow> string" where
  "spec_rejoin tokens =
     (case tokens of
        [] \<Rightarrow> []
      | t # ts \<Rightarrow> t @ concat (map (\<lambda>u. CHR '' '' # u) ts))"

definition and_then :: "error + 'a \<Rightarrow> ('a \<Rightarrow> error + 'b) \<Rightarrow> error + 'b" where
  "and_then r f = (case r of Inl e \<Rightarrow> Inl e | Inr x \<Rightarrow> f x)"

definition spec_text_steps :: "'p library \<Rightarrow> text_config \<Rightarrow> string \<Rightarrow> error + string" where
  "spec_text_steps L tcfg s =
     and_then
       (and_then
          (and_then (word_tokenize L (spec_strip_punctuation tcfg (spec_lowercase L tcfg s)))
             (spec_remove_stopwords L tcfg))
          (spec_stem L tcfg))
       (\<lambda>tokens. Inr (spec_rejoin tokens))"

text \<open>A library instance that exercises every step: lower-casing of the ASCII letters,
  and a stemmer that takes a final \<open>s\<close> off a token; and the text configuration that
  enables the four optional steps.\<close>

definition ascii_lower :: "char \<Rightarrow> char" where
  "ascii_lower c =
     (case map_of (zip ''ABCDEFGHIJKLMNOPQRSTUVWXYZ'' ''abcdefghijklmnopqrstuvwxyz'') c of
        Some d \<Rightarrow> d
      | None \<Rightarrow> c)"

definition strip_s :: "string \<Rightarrow> string" where
  "strip_s t = (if t \<noteq> [] \<and> last t = CHR ''s'' then butlast t else t)"

definition text_library :: "minmax library" where
  "text_library =
     example_library\<lparr>str_lower := map ascii_lower, stem := (\<lambda>t. Inr (strip_s t))\<rparr>"

definition all_steps_config :: text_config where
  "all_steps_config =
     \<lparr>lowercase = True, remove_punctuation = True, remove_stopwords = True, stemming = True\<rparr>"

section \<open>Well-formed tables and configurations\<close>

text \<open>
  In a frame every column has one value per row.  The frames handed to the preprocessors
  have pairwise distinct column labels (pandas' readers rename repeated labels), and a
  column holds numbers or strings, not both.  The column names of a configuration are
  pairwise distinct.
\<close>

definition rows_ok :: "table \<Rightarrow> bool" where
  "rows_ok df = list_all (\<lambda>c. length (snd c) = length (row_index df)) (columns df)"

definition wf_table :: "table \<Rightarrow> bool" where
  "wf_table df =
     (distinct (map fst (columns df)) \<and> rows_ok df \<and>
      list_all (\<lambda>c. \<not> (list_ex is_num (snd c) \<and> list_ex is_str (snd c))) (columns df))"

definition wf_config :: "config \<Rightarrow> bool" where
  "wf_config cfg = distinct (map cs_name (input_columns cfg))"

text \<open>A configuration with one numeric column, a table to fit on and a table to
  transform.\<close>

definition age_config :: config where
  "age_config =
     \<lparr>input_columns = [\<lparr>cs_name = ''age'', cs_type = ''numeric''\<rparr>],
      text_cfg = example_text_config,
      numeric_cfg = \<lparr>num_handle_missing = ''mean'', scaling = ''minmax''\<rparr>,
      categorical_cfg = \<lparr>cat_handle_missing = ''mode'', encoding = ''label''\<rparr>\<rparr>"

definition age_fit_table :: table where
  "age_fit_table = \<lparr>row_index = [0, 1], columns = [(''age'', [Num 10, Num 20])]\<rparr>"

definition age_table :: table where
  "age_table = \<lparr>row_index = [0, 1], columns = [(''age'', [NaN, Num 100])]\<rparr>"

definition age_preprocessor :: "minmax numeric_preprocessor" where
  "age_preprocessor =
     \<lparr>np_config = age_config, np_scaler_class = MinMaxScaler, np_scalers = Map.empty\<rparr>"

definition age_fitted :: "minmax numeric_preprocessor" where
  "age_fitted =
     \<lparr>np_config = age_config, np_scaler_class = MinMaxScaler,
      np_scalers = [''age'' \<mapsto> MinMax 10 20]\<rparr>"

text \<open>Configurations with one categorical column, for the two encoding methods, a table
  to fit on and a table with a category that the fit table does not have.\<close>

definition city_label_config :: config where
  "city_label_config =
     \<lparr>input_columns = [\<lparr>cs_name = ''city'', cs_type = ''categorical''\<rparr>],
      text_cfg = example_text_config,
      numeric_cfg = \<lparr>num_handle_missing = ''mean'', scaling = ''minmax''\<rparr>,
      categorical_cfg = \<lparr>cat_handle_missing = ''mode'', encoding = ''label''\<rparr>\<rparr>"

definition city_onehot_config :: config where
  "city_onehot_config =
     \<lparr>input_columns = [\<lparr>cs_name = ''city'', cs_type = ''categorical''\<rparr>],
      text_cfg = example_text_config,
      numeric_cfg = \<lparr>num_handle_missing = ''mean'', scaling = ''minmax''\<rparr>,
      categorical_cfg = \<lparr>cat_handle_missing = ''mode'', encoding = ''onehot''\<rparr>\<rparr>"

definition city_fit_table :: table where
  "city_fit_table = \<lparr>row_index = [0, 1], columns = [(''city'', [Str ''B'', Str ''A''])]\<rparr>"

definition city_unseen_table :: table where
  "city_unseen_table = \<lparr>row_index = [0, 1], columns = [(''city'', [Str ''C'', Str ''A''])]\<rparr>"

definition city_label_fitted :: categorical_preprocessor where
  "city_label_fitted =
     \<lparr>cp_config = city_label_config,
      cp_encoders = [''city'' \<mapsto> LabelEncoder [Str ''A'', Str ''B'']],
      cp_encoding_maps = [''city'' \<mapsto> LabelMap [(Str ''A'', 0), (Str ''B'', 1)]]\<rparr>"

definition city_onehot_fitted :: categorical_preprocessor where
  "city_onehot_fitted =
     \<lparr>cp_config = city_onehot_config,
      cp_encoders = [''city'' \<mapsto> OneHotEncoder [Str ''A'', Str ''B'']],
      cp_encoding_maps = [''city'' \<mapsto> FeatureNames [''city_A'', ''city_B'']]\<rparr>"

section \<open>The missing-value loops in one form\<close>

text \<open>The two \<open>_handle_missing_values\<close> loops differ only in the fill value.  This
  function is their common shape; it is used to state facts about both.\<close>

fun fill_loop :: "(cell list \<Rightarrow> error + cell) \<Rightarrow> table \<Rightarrow> string list \<Rightarrow> error + table" where
  "fill_loop f df [] = Inr df"
| "fill_loop f df (col # cols) =
     (case getitem df col of
        Inl e \<Rightarrow> Inl e
      | Inr xs \<Rightarrow>
          (case f xs of
             Inl e \<Rightarrow> Inl e
           | Inr v \<Rightarrow> fill_loop f (replace_column df col (fillna xs v)) cols))"

text \<open>A configuration with one text column and a table for it.\<close>

definition review_config :: config where
  "review_config =
     \<lparr>input_columns = [\<lparr>cs_name = ''review'', cs_type = ''text''\<rparr>],
      text_cfg = example_text_config,
      numeric_cfg = \<lparr>num_handle_missing = ''mean'', scaling = ''minmax''\<rparr>,
      categorical_cfg = \<lparr>cat_handle_missing = ''mode'', encoding = ''label''\<rparr>\<rparr>"

definition review_table :: table where
  "review_table =
     \<lparr>row_index = [0, 1, 2],
      columns = [(''review'', [Str ''the cat, of a hat!'', NaN, Str ''a dog''])]\<rparr>"

section \<open>The output of one transform of the factory\<close>

text \<open>What the specification calls the output of an instantiated per-type transform:
  the transform of the preprocessor registered for a type, applied to the slice of the
  table to the columns declared with that type.\<close>

definition per_type_output ::
  "'p library \<Rightarrow> config \<Rightarrow> table \<Rightarrow> string \<times> 'p preprocessor \<Rightarrow> error + table" where
  "per_type_output L cfg data tp =
     (case getitems data (get_columns_by_type cfg (fst tp)) of
        Inl e \<Rightarrow> Inl e
      | Inr sub \<Rightarrow> preprocessor_transform L (snd tp) sub)"

text \<open>A configuration whose only column has a type without a preprocessor, and a table
  for it.\<close>

definition date_config :: config where
  "date_config =
     \<lparr>input_columns = [\<lparr>cs_name = ''day'', cs_type = ''date''\<rparr>],
      text_cfg = example_text_config,
      numeric_cfg = \<lparr>num_handle_missing = ''mean'', scaling = ''minmax''\<rparr>,
      categorical_cfg = \<lparr>cat_handle_missing = ''mode'', encoding = ''label''\<rparr>\<rparr>"

definition date_table :: table where
  "date_table = \<lparr>row_index = [0, 1], columns = [(''day'', [Str ''mon'', Str ''tue''])]\<rparr>"

definition age_factory :: "minmax preprocessor_factory" where
  "age_factory =
     \<lparr>pf_config = age_config,
      pf_preprocessors = [(''numeric'', NumericPreprocessor age_fitted)]\<rparr>"

section \<open>Notions used in the statements about the encoders\<close>

text \<open>The indicator column of a category: 1 in the rows that hold the category, 0 in
  all other rows.\<close>

definition indicator_column :: "cell \<Rightarrow> cell list \<Rightarrow> cell list" where
  "indicator_column category xs = map (\<lambda>x. if x = category then Num 1 else Num 0) xs"

text \<open>A state in which every encoder is a label encoder, as \<open>fit\<close> leaves it under
  the encoding method \<open>label\<close>.\<close>

definition all_label :: "(string \<rightharpoonup> encoder) \<Rightarrow> bool" where
  "all_label encoders =
     (\<forall>c enc. encoders c = Some enc \<longrightarrow> (\<exists>classes. enc = LabelEncoder classes))"

text \<open>No generated one-hot column is named like one of the given columns (a column \<open>a_b\<close>
  beside a column \<open>a\<close> with the category \<open>b\<close> would be such a clash).\<close>

definition no_name_clash :: "(string \<rightharpoonup> encoding_map) \<Rightarrow> string list \<Rightarrow> bool" where
  "no_name_clash encoding_maps cols =
     (\<forall>c \<in> set cols. \<forall>c' \<in> set cols. \<forall>names.
        encoding_maps c' = Some (FeatureNames names) \<longrightarrow> c \<notin> set names)"

section \<open>Frames as objects in a store\<close>

text \<open>
  Whether a call changes the table of its caller depends on which frame object each
  statement writes to.  For this the frames live in a store, a list of frames; a
  reference is a position in the list.  Creating a frame (\<open>copy\<close>, a slice
  \<open>data[columns]\<close>, \<open>drop\<close>, \<open>pd.concat\<close>, \<open>pd.DataFrame\<close>) appends it to the store
  and gives its reference.  A statement that changes a frame in place (\<open>fillna\<close> with
  \<open>inplace=True\<close>, the assignment \<open>df[col] = values\<close>) replaces the frame at the reference
  of the variable it names.  The functions below follow the methods of the source
  statement by statement and return the new store with the result; when a method raises,
  the store holds what had been written until then.
\<close>

type_synonym store = "table list"

type_synonym ref = nat

definition alloc :: "store \<Rightarrow> table \<Rightarrow> store \<times> ref" where
  "alloc s t = (s @ [t], length s)"

text \<open>\<open>data.copy()\<close>.\<close>

definition copy_frame :: "store \<Rightarrow> ref \<Rightarrow> store \<times> ref" where
  "copy_frame s r = alloc s (s ! r)"

subsection \<open>NumericPreprocessor\<close>

fun numeric_handle_missing_loop_st ::
  "string \<Rightarrow> store \<Rightarrow> ref \<Rightarrow> string list \<Rightarrow> store \<times> error option" where
  "numeric_handle_missing_loop_st method s df [] = (s, None)"
| "numeric_handle_missing_loop_st method s df (col # cols) =
     (case getitem (s ! df) col of
        Inl e \<Rightarrow> (s, Some e)
      | Inr xs \<Rightarrow>
          (case numeric_fill_value method xs of
             Inl e \<Rightarrow> (s, Some e)
           | Inr v \<Rightarrow>
               numeric_handle_missing_loop_st method
                 (s[df := replace_column (s ! df) col (fillna xs v)]) df cols))"

definition numeric_handle_missing_values_st ::
  "numeric_config \<Rightarrow> store \<Rightarrow> ref \<Rightarrow> string list \<Rightarrow> store \<times> (error + ref)" where
  "numeric_handle_missing_values_st ncfg s data cols =
     (case copy_frame s data of
        (s1, df) \<Rightarrow>
          (case numeric_handle_missing_loop_st (num_handle_missing ncfg) s1 df cols of
             (s2, Some e) \<Rightarrow> (s2, Inl e)
           | (s2, None) \<Rightarrow> (s2, Inr df)))"

definition numeric_fit_st ::
  "'p library \<Rightarrow> 'p numeric_preprocessor \<Rightarrow> store \<Rightarrow> ref
     \<Rightarrow> store \<times> (error + 'p numeric_preprocessor)" where
  "numeric_fit_st L self s data =
     (if \<not> validate_input (np_config self) (s ! data) then (s, Inl ValueError)
      else
        let numeric_columns = get_columns_by_type (np_config self) ''numeric'' in
        case numeric_handle_missing_values_st (numeric_cfg (np_config self)) s data
               numeric_columns of
          (s1, Inl e) \<Rightarrow> (s1, Inl e)
        | (s1, Inr data') \<Rightarrow>
            (s1, case numeric_fit_loop L (np_scaler_class self) (s1 ! data') numeric_columns
                        (np_scalers self) of
                   Inl e \<Rightarrow> Inl e
                 | Inr scalers \<Rightarrow> Inr (self\<lparr>np_scalers := scalers\<rparr>)))"

fun numeric_transform_loop_st ::
  "'p library \<Rightarrow> (string \<rightharpoonup> 'p) \<Rightarrow> store \<Rightarrow> ref \<Rightarrow> string list \<Rightarrow> store \<times> error option" where
  "numeric_transform_loop_st L scalers s df [] = (s, None)"
| "numeric_transform_loop_st L scalers s df (col # cols) =
     (case scalers col of
        None \<Rightarrow> numeric_transform_loop_st L scalers s df cols
      | Some sc \<Rightarrow>
          (case getitem (s ! df) col of
             Inl e \<Rightarrow> (s, Some e)
           | Inr xs \<Rightarrow>
               (case scaler_transform L sc xs of
                  Inl e \<Rightarrow> (s, Some e)
                | Inr ys \<Rightarrow>
                    (case setitem (s ! df) col ys of
                       Inl e \<Rightarrow> (s, Some e)
                     | Inr t \<Rightarrow> numeric_transform_loop_st L scalers (s[df := t]) df cols))))"

definition numeric_transform_st ::
  "'p library \<Rightarrow> 'p numeric_preprocessor \<Rightarrow> store \<Rightarrow> ref \<Rightarrow> store \<times> (error + ref)" where
  "numeric_transform_st L self s data =
     (if \<not> validate_input (np_config self) (s ! data) then (s, Inl ValueError)
      else
        case copy_frame s data of
          (s1, df) \<Rightarrow>
            let numeric_columns = get_columns_by_type (np_config self) ''numeric'' in
            (case numeric_handle_missing_values_st (numeric_cfg (np_config self)) s1 df
                    numeric_columns of
               (s2, Inl e) \<Rightarrow> (s2, Inl e)
             | (s2, Inr df') \<Rightarrow>
                 (case numeric_transform_loop_st L (np_scalers self) s2 df' numeric_columns of
                    (s3, Some e) \<Rightarrow> (s3, Inl e)
                  | (s3, None) \<Rightarrow> (s3, Inr df'))))"

subsection \<open>TextPreprocessor\<close>

definition text_fit_st ::
  "text_preprocessor \<Rightarrow> store \<Rightarrow> ref \<Rightarrow> store \<times> (error + text_preprocessor)" where
  "text_fit_st self s data =
     (if \<not> validate_input (tp_config self) (s ! data) then (s, Inl ValueError)
      else (s, Inr self))"

fun text_transform_loop_st ::
  "'p library \<Rightarrow> text_config \<Rightarrow> store \<Rightarrow> ref \<Rightarrow> string list \<Rightarrow> store \<times> error option" where
  "text_transform_loop_st L tcfg s df [] = (s, None)"
| "text_transform_loop_st L tcfg s df (col # cols) =
     (case getitem (s ! df) col of
        Inl e \<Rightarrow> (s, Some e)
      | Inr xs \<Rightarrow>
          (case setitem (s ! df) col (map (\<lambda>x. Str (preprocess_text L tcfg x)) xs) of
             Inl e \<Rightarrow> (s, Some e)
           | Inr t \<Rightarrow> text_transform_loop_st L tcfg (s[df := t]) df cols))"

definition text_transform_st ::
  "'p library \<Rightarrow> text_preprocessor \<Rightarrow> store \<Rightarrow> ref \<Rightarrow> store \<times> (error + ref)" where
  "text_transform_st L self s data =
     (if \<not> validate_input (tp_config self) (s ! data) then (s, Inl ValueError)
      else
        case copy_frame s data of
          (s1, df) \<Rightarrow>
            let text_columns = get_columns_by_type (tp_config self) ''text'' in
            (case text_transform_loop_st L (text_cfg (tp_config self)) s1 df text_columns of
               (s2, Some e) \<Rightarrow> (s2, Inl e)
             | (s2, None) \<Rightarrow> (s2, Inr df)))"

subsection \<open>CategoricalPreprocessor\<close>

fun categorical_handle_missing_loop_st ::
  "string \<Rightarrow> store \<Rightarrow> ref \<Rightarrow> string list \<Rightarrow> store \<times> error option" where
  "categorical_handle_missing_loop_st method s df [] = (s, None)"
| "categorical_handle_missing_loop_st method s df (col # cols) =
     (case getitem (s ! df) col of
        Inl e \<Rightarrow> (s, Some e)
      | Inr xs \<Rightarrow>
          (case categorical_fill_value method xs of
             Inl e \<Rightarrow> (s, Some e)
           | Inr v \<Rightarrow>
               categorical_handle_missing_loop_st method
                 (s[df := replace_column (s ! df) col (fillna xs v)]) df cols))"

definition categorical_handle_missing_values_st ::
  "categorical_config \<Rightarrow> store \<Rightarrow> ref \<Rightarrow> string list \<Rightarrow> store \<times> (error + ref)" where
  "categorical_handle_missing_values_st ccfg s data cols =
     (case copy_frame s data of
        (s1, df) \<Rightarrow>
          (case categorical_handle_missing_loop_st (cat_handle_missing ccfg) s1 df cols of
             (s2, Some e) \<Rightarrow> (s2, Inl e)
           | (s2, None) \<Rightarrow> (s2, Inr df)))"

definition categorical_fit_st ::
  "'p library \<Rightarrow> categorical_preprocessor \<Rightarrow> store \<Rightarrow> ref
     \<Rightarrow> store \<times> (error + categorical_preprocessor)" where
  "categorical_fit_st L self s data =
     (if \<not> validate_input (cp_config self) (s ! data) then (s, Inl ValueError)
      else
        let categorical_columns = get_columns_by_type (cp_config self) ''categorical'' in
        case categorical_handle_missing_values_st (categorical_cfg (cp_config self)) s data
               categorical_columns of
          (s1, Inl e) \<Rightarrow> (s1, Inl e)
        | (s1, Inr data') \<Rightarrow>
            (s1, categorical_fit_loop L (s1 ! data') categorical_columns self))"

text \<open>In the one-hot branch \<open>pd.DataFrame\<close>, \<open>drop\<close> and \<open>pd.concat\<close> each create a
  frame, and \<open>df\<close> is bound to the new one.\<close>

fun categorical_transform_loop_st ::
  "(string \<rightharpoonup> encoder) \<Rightarrow> (string \<rightharpoonup> encoding_map) \<Rightarrow> store \<Rightarrow> ref \<Rightarrow> string list
     \<Rightarrow> store \<times> (error + ref)" where
  "categorical_transform_loop_st encoders encoding_maps s df [] = (s, Inr df)"
| "categorical_transform_loop_st encoders encoding_maps s df (col # cols) =
     (case encoders col of
        None \<Rightarrow> categorical_transform_loop_st encoders encoding_maps s df cols
      | Some (LabelEncoder classes) \<Rightarrow>
          (case getitem (s ! df) col of
             Inl e \<Rightarrow> (s, Inl e)
           | Inr xs \<Rightarrow>
               (case label_transform classes xs of
                  Inl e \<Rightarrow> (s, Inl e)
                | Inr codes \<Rightarrow>
                    (case setitem (s ! df) col (map (\<lambda>n. Num (of_nat n)) codes) of
                       Inl e \<Rightarrow> (s, Inl e)
                     | Inr t \<Rightarrow>
                         categorical_transform_loop_st encoders encoding_maps (s[df := t]) df
                           cols)))
      | Some (OneHotEncoder categories) \<Rightarrow>
          (case getitem (s ! df) col of
             Inl e \<Rightarrow> (s, Inl e)
           | Inr xs \<Rightarrow>
               (case onehot_transform categories xs of
                  Inl e \<Rightarrow> (s, Inl e)
                | Inr encoded_features \<Rightarrow>
                    (case encoding_maps col of
                       None \<Rightarrow> (s, Inl KeyError)
                     | Some (LabelMap _) \<Rightarrow> (s, Inl KeyError)
                     | Some (FeatureNames feature_names) \<Rightarrow>
                         (case data_frame encoded_features feature_names (row_index (s ! df)) of
                            Inl e \<Rightarrow> (s, Inl e)
                          | Inr encoded \<Rightarrow>
                              (case alloc s encoded of
                                 (s1, encoded_df) \<Rightarrow>
                                   (case alloc s1 (drop_column (s1 ! df) col) of
                                      (s2, dropped) \<Rightarrow>
                                        (case alloc s2
                                                (concat_axis1 [s2 ! dropped, s2 ! encoded_df]) of
                                           (s3, df') \<Rightarrow>
                                             categorical_transform_loop_st encoders
                                               encoding_maps s3 df' cols))))))))"

definition categorical_transform_st ::
  "categorical_preprocessor \<Rightarrow> store \<Rightarrow> ref \<Rightarrow> store \<times> (error + ref)" where
  "categorical_transform_st self s data =
     (if \<not> validate_input (cp_config self) (s ! data) then (s, Inl ValueError)
      else
        case copy_frame s data of
          (s1, df) \<Rightarrow>
            let categorical_columns = get_columns_by_type (cp_config self) ''categorical'' in
            (case categorical_handle_missing_values_st (categorical_cfg (cp_config self)) s1 df
                    categorical_columns of
               (s2, Inl e) \<Rightarrow> (s2, Inl e)
             | (s2, Inr df') \<Rightarrow>
                 categorical_transform_loop_st (cp_encoders self) (cp_encoding_maps self) s2 df'
                   categorical_columns))"

subsection \<open>PreprocessorFactory\<close>

fun preprocessor_fit_st ::
  "'p library \<Rightarrow> 'p preprocessor \<Rightarrow> store \<Rightarrow> ref \<Rightarrow> store \<times> (error + 'p preprocessor)" where
  "preprocessor_fit_st L (TextPreprocessor p) s data =
     (case text_fit_st p s data of
        (s1, Inl e) \<Rightarrow> (s1, Inl e)
      | (s1, Inr p') \<Rightarrow> (s1, Inr (TextPreprocessor p')))"
| "preprocessor_fit_st L (NumericPreprocessor p) s data =
     (case numeric_fit_st L p s data of
        (s1, Inl e) \<Rightarrow> (s1, Inl e)
      | (s1, Inr p') \<Rightarrow> (s1, Inr (NumericPreprocessor p')))"
| "preprocessor_fit_st L (CategoricalPreprocessor p) s data =
     (case categorical_fit_st L p s data of
        (s1, Inl e) \<Rightarrow> (s1, Inl e)
      | (s1, Inr p') \<Rightarrow> (s1, Inr (CategoricalPreprocessor p')))"

fun preprocessor_transform_st ::
  "'p library \<Rightarrow> 'p preprocessor \<Rightarrow> store \<Rightarrow> ref \<Rightarrow> store \<times> (error + ref)" where
  "preprocessor_transform_st L (TextPreprocessor p) s data = text_transform_st L p s data"
| "preprocessor_transform_st L (NumericPreprocessor p) s data = numeric_transform_st L p s data"
| "preprocessor_transform_st L (CategoricalPreprocessor p) s data =
     categorical_transform_st p s data"

fun factory_fit_loop_st ::
  "'p library \<Rightarrow> config \<Rightarrow> store \<Rightarrow> ref \<Rightarrow> (string \<times> 'p preprocessor) list
     \<Rightarrow> store \<times> (error + (string \<times> 'p preprocessor) list)" where
  "factory_fit_loop_st L cfg s data [] = (s, Inr [])"
| "factory_fit_loop_st L cfg s data ((preprocessor_type, preprocessor) # rest) =
     (let cols = get_columns_by_type cfg preprocessor_type in
      case (if cols \<noteq> []
            then (case getitems (s ! data) cols of
                    Inl e \<Rightarrow> (s, Inl e)
                  | Inr sub \<Rightarrow>
                      (case alloc s sub of
                         (s1, slice) \<Rightarrow> preprocessor_fit_st L preprocessor s1 slice))
            else (s, Inr preprocessor)) of
        (s2, Inl e) \<Rightarrow> (s2, Inl e)
      | (s2, Inr preprocessor') \<Rightarrow>
          (case factory_fit_loop_st L cfg s2 data rest of
             (s3, Inl e) \<Rightarrow> (s3, Inl e)
           | (s3, Inr rest') \<Rightarrow> (s3, Inr ((preprocessor_type, preprocessor') # rest'))))"

definition factory_fit_st ::
  "'p library \<Rightarrow> 'p preprocessor_factory \<Rightarrow> store \<Rightarrow> ref
     \<Rightarrow> store \<times> (error + 'p preprocessor_factory)" where
  "factory_fit_st L self s data =
     (case factory_fit_loop_st L (pf_config self) s data (pf_preprocessors self) of
        (s1, Inl e) \<Rightarrow> (s1, Inl e)
      | (s1, Inr ps) \<Rightarrow> (s1, Inr (self\<lparr>pf_preprocessors := ps\<rparr>)))"

fun factory_transform_loop_st ::
  "'p library \<Rightarrow> config \<Rightarrow> store \<Rightarrow> ref \<Rightarrow> (string \<times> 'p preprocessor) list
     \<Rightarrow> store \<times> (error + ref list)" where
  "factory_transform_loop_st L cfg s df [] = (s, Inr [])"
| "factory_transform_loop_st L cfg s df ((preprocessor_type, preprocessor) # rest) =
     (let cols = get_columns_by_type cfg preprocessor_type in
      case (if cols \<noteq> []
            then (case getitems (s ! df) cols of
                    Inl e \<Rightarrow> (s, Inl e)
                  | Inr sub \<Rightarrow>
                      (case alloc s sub of
                         (s1, slice) \<Rightarrow>
                           (case preprocessor_transform_st L preprocessor s1 slice of
                              (s2, Inl e) \<Rightarrow> (s2, Inl e)
                            | (s2, Inr processed_df) \<Rightarrow> (s2, Inr [processed_df]))))
            else (s, Inr [])) of
        (s2, Inl e) \<Rightarrow> (s2, Inl e)
      | (s2, Inr processed) \<Rightarrow>
          (case factory_transform_loop_st L cfg s2 df rest of
             (s3, Inl e) \<Rightarrow> (s3, Inl e)
           | (s3, Inr processed_dfs) \<Rightarrow> (s3, Inr (processed @ processed_dfs))))"

definition factory_transform_st ::
  "'p library \<Rightarrow> 'p preprocessor_factory \<Rightarrow> store \<Rightarrow> ref \<Rightarrow> store \<times> (error + ref)" where
  "factory_transform_st L self s data =
     (case copy_frame s data of
        (s1, df) \<Rightarrow>
          (case factory_transform_loop_st L (pf_config self) s1 df (pf_preprocessors self) of
             (s2, Inl e) \<Rightarrow> (s2, Inl e)
           | (s2, Inr processed_dfs) \<Rightarrow>
               if processed_dfs \<noteq> []
               then (case alloc s2 (concat_axis1 (map (\<lambda>r. s2 ! r) processed_dfs)) of
                       (s3, result) \<Rightarrow> (s3, Inr result))
               else (s2, Inr df)))"

text \<open>The table that a returned reference denotes in the store after the call; an
  error stays the error.\<close>

definition deref :: "store \<Rightarrow> error + ref \<Rightarrow> error + table" where
  "deref s r = (case r of Inl e \<Rightarrow> Inl e | Inr d \<Rightarrow> Inr (s ! d))"

section \<open>Configurations that declare more than one type\<close>

text \<open>The scenario of the specification: a numeric column \<open>age\<close> and a categorical
  column \<open>city\<close>, mean and standard scaling, mode and label encoding, on the table
  \<open>example_table\<close>; and the factory that the constructor builds for it.\<close>

definition scenario_config :: config where
  "scenario_config =
     \<lparr>input_columns = [\<lparr>cs_name = ''age'', cs_type = ''numeric''\<rparr>,
                       \<lparr>cs_name = ''city'', cs_type = ''categorical''\<rparr>],
      text_cfg = example_text_config,
      numeric_cfg = \<lparr>num_handle_missing = ''mean'', scaling = ''standard''\<rparr>,
      categorical_cfg = \<lparr>cat_handle_missing = ''mode'', encoding = ''label''\<rparr>\<rparr>"

definition scenario_factory :: "minmax preprocessor_factory" where
  "scenario_factory =
     \<lparr>pf_config = scenario_config,
      pf_preprocessors =
        [(''numeric'', NumericPreprocessor
            \<lparr>np_config = scenario_config, np_scaler_class = StandardScaler,
             np_scalers = Map.empty\<rparr>),
         (''categorical'', CategoricalPreprocessor (categorical_init scenario_config))]\<rparr>"

text \<open>A numeric column next to a column of a type that has no preprocessor, a table
  for it, and the factory that the constructor builds.\<close>

definition age_day_config :: config where
  "age_day_config =
     \<lparr>input_columns = [\<lparr>cs_name = ''age'', cs_type = ''numeric''\<rparr>,
                       \<lparr>cs_name = ''day'', cs_type = ''date''\<rparr>],
      text_cfg = example_text_config,
      numeric_cfg = \<lparr>num_handle_missing = ''mean'', scaling = ''minmax''\<rparr>,
      categorical_cfg = \<lparr>cat_handle_missing = ''mode'', encoding = ''label''\<rparr>\<rparr>"

definition age_day_table :: table where
  "age_day_table =
     \<lparr>row_index = [0, 1],
      columns = [(''age'', [Num 10, Num 20]), (''day'', [Str ''mon'', Str ''tue''])]\<rparr>"

definition age_day_factory :: "minmax preprocessor_factory" where
  "age_day_factory =
     \<lparr>pf_config = age_day_config,
      pf_preprocessors =
        [(''numeric'', NumericPreprocessor
            \<lparr>np_config = age_day_config, np_scaler_class = MinMaxScaler,
             np_scalers = Map.empty\<rparr>)]\<rparr>"

section \<open>Basic facts\<close>

lemmas example_defs =
  example_config_def example_table_def example_library_def example_text_config_def

lemma validate_input_iff:
  "validate_input cfg data \<longleftrightarrow>
     set (map cs_name (input_columns cfg)) \<subseteq> set (map fst (columns data))"
  by (auto simp: validate_input_def has_column_def filter_empty_conv)

section \<open>Input validation (C2)\<close>

text \<open>
  C2.  The claim: \<open>validate_input\<close> of a preprocessor holds exactly when the columns of
  the preprocessor's own type are present, so the factory's slice of a table to these
  columns passes.  The code checks all declared columns (\<open>validate_input_iff\<close>).  At
  the configuration with a numeric column \<open>age\<close> and a categorical column \<open>city\<close> the
  factory slices the table to \<open>age\<close> for the numeric preprocessor; the slice holds
  every numeric column, \<open>validate_input\<close> is false on it, and both \<open>fit\<close> and
  \<open>transform\<close> of the factory raise \<open>ValueError\<close>.
\<close>

theorem C2_typed_slice_rejected:
  "get_columns_by_type example_config ''numeric'' = [''age''] \<and>
   getitems example_table [''age'']
     = Inr \<lparr>row_index = [0, 1, 2], columns = [(''age'', [Num 10, Num 20, NaN])]\<rparr> \<and>
   validate_input example_config
     \<lparr>row_index = [0, 1, 2], columns = [(''age'', [Num 10, Num 20, NaN])]\<rparr> = False \<and>
   (case factory_init example_config of
      Inl e \<Rightarrow> False
    | Inr F \<Rightarrow>
        factory_fit example_library F example_table = Inl ValueError \<and>
        factory_transform example_library F example_table = Inl ValueError)"
  by (simp add: example_defs get_columns_by_type_def getitems_def getitem_def
      validate_input_def has_column_def factory_init_def initialize_preprocessors_def
      numeric_init_def setup_scalers_def text_init_def categorical_init_def
      factory_fit_def factory_transform_def numeric_fit_def numeric_transform_def)

lemma validate_input_has_column:
  "validate_input cfg data \<Longrightarrow> col \<in> set (get_columns_by_type cfg t) \<Longrightarrow> has_column data col"
  by (auto simp: validate_input_iff has_column_def get_columns_by_type_def)

lemma getitem_cases:
  "getitem df col = Inl KeyError \<and> \<not> has_column df col
   \<or> getitem df col = Inl ValueError \<and> has_column df col
   \<or> (\<exists>xs. getitem df col = Inr xs \<and> has_column df col)"
proof (cases "filter (\<lambda>c. fst c = col) (columns df)")
  case Nil
  then have "\<not> has_column df col"
    by (auto simp: has_column_def filter_empty_conv)
  with Nil show ?thesis by (simp add: getitem_def)
next
  case (Cons c cs)
  then have "c \<in> set (filter (\<lambda>c. fst c = col) (columns df))" by simp
  then have "has_column df col" by (auto simp: has_column_def)
  with Cons show ?thesis by (cases cs) (simp_all add: getitem_def)
qed

lemma getitem_present:
  "has_column df col \<Longrightarrow> getitem df col = Inl ValueError \<or> (\<exists>xs. getitem df col = Inr xs)"
  using getitem_cases [of df col] by auto

lemma numeric_unknown_method:
  assumes "method \<notin> {''mean'', ''median'', ''mode''}" "has_column df col"
  shows "numeric_handle_missing_loop method df (col # cols) = Inl ValueError"
  using assms getitem_present [of df col]
  by (auto simp: numeric_fill_value_def)

section \<open>Unrecognised configuration values (C3)\<close>

text \<open>
  Claim C3 as stated (an unrecognised missing-value policy, scaling method or encoding
  method makes the construction of the transform raise, and is never replaced by a
  default) does not hold: at \<open>unknown_config\<close> the missing-value policies and the
  encoding method are unrecognised, yet the numeric preprocessor is constructed, and the
  categorical preprocessor (whose construction has no error result) transforms a table,
  filling the missing category with the placeholder \<open>MISSING\<close>.
\<close>

theorem C3_counterexample:
  "cat_handle_missing (categorical_cfg unknown_config) \<notin> {''mode'', ''sentinel''}
   \<and> encoding (categorical_cfg unknown_config) \<notin> {''label'', ''onehot''}
   \<and> num_handle_missing (numeric_cfg unknown_config) \<notin> {''mean'', ''median'', ''mode''}
   \<and> (numeric_init unknown_config :: error + minmax numeric_preprocessor)
       = Inr \<lparr>np_config = unknown_config, np_scaler_class = MinMaxScaler, np_scalers = Map.empty\<rparr>
   \<and> categorical_transform (categorical_init unknown_config) city_table
       = Inr \<lparr>row_index = [0, 1], columns = [(''city'', [Str ''A'', Str ''MISSING''])]\<rparr>"
  by (simp add: unknown_config_def city_table_def numeric_init_def setup_scalers_def
      categorical_init_def categorical_transform_def validate_input_def has_column_def
      get_columns_by_type_def categorical_handle_missing_values_def getitem_def
      categorical_fill_value_def replace_column_def fillna_def)

text \<open>
  C3, amended.  An unrecognised scaling method makes the construction of the numeric
  preprocessor raise \<open>ValueError\<close>, and a recognised one lets it succeed whatever the
  missing-value policy is.  An unrecognised numeric missing-value policy raises
  \<open>ValueError\<close> in \<open>fit\<close> and in \<open>transform\<close>, when the configuration declares a
  numeric column.  An unrecognised encoding method makes the categorical \<open>fit\<close> raise
  when the configuration declares a categorical column (\<open>ValueError\<close> once the input
  is validated and its missing values are filled).  A categorical missing-value policy
  other than \<open>mode\<close> is not an error: the fill value is the placeholder \<open>MISSING\<close>.
\<close>

theorem C3_unknown_configuration:
  "(scaling (numeric_cfg cfg) \<notin> {''standard'', ''minmax'', ''robust''} \<longrightarrow>
      (numeric_init cfg :: error + 'p numeric_preprocessor) = Inl ValueError)
   \<and> (scaling (numeric_cfg cfg) \<in> {''standard'', ''minmax'', ''robust''} \<longrightarrow>
      (\<exists>P :: 'p numeric_preprocessor. numeric_init cfg = Inr P \<and> np_config P = cfg))
   \<and> (num_handle_missing (numeric_cfg (np_config P)) \<notin> {''mean'', ''median'', ''mode''}
        \<and> get_columns_by_type (np_config P) ''numeric'' \<noteq> [] \<longrightarrow>
      numeric_fit L P T = Inl ValueError \<and> numeric_transform L P T = Inl ValueError)
   \<and> (encoding (categorical_cfg (cp_config C)) \<notin> {''label'', ''onehot''}
        \<and> get_columns_by_type (cp_config C) ''categorical'' \<noteq> [] \<longrightarrow>
      (\<exists>e. categorical_fit L C T = Inl e)
      \<and> (\<forall>df. validate_input (cp_config C) T \<and>
            categorical_handle_missing_values (categorical_cfg (cp_config C)) T
              (get_columns_by_type (cp_config C) ''categorical'') = Inr df \<longrightarrow>
            categorical_fit L C T = Inl ValueError))
   \<and> (m \<noteq> ''mode'' \<longrightarrow> categorical_fill_value m xs = Inr (Str ''MISSING''))"
proof (intro conjI impI)
  assume "scaling (numeric_cfg cfg) \<notin> {''standard'', ''minmax'', ''robust''}"
  then show "(numeric_init cfg :: error + 'p numeric_preprocessor) = Inl ValueError"
    by (simp add: numeric_init_def setup_scalers_def)
next
  assume "scaling (numeric_cfg cfg) \<in> {''standard'', ''minmax'', ''robust''}"
  then show "\<exists>P :: 'p numeric_preprocessor. numeric_init cfg = Inr P \<and> np_config P = cfg"
    by (auto simp: numeric_init_def setup_scalers_def)
next
  assume a: "num_handle_missing (numeric_cfg (np_config P)) \<notin> {''mean'', ''median'', ''mode''}
        \<and> get_columns_by_type (np_config P) ''numeric'' \<noteq> []"
  then obtain col cols where cs: "get_columns_by_type (np_config P) ''numeric'' = col # cols"
    by (cases "get_columns_by_type (np_config P) ''numeric''") auto
  have loop: "validate_input (np_config P) T \<Longrightarrow>
      numeric_handle_missing_values (numeric_cfg (np_config P)) T (col # cols) = Inl ValueError"
    unfolding numeric_handle_missing_values_def
    using a cs validate_input_has_column [of "np_config P" T col "''numeric''"]
    by (intro numeric_unknown_method) auto
  show "numeric_fit L P T = Inl ValueError"
    using loop by (simp add: numeric_fit_def cs Let_def)
  show "numeric_transform L P T = Inl ValueError"
    using loop by (simp add: numeric_transform_def cs Let_def)
next
  assume a: "encoding (categorical_cfg (cp_config C)) \<notin> {''label'', ''onehot''}
        \<and> get_columns_by_type (cp_config C) ''categorical'' \<noteq> []"
  then obtain col cols where cs: "get_columns_by_type (cp_config C) ''categorical'' = col # cols"
    by (cases "get_columns_by_type (cp_config C) ''categorical''") auto
  have loop: "categorical_fit_loop L df (col # cols) C = Inl ValueError" for df
    using a by (simp add: setup_encoder_def)
  show "\<exists>e. categorical_fit L C T = Inl e"
    by (simp add: categorical_fit_def cs loop Let_def del: categorical_fit_loop.simps
        split: sum.splits)
  show "\<forall>df. validate_input (cp_config C) T \<and>
            categorical_handle_missing_values (categorical_cfg (cp_config C)) T
              (get_columns_by_type (cp_config C) ''categorical'') = Inr df \<longrightarrow>
            categorical_fit L C T = Inl ValueError"
    by (simp add: categorical_fit_def cs loop Let_def del: categorical_fit_loop.simps)
next
  assume "m \<noteq> ''mode''"
  then show "categorical_fill_value m xs = Inr (Str ''MISSING'')"
    by (simp add: categorical_fill_value_def)
qed

theorem C3_unknown_configuration_witness:
  "(numeric_init (example_config\<lparr>numeric_cfg := \<lparr>num_handle_missing = ''mean'', scaling = ''bogus''\<rparr>\<rparr>)
      :: error + minmax numeric_preprocessor) = Inl ValueError
   \<and> (\<exists>P :: minmax numeric_preprocessor.
         numeric_init example_config = Inr P \<and> np_config P = example_config)
   \<and> numeric_fit example_library unknown_numeric example_table = Inl ValueError
   \<and> numeric_transform example_library unknown_numeric example_table = Inl ValueError
   \<and> categorical_fit example_library (categorical_init unknown_config) city_table = Inl ValueError
   \<and> categorical_fill_value ''bogus'' [Str ''A'', NaN] = Inr (Str ''MISSING'')"
proof -
  let ?cfg = "example_config\<lparr>numeric_cfg := \<lparr>num_handle_missing = ''mean'', scaling = ''bogus''\<rparr>\<rparr>"
  have h1: "scaling (numeric_cfg ?cfg) \<notin> {''standard'', ''minmax'', ''robust''}"
    by simp
  have h2: "num_handle_missing (numeric_cfg (np_config unknown_numeric)) \<notin> {''mean'', ''median'', ''mode''}
      \<and> get_columns_by_type (np_config unknown_numeric) ''numeric'' \<noteq> []"
    by (simp add: unknown_numeric_def example_config_def get_columns_by_type_def)
  have h3: "encoding (categorical_cfg (cp_config (categorical_init unknown_config))) \<notin> {''label'', ''onehot''}
      \<and> get_columns_by_type (cp_config (categorical_init unknown_config)) ''categorical'' \<noteq> []"
    by (simp add: unknown_config_def categorical_init_def get_columns_by_type_def)
  have h4: "validate_input (cp_config (categorical_init unknown_config)) city_table \<and>
      categorical_handle_missing_values (categorical_cfg (cp_config (categorical_init unknown_config)))
        city_table (get_columns_by_type (cp_config (categorical_init unknown_config)) ''categorical'')
      = Inr \<lparr>row_index = [0, 1], columns = [(''city'', [Str ''A'', Str ''MISSING''])]\<rparr>"
    by (simp add: unknown_config_def city_table_def categorical_init_def validate_input_def
        has_column_def get_columns_by_type_def categorical_handle_missing_values_def getitem_def
        categorical_fill_value_def replace_column_def fillna_def)
  have h5: "''bogus'' \<noteq> ''mode''" by simp
  have h6: "scaling (numeric_cfg example_config) \<in> {''standard'', ''minmax'', ''robust''}"
    by (simp add: example_config_def)
  from C3_unknown_configuration
         [of ?cfg unknown_numeric example_library example_table "categorical_init unknown_config"
             "''bogus''" "[Str ''A'', NaN]"]
       C3_unknown_configuration
         [of ?cfg unknown_numeric example_library city_table "categorical_init unknown_config"
             "''bogus''" "[Str ''A'', NaN]"]
       C3_unknown_configuration
         [of example_config unknown_numeric example_library city_table
             "categorical_init unknown_config" "''bogus''" "[Str ''A'', NaN]"]
       h1 h2 h3 h4 h5 h6
  show ?thesis by blast
qed

section \<open>Text processing of one cell (C7)\<close>

text \<open>The list comprehension over the stemmer and \<open>join\<close> of the source are the
  steps \<open>stem\<close> and \<open>rejoin with single spaces\<close> of the specification.\<close>

lemma stem_all_find:
  "stem_all L ts =
     (case find isl (map (stem L) ts) of
        Some r \<Rightarrow> Inl (projl r)
      | None \<Rightarrow> Inr (map (\<lambda>t. projr (stem L t)) ts))"
  by (induction ts) (auto split: sum.splits option.splits)

lemma join_space_rejoin: "join '' '' ts = spec_rejoin ts"
proof (cases ts)
  case Nil
  then show ?thesis by (simp add: spec_rejoin_def)
next
  case (Cons t us)
  have "join '' '' (t # us) = t @ concat (map (\<lambda>u. CHR '' '' # u) us)" for t
    by (induction us arbitrary: t) simp_all
  with Cons show ?thesis by (simp add: spec_rejoin_def)
qed

lemma preprocess_text_try_Str:
  "preprocess_text_try L tcfg (Str s) = spec_text_steps L tcfg s"
  by (simp add: preprocess_text_try_def spec_text_steps_def and_then_def Let_def
      spec_lowercase_def spec_strip_punctuation_def spec_remove_stopwords_def spec_stem_def
      stem_all_find join_space_rejoin
      split: sum.splits)

lemma spec_text_steps_eval:
  "spec_text_steps text_library all_steps_config ''The Cats, of a Hat!'' = Inr ''cat hat''"
  "spec_text_steps text_library all_steps_config ''a dog'' = Inr ''dog''"
  by code_simp+

text \<open>
  C7.  \<open>preprocess_text\<close> has no error result: it returns a string for every cell.
  For a cell that is not a string (a missing value or a number) the result is the empty
  string.  For a string the result is what the steps of the specification give, applied
  in their fixed order (lowercase, strip punctuation, tokenize, remove stop words, stem,
  rejoin with single spaces); when a library call among them raises, the result is the
  empty string.  The column-wise application therefore maps every cell to a string cell
  and never fails on a cell.
\<close>

theorem C7_preprocess_text:
  "preprocess_text L tcfg NaN = []
   \<and> preprocess_text L tcfg (Num r) = []
   \<and> preprocess_text L tcfg (Str s)
       = (case spec_text_steps L tcfg s of Inl e \<Rightarrow> [] | Inr t \<Rightarrow> t)
   \<and> map (\<lambda>x. Str (preprocess_text L tcfg x)) xs
       = map (\<lambda>x. case x of
                     Str s \<Rightarrow> (case spec_text_steps L tcfg s of Inl e \<Rightarrow> Str [] | Inr t \<Rightarrow> Str t)
                   | _ \<Rightarrow> Str []) xs"
proof -
  have a: "preprocess_text L tcfg NaN = []" and b: "preprocess_text L tcfg (Num q) = []" for q
    by (simp_all add: preprocess_text_def preprocess_text_try_def)
  have c: "preprocess_text L tcfg (Str u)
       = (case spec_text_steps L tcfg u of Inl e \<Rightarrow> [] | Inr t \<Rightarrow> t)" for u
    by (simp add: preprocess_text_def preprocess_text_try_Str)
  have "Str (preprocess_text L tcfg x) = (case x of
                     Str s \<Rightarrow> (case spec_text_steps L tcfg s of Inl e \<Rightarrow> Str [] | Inr t \<Rightarrow> Str t)
                   | _ \<Rightarrow> Str [])" for x
    by (cases x) (simp_all add: a b c split: sum.splits)
  then show ?thesis using a b c by simp
qed

theorem C7_witness:
  "preprocess_text text_library all_steps_config (Str ''The Cats, of a Hat!'') = ''cat hat''
   \<and> map (\<lambda>x. Str (preprocess_text text_library all_steps_config x))
         [Str ''The Cats, of a Hat!'', NaN, Num 3, Str ''a dog'']
       = [Str ''cat hat'', Str [], Str [], Str ''dog'']"
  using C7_preprocess_text [of text_library all_steps_config 3 "''The Cats, of a Hat!''"
      "[Str ''The Cats, of a Hat!'', NaN, Num 3, Str ''a dog'']"]
  by (simp add: spec_text_steps_eval)

section \<open>Facts about frames\<close>

lemma filter_fst_distinct:
  "distinct (map fst cs) \<Longrightarrow>
   filter (\<lambda>p. fst p = c) cs = (case map_of cs c of None \<Rightarrow> [] | Some v \<Rightarrow> [(c, v)])"
proof (induction cs)
  case Nil
  then show ?case by simp
next
  case (Cons p cs)
  show ?case
  proof (cases "fst p = c")
    case True
    with Cons.prems have "c \<notin> fst ` set cs" by auto
    then have "filter (\<lambda>p. fst p = c) cs = []"
      by (auto simp: filter_empty_conv)
    with True show ?thesis by (cases p) auto
  next
    case False
    with Cons show ?thesis by (cases p) auto
  qed
qed

lemma getitem_distinct:
  "distinct (map fst (columns df)) \<Longrightarrow>
   getitem df c = (case map_of (columns df) c of None \<Rightarrow> Inl KeyError | Some xs \<Rightarrow> Inr xs)"
  by (simp add: getitem_def filter_fst_distinct split: option.splits)

lemma getitem_map_of:
  "distinct (map fst (columns df)) \<Longrightarrow> map_of (columns df) c = Some xs \<Longrightarrow> getitem df c = Inr xs"
  by (simp only: getitem_distinct option.case)

lemma getitem_has_column: "getitem df c = Inr xs \<Longrightarrow> has_column df c"
  using getitem_cases [of df c] by auto

lemma getitem_Inr_mem:
  "getitem df c = Inr xs \<Longrightarrow> (c, xs) \<in> set (columns df)"
proof -
  assume a: "getitem df c = Inr xs"
  then obtain p where p: "filter (\<lambda>p. fst p = c) (columns df) = [p]" "snd p = xs"
    by (auto simp: getitem_def split: list.splits)
  then have "p \<in> set (filter (\<lambda>p. fst p = c) (columns df))" by simp
  then have "p \<in> set (columns df)" "fst p = c" by auto
  with p show ?thesis by (cases p) auto
qed

lemma row_index_replace_column [simp]:
  "row_index (replace_column df c xs) = row_index df"
  by (simp add: replace_column_def)

lemma names_replace_column [simp]:
  "map fst (columns (replace_column df c xs)) = map fst (columns df)"
  by (simp add: replace_column_def comp_def if_distrib [of fst] cong: if_cong)

lemma map_of_replace_column:
  "map_of (columns (replace_column df c xs)) c' =
     (if c' = c \<and> c \<in> fst ` set (columns df) then Some xs else map_of (columns df) c')"
proof -
  have "map_of (map (\<lambda>p. if fst p = c then (c, xs) else p) cs) c' =
     (if c' = c \<and> c \<in> fst ` set cs then Some xs else map_of cs c')" for cs
    by (induction cs) (force simp: image_iff)+
  then show ?thesis by (simp add: replace_column_def)
qed

lemma has_column_replace_column [simp]:
  "has_column (replace_column df c xs) c' = has_column df c'"
  by (simp add: has_column_def)


lemma columns_concat_drop:
  "columns (concat_axis1 [drop_column df col, e]) =
     filter (\<lambda>c. fst c \<noteq> col) (columns df) @ columns e"
  "row_index (concat_axis1 [drop_column df col, e]) = row_index df"
  by (simp_all add: concat_axis1_def drop_column_def)

lemma rows_ok_length:
  "rows_ok df \<Longrightarrow> (c, xs) \<in> set (columns df) \<Longrightarrow> length xs = length (row_index df)"
  by (auto simp: rows_ok_def list_all_iff)

lemma rows_ok_replace_column:
  "rows_ok df \<Longrightarrow> length xs = length (row_index df) \<Longrightarrow> rows_ok (replace_column df c xs)"
  by (auto simp: rows_ok_def list_all_iff replace_column_def)

lemma length_fillna [simp]: "length (fillna xs v) = length xs"
  by (simp add: fillna_def)

lemma setitem_Inr:
  "setitem df c xs = Inr df' \<Longrightarrow> has_column df c \<Longrightarrow>
     df' = replace_column df c xs \<and> length xs = length (row_index df)"
  by (auto simp: setitem_def split: if_splits)

lemma distinct_get_columns_by_type:
  "wf_config cfg \<Longrightarrow> distinct (get_columns_by_type cfg t)"
  by (simp add: wf_config_def get_columns_by_type_def distinct_map_filter)

lemma validate_input_map_of:
  assumes "validate_input cfg data" "col \<in> set (get_columns_by_type cfg t)"
  shows "\<exists>xs. map_of (columns data) col = Some xs"
proof -
  from assms have "has_column data col" by (rule validate_input_has_column)
  then have "col \<in> fst ` set (columns data)" by (simp add: has_column_def)
  then show ?thesis
    by (metis map_of_eq_None_iff not_Some_eq)
qed

section \<open>Facts about the missing-value loops\<close>

lemma numeric_handle_missing_loop_fill:
  "numeric_handle_missing_loop m df cols = fill_loop (numeric_fill_value m) df cols"
  by (induction cols arbitrary: df) (simp_all split: sum.splits)

lemma categorical_handle_missing_loop_fill:
  "categorical_handle_missing_loop m df cols = fill_loop (categorical_fill_value m) df cols"
  by (induction cols arbitrary: df) (simp_all split: sum.splits)

lemma fill_loop_frame:
  "fill_loop f df cols = Inr df' \<Longrightarrow>
     row_index df' = row_index df \<and> map fst (columns df') = map fst (columns df)"
  by (induction cols arbitrary: df) (auto split: sum.splits)

lemma fill_loop_rows_ok:
  "fill_loop f df cols = Inr df' \<Longrightarrow> rows_ok df \<Longrightarrow> rows_ok df'"
proof (induction cols arbitrary: df)
  case Nil
  then show ?case by simp
next
  case (Cons col cols)
  from Cons.prems obtain xs v where
    g: "getitem df col = Inr xs" and "f xs = Inr v"
    and r: "fill_loop f (replace_column df col (fillna xs v)) cols = Inr df'"
    by (auto split: sum.splits)
  from g Cons.prems(2) have "length xs = length (row_index df)"
    by (auto dest: getitem_Inr_mem rows_ok_length)
  with Cons.prems(2) have "rows_ok (replace_column df col (fillna xs v))"
    by (simp add: rows_ok_replace_column)
  with Cons.IH r show ?case by blast
qed


section \<open>Facts about the numeric preprocessor\<close>

lemma numeric_transform_loop_frame:
  "numeric_transform_loop L scalers df cols = Inr df' \<Longrightarrow>
     row_index df' = row_index df \<and> map fst (columns df') = map fst (columns df)"
proof (induction cols arbitrary: df)
  case Nil
  then show ?case by simp
next
  case (Cons col cols)
  show ?case
  proof (cases "scalers col")
    case None
    with Cons show ?thesis by simp
  next
    case (Some s)
    with Cons.prems obtain xs ys df1 where
      g: "getitem df col = Inr xs" and "scaler_transform L s xs = Inr ys"
      and st: "setitem df col ys = Inr df1"
      and r: "numeric_transform_loop L scalers df1 cols = Inr df'"
      by (auto split: sum.splits)
    from st g have "df1 = replace_column df col ys"
      by (auto dest: getitem_has_column setitem_Inr)
    with Cons.IH [OF r] show ?thesis by simp
  qed
qed

lemma numeric_transform_loop_rows_ok:
  "numeric_transform_loop L scalers df cols = Inr df' \<Longrightarrow> rows_ok df \<Longrightarrow> rows_ok df'"
proof (induction cols arbitrary: df)
  case Nil
  then show ?case by simp
next
  case (Cons col cols)
  show ?case
  proof (cases "scalers col")
    case None
    with Cons show ?thesis by simp
  next
    case (Some s)
    with Cons.prems obtain xs ys df1 where
      g: "getitem df col = Inr xs" and "scaler_transform L s xs = Inr ys"
      and st: "setitem df col ys = Inr df1"
      and r: "numeric_transform_loop L scalers df1 cols = Inr df'"
      by (auto split: sum.splits)
    from st g have "df1 = replace_column df col ys" "length ys = length (row_index df)"
      by (auto dest: getitem_has_column setitem_Inr)
    with Cons.prems(2) have "rows_ok df1" by (simp add: rows_ok_replace_column)
    with Cons.IH [OF r] show ?thesis by simp
  qed
qed



lemma numeric_transform_Inr:
  assumes "numeric_transform L P T = Inr out"
  shows "validate_input (np_config P) T"
    "\<exists>df. fill_loop (numeric_fill_value (num_handle_missing (numeric_cfg (np_config P)))) T
            (get_columns_by_type (np_config P) ''numeric'') = Inr df
        \<and> numeric_transform_loop L (np_scalers P) df
            (get_columns_by_type (np_config P) ''numeric'') = Inr out"
  using assms
  by (auto simp: numeric_transform_def numeric_handle_missing_values_def Let_def
      numeric_handle_missing_loop_fill split: sum.splits if_splits)


lemma numeric_fit_loop_scalers:
  "numeric_fit_loop L cls data cols s = Inr s' \<Longrightarrow>
     (\<forall>c \<in> set cols. \<exists>p. s' c = Some p) \<and> (\<forall>c. c \<notin> set cols \<longrightarrow> s' c = s c)"
proof (induction cols arbitrary: s)
  case Nil
  then show ?case by simp
next
  case (Cons col cols)
  from Cons.prems obtain xs p where
    r: "numeric_fit_loop L cls data cols (s(col \<mapsto> p)) = Inr s'"
    by (auto split: sum.splits)
  from Cons.IH [OF r] show ?case
    by (metis fun_upd_apply set_ConsD list.set_intros(1,2))
qed

lemma numeric_fit_loop_cong:
  "(\<forall>c. c \<notin> set cols \<longrightarrow> s c = s0 c) \<Longrightarrow>
     numeric_fit_loop L cls data cols s = numeric_fit_loop L cls data cols s0"
proof (induction cols arbitrary: s s0)
  case Nil
  then have "s = s0" by auto
  then show ?case by simp
next
  case (Cons col cols)
  have "numeric_fit_loop L cls data cols (s(col \<mapsto> p))
      = numeric_fit_loop L cls data cols (s0(col \<mapsto> p))" for p
    using Cons.prems by (intro Cons.IH) auto
  then show ?case by (simp split: sum.splits)
qed

lemma numeric_fit_Inr:
  assumes "numeric_fit L P F = Inr P'"
  shows "np_config P' = np_config P" "np_scaler_class P' = np_scaler_class P"
    "\<forall>c \<in> set (get_columns_by_type (np_config P) ''numeric''). \<exists>p. np_scalers P' c = Some p"
    "\<forall>c. c \<notin> set (get_columns_by_type (np_config P) ''numeric'') \<longrightarrow>
         np_scalers P' c = np_scalers P c"
    "\<exists>s. P' = P\<lparr>np_scalers := s\<rparr>"
proof -
  from assms obtain df s where
    l: "numeric_fit_loop L (np_scaler_class P) df (get_columns_by_type (np_config P) ''numeric'')
          (np_scalers P) = Inr s"
    and P': "P' = P\<lparr>np_scalers := s\<rparr>"
    by (auto simp: numeric_fit_def Let_def split: if_splits sum.splits)
  from P' show "np_config P' = np_config P" "np_scaler_class P' = np_scaler_class P"
    "\<exists>s. P' = P\<lparr>np_scalers := s\<rparr>" by auto
  from numeric_fit_loop_scalers [OF l] P'
  show "\<forall>c \<in> set (get_columns_by_type (np_config P) ''numeric''). \<exists>p. np_scalers P' c = Some p"
    "\<forall>c. c \<notin> set (get_columns_by_type (np_config P) ''numeric'') \<longrightarrow>
         np_scalers P' c = np_scalers P c"
    by auto
qed

lemma numeric_refit:
  assumes "numeric_fit L P F1 = Inr P1"
  shows "numeric_fit L P1 F2 = numeric_fit L P F2"
proof -
  from numeric_fit_Inr [OF assms] obtain s1 where
    P1: "P1 = P\<lparr>np_scalers := s1\<rparr>"
    and ag: "\<forall>c. c \<notin> set (get_columns_by_type (np_config P) ''numeric'') \<longrightarrow> s1 c = np_scalers P c"
    by auto
  have "numeric_fit_loop L cls df (get_columns_by_type (np_config P) ''numeric'') s1
      = numeric_fit_loop L cls df (get_columns_by_type (np_config P) ''numeric'') (np_scalers P)"
    for cls df
    using ag by (rule numeric_fit_loop_cong)
  then show ?thesis
    by (simp add: numeric_fit_def P1 Let_def split: sum.splits)
qed

section \<open>Facts about the categorical preprocessor\<close>



lemma categorical_transform_Inr:
  assumes "categorical_transform C T = Inr out"
  shows "validate_input (cp_config C) T"
    "\<exists>df. fill_loop (categorical_fill_value (cat_handle_missing (categorical_cfg (cp_config C)))) T
            (get_columns_by_type (cp_config C) ''categorical'') = Inr df
        \<and> categorical_transform_loop (cp_encoders C) (cp_encoding_maps C) df
            (get_columns_by_type (cp_config C) ''categorical'') = Inr out"
  using assms
  by (auto simp: categorical_transform_def categorical_handle_missing_values_def Let_def
      categorical_handle_missing_loop_fill split: sum.splits if_splits)


lemma categorical_fit_loop_config:
  "categorical_fit_loop L data cols self = Inr self' \<Longrightarrow> cp_config self' = cp_config self"
  by (induction cols arbitrary: self)
     (auto split: sum.splits encoder.splits)

lemma categorical_fit_loop_cong:
  "cp_config self = cp_config self0 \<Longrightarrow>
   (\<forall>c. c \<notin> set cols \<longrightarrow> cp_encoders self c = cp_encoders self0 c) \<Longrightarrow>
   (\<forall>c. c \<notin> set cols \<longrightarrow> cp_encoding_maps self c = cp_encoding_maps self0 c) \<Longrightarrow>
     categorical_fit_loop L data cols self = categorical_fit_loop L data cols self0"
proof (induction cols arbitrary: self self0)
  case Nil
  then have "cp_encoders self = cp_encoders self0" "cp_encoding_maps self = cp_encoding_maps self0"
    by auto
  with Nil.prems(1) have "self = self0" by simp
  then show ?case by simp
next
  case (Cons col cols)
  have "categorical_fit_loop L data cols
          (self\<lparr>cp_encoders := (cp_encoders self)(col \<mapsto> e),
                cp_encoding_maps := (cp_encoding_maps self)(col \<mapsto> m)\<rparr>)
      = categorical_fit_loop L data cols
          (self0\<lparr>cp_encoders := (cp_encoders self0)(col \<mapsto> e),
                 cp_encoding_maps := (cp_encoding_maps self0)(col \<mapsto> m)\<rparr>)" for e m
    using Cons.prems by (intro Cons.IH) auto
  then show ?case
    using Cons.prems(1) by (simp split: sum.splits encoder.splits)
qed

lemma categorical_fit_loop_state:
  "categorical_fit_loop L data cols self = Inr self' \<Longrightarrow>
     (\<forall>c. c \<notin> set cols \<longrightarrow> cp_encoders self' c = cp_encoders self c
                           \<and> cp_encoding_maps self' c = cp_encoding_maps self c)"
proof (induction cols arbitrary: self)
  case Nil
  then show ?case by simp
next
  case (Cons col cols)
  from Cons.prems obtain e m where
    r: "categorical_fit_loop L data cols
          (self\<lparr>cp_encoders := (cp_encoders self)(col \<mapsto> e),
                cp_encoding_maps := (cp_encoding_maps self)(col \<mapsto> m)\<rparr>) = Inr self'"
    by (auto split: sum.splits encoder.splits)
  from Cons.IH [OF r] show ?case by auto
qed

lemma categorical_refit:
  assumes "categorical_fit L C F1 = Inr C1"
  shows "categorical_fit L C1 F2 = categorical_fit L C F2"
proof -
  let ?cols = "get_columns_by_type (cp_config C) ''categorical''"
  from assms obtain df where
    l: "categorical_fit_loop L df ?cols C = Inr C1"
    by (auto simp: categorical_fit_def Let_def split: if_splits sum.splits)
  have cfg: "cp_config C1 = cp_config C" using l by (rule categorical_fit_loop_config)
  have "categorical_fit_loop L df' ?cols C1 = categorical_fit_loop L df' ?cols C" for df'
    using cfg categorical_fit_loop_state [OF l] by (intro categorical_fit_loop_cong) auto
  then show ?thesis
    by (simp add: categorical_fit_def cfg Let_def split: sum.splits)
qed

lemma text_refit:
  assumes "text_fit P F1 = Inr P1"
  shows "text_fit P1 F2 = text_fit P F2"
  using assms by (auto simp: text_fit_def split: if_splits)

section \<open>Evaluations at the example data\<close>

lemmas age_defs = age_config_def age_fit_table_def age_table_def age_preprocessor_def
  age_fitted_def

lemmas city_defs = city_label_config_def city_onehot_config_def city_fit_table_def
  city_unseen_table_def city_label_fitted_def city_onehot_fitted_def

lemma age_eval:
  "numeric_fit example_library age_preprocessor age_fit_table = Inr age_fitted"
  "numeric_transform example_library age_fitted age_table
     = Inr \<lparr>row_index = [0, 1], columns = [(''age'', [Num 9, Num 9])]\<rparr>"
  by (simp_all add: age_defs example_defs numeric_fit_def numeric_transform_def
      validate_input_def has_column_def get_columns_by_type_def
      numeric_handle_missing_values_def getitem_def numeric_fill_value_def mean_def
      replace_column_def fillna_def minmax_fit_def minmax_transform_def setitem_def)

text \<open>The scaler of the instance at a column without numbers and at a column without
  rows.\<close>

lemma minmax_edge_cases:
  "minmax_fit MinMaxScaler [NaN, NaN] = Inr MinMaxNaN"
  "minmax_fit MinMaxScaler [] = Inl ValueError"
  "minmax_transform MinMaxNaN [Num 1, NaN] = Inr [NaN, NaN]"
  "minmax_transform (MinMax 10 20) [] = Inl ValueError"
  "minmax_transform (MinMax 10 20) [Num 15, NaN] = Inr [Num (1 / 2), NaN]"
  by (simp_all add: minmax_fit_def minmax_transform_def)


lemma mode_BA: "mode_first [Str ''B'', Str ''A''] = Inr (Str ''A'')"
  by (simp add: mode_first_def dropna_def mode_better_def less_cell_def less_eq_char_def)

lemma mode_CA: "mode_first [Str ''C'', Str ''A''] = Inr (Str ''A'')"
  by (simp add: mode_first_def dropna_def mode_better_def less_cell_def less_eq_char_def)


lemma city_label_fit:
  "categorical_fit example_library (categorical_init city_label_config) city_fit_table
     = Inr city_label_fitted"
  by (simp add: city_defs categorical_init_def categorical_fit_def validate_input_def
      has_column_def get_columns_by_type_def categorical_handle_missing_values_def getitem_def
      categorical_fill_value_def mode_BA replace_column_def fillna_def setup_encoder_def
      label_fit_def sorted_unique_def less_eq_char_def)

lemma city_onehot_fit:
  "categorical_fit example_library (categorical_init city_onehot_config) city_fit_table
     = Inr city_onehot_fitted"
  by (simp add: city_defs categorical_init_def categorical_fit_def validate_input_def
      has_column_def get_columns_by_type_def categorical_handle_missing_values_def getitem_def
      categorical_fill_value_def mode_BA replace_column_def fillna_def setup_encoder_def
      onehot_fit_def sorted_unique_def less_eq_char_def get_feature_names_out_def str_cell_def)

lemma city_label_unseen:
  "categorical_transform city_label_fitted city_unseen_table = Inl ValueError"
  by (simp add: city_defs categorical_transform_def validate_input_def
      has_column_def get_columns_by_type_def categorical_handle_missing_values_def getitem_def
      categorical_fill_value_def mode_CA replace_column_def fillna_def)

lemma city_onehot_unseen:
  "categorical_transform city_onehot_fitted city_unseen_table
     = Inr \<lparr>row_index = [0, 1],
            columns = [(''city_A'', [Num 0, Num 1]), (''city_B'', [Num 0, Num 0])]\<rparr>"
  by (simp add: city_defs categorical_transform_def validate_input_def
      has_column_def get_columns_by_type_def categorical_handle_missing_values_def getitem_def
      categorical_fill_value_def mode_CA replace_column_def fillna_def onehot_transform_def
      data_frame_def concat_axis1_def drop_column_def upt_rec)


section \<open>The fill statistic of the numeric transform (C1)\<close>




section \<open>Fitting again (C9)\<close>

lemma age_refit_eval:
  "numeric_fit example_library age_preprocessor age_table
     = Inr \<lparr>np_config = age_config, np_scaler_class = MinMaxScaler,
            np_scalers = [''age'' \<mapsto> MinMax 100 100]\<rparr>"
  by (simp add: age_defs example_defs numeric_fit_def
      validate_input_def has_column_def get_columns_by_type_def
      numeric_handle_missing_values_def getitem_def numeric_fill_value_def mean_def
      replace_column_def fillna_def minmax_fit_def)

lemma city_refit_eval:
  "categorical_fit example_library (categorical_init city_label_config) city_unseen_table
     = Inr \<lparr>cp_config = city_label_config,
            cp_encoders = [''city'' \<mapsto> LabelEncoder [Str ''A'', Str ''C'']],
            cp_encoding_maps = [''city'' \<mapsto> LabelMap [(Str ''A'', 0), (Str ''C'', 1)]]\<rparr>"
  by (simp add: city_defs categorical_init_def categorical_fit_def validate_input_def
      has_column_def get_columns_by_type_def categorical_handle_missing_values_def getitem_def
      categorical_fill_value_def mode_CA replace_column_def fillna_def setup_encoder_def
      label_fit_def sorted_unique_def less_eq_char_def)

text \<open>
  C9.  For every preprocessor state, a fresh instance included: after a successful
  \<open>fit\<close> on \<open>F1\<close>, a \<open>fit\<close> on \<open>F2\<close> gives the result that \<open>fit\<close> on \<open>F2\<close> gives
  without the first fit, the same preprocessor with the same scalers, encoders and
  encoding maps, or the same exception.  Nothing of the first fit is carried over.
\<close>

theorem C9_refit_replaces_state:
  "(numeric_fit L P F1 = Inr P1 \<longrightarrow> numeric_fit L P1 F2 = numeric_fit L P F2)
   \<and> (categorical_fit L C F1 = Inr C1 \<longrightarrow> categorical_fit L C1 F2 = categorical_fit L C F2)
   \<and> (text_fit X F1 = Inr X1 \<longrightarrow> text_fit X1 F2 = text_fit X F2)"
  using numeric_refit [of L P F1 P1 F2] categorical_refit [of L C F1 C1 F2]
    text_refit [of X F1 X1 F2]
  by blast

theorem C9_witness:
  "numeric_fit example_library age_fitted age_table
     = Inr \<lparr>np_config = age_config, np_scaler_class = MinMaxScaler,
            np_scalers = [''age'' \<mapsto> MinMax 100 100]\<rparr>
   \<and> categorical_fit example_library city_label_fitted city_unseen_table
     = Inr \<lparr>cp_config = city_label_config,
            cp_encoders = [''city'' \<mapsto> LabelEncoder [Str ''A'', Str ''C'']],
            cp_encoding_maps = [''city'' \<mapsto> LabelMap [(Str ''A'', 0), (Str ''C'', 1)]]\<rparr>
   \<and> text_fit (text_init city_label_config) city_unseen_table
     = Inr (text_init city_label_config)"
proof -
  have t: "text_fit (text_init city_label_config) city_fit_table
      = Inr (text_init city_label_config)"
    by (simp add: text_fit_def text_init_def city_defs validate_input_def has_column_def)
  from C9_refit_replaces_state
         [where L = example_library and P = age_preprocessor and ?F1.0 = age_fit_table
            and ?P1.0 = age_fitted and ?F2.0 = age_table]
       C9_refit_replaces_state
         [where L = example_library and C = "categorical_init city_label_config"
            and ?F1.0 = city_fit_table and ?C1.0 = city_label_fitted
            and ?F2.0 = city_unseen_table and X = "text_init city_label_config"
            and ?X1.0 = "text_init city_label_config"]
       age_eval(1) city_label_fit t age_refit_eval city_refit_eval
  show ?thesis
    by (simp add: text_fit_def text_init_def city_defs validate_input_def has_column_def)
qed

section \<open>Transform without fitted state (C10)\<close>



section \<open>Rows are preserved (C5)\<close>

lemma setitem_rows:
  assumes "setitem df col ys = Inr df1"
  shows "row_index df1 = row_index df" "rows_ok df \<Longrightarrow> rows_ok df1"
proof -
  from assms have l: "length ys = length (row_index df)"
    and d: "df1 = replace_column df col ys \<or> df1 = df\<lparr>columns := columns df @ [(col, ys)]\<rparr>"
    by (auto simp: setitem_def split: if_splits)
  from d show "row_index df1 = row_index df" by auto
  assume "rows_ok df"
  with d l show "rows_ok df1"
    by (auto simp: rows_ok_replace_column) (simp add: rows_ok_def)
qed

lemma text_transform_loop_rows:
  "text_transform_loop L tcfg df cols = Inr df' \<Longrightarrow>
     row_index df' = row_index df \<and> (rows_ok df \<longrightarrow> rows_ok df')"
proof (induction cols arbitrary: df)
  case Nil
  then show ?case by simp
next
  case (Cons col cols)
  from Cons.prems obtain xs df1 where
    st: "setitem df col (map (\<lambda>x. Str (preprocess_text L tcfg x)) xs) = Inr df1"
    and r: "text_transform_loop L tcfg df1 cols = Inr df'"
    by (auto split: sum.splits)
  from Cons.IH [OF r] setitem_rows [OF st] show ?case by simp
qed

lemma data_frame_rows:
  assumes "data_frame rows names idx = Inr e"
  shows "row_index e = idx" "rows_ok e"
  using assms
  by (auto simp: data_frame_def rows_ok_def list_all_iff split: if_splits)

lemma concat_drop_rows:
  assumes "row_index e = row_index df" "rows_ok e" "rows_ok df"
  shows "rows_ok (concat_axis1 [drop_column df col, e])"
  using assms
  by (auto simp: rows_ok_def list_all_iff concat_axis1_def drop_column_def)

lemma categorical_transform_loop_rows:
  "categorical_transform_loop encoders encoding_maps df cols = Inr df' \<Longrightarrow>
     row_index df' = row_index df \<and> (rows_ok df \<longrightarrow> rows_ok df')"
proof (induction cols arbitrary: df)
  case Nil
  then show ?case by simp
next
  case (Cons col cols)
  show ?case
  proof (cases "encoders col")
    case None
    with Cons show ?thesis by simp
  next
    case (Some enc)
    show ?thesis
    proof (cases enc)
      case (LabelEncoder classes)
      with Some Cons.prems obtain codes df1 where
        st: "setitem df col (map (\<lambda>n. Num (of_nat n)) codes) = Inr df1"
        and r: "categorical_transform_loop encoders encoding_maps df1 cols = Inr df'"
        by (auto split: sum.splits)
      from Cons.IH [OF r] setitem_rows [OF st] show ?thesis by simp
    next
      case (OneHotEncoder categories)
      with Some Cons.prems obtain rows names e where
        e: "data_frame rows names (row_index df) = Inr e"
        and r: "categorical_transform_loop encoders encoding_maps
              (concat_axis1 [drop_column df col, e]) cols = Inr df'"
        by (auto split: sum.splits option.splits encoding_map.splits)
      from Cons.IH [OF r] data_frame_rows [OF e] show ?thesis
        by (simp add: columns_concat_drop concat_drop_rows)
    qed
  qed
qed

lemma select_columns_mem:
  "select_columns data cols = Inr cs \<Longrightarrow> set cs \<subseteq> set (columns data)"
proof (induction cols arbitrary: cs)
  case Nil
  then show ?case by simp
next
  case (Cons col cols)
  then show ?case
    by (auto split: sum.splits dest: getitem_Inr_mem)
qed

lemma getitems_rows:
  assumes "getitems data cols = Inr sub"
  shows "row_index sub = row_index data" "rows_ok data \<Longrightarrow> rows_ok sub"
proof -
  from assms obtain cs where
    cs: "select_columns data cols = Inr cs" and sub: "sub = \<lparr>row_index = row_index data, columns = cs\<rparr>"
    by (auto simp: getitems_def split: sum.splits)
  from sub show "row_index sub = row_index data" by simp
  assume "rows_ok data"
  with select_columns_mem [OF cs] sub show "rows_ok sub"
    by (auto simp: rows_ok_def list_all_iff)
qed

lemma text_transform_rows:
  "text_transform L X T = Inr out \<Longrightarrow> row_index out = row_index T \<and> (rows_ok T \<longrightarrow> rows_ok out)"
  by (auto simp: text_transform_def Let_def split: if_splits dest: text_transform_loop_rows)

lemma numeric_transform_rows:
  assumes "numeric_transform L P T = Inr out"
  shows "row_index out = row_index T \<and> (rows_ok T \<longrightarrow> rows_ok out)"
proof -
  from numeric_transform_Inr(2) [OF assms] obtain df where
    hm: "fill_loop (numeric_fill_value (num_handle_missing (numeric_cfg (np_config P)))) T
            (get_columns_by_type (np_config P) ''numeric'') = Inr df"
    and tr: "numeric_transform_loop L (np_scalers P) df
            (get_columns_by_type (np_config P) ''numeric'') = Inr out"
    by blast
  from fill_loop_frame [OF hm] numeric_transform_loop_frame [OF tr]
    fill_loop_rows_ok [OF hm] numeric_transform_loop_rows_ok [OF tr]
  show ?thesis by auto
qed

lemma categorical_transform_rows:
  assumes "categorical_transform C T = Inr out"
  shows "row_index out = row_index T \<and> (rows_ok T \<longrightarrow> rows_ok out)"
proof -
  from categorical_transform_Inr(2) [OF assms] obtain df where
    hm: "fill_loop (categorical_fill_value (cat_handle_missing (categorical_cfg (cp_config C)))) T
            (get_columns_by_type (cp_config C) ''categorical'') = Inr df"
    and tr: "categorical_transform_loop (cp_encoders C) (cp_encoding_maps C) df
            (get_columns_by_type (cp_config C) ''categorical'') = Inr out"
    by blast
  from fill_loop_frame [OF hm] categorical_transform_loop_rows [OF tr]
    fill_loop_rows_ok [OF hm]
  show ?thesis by auto
qed

lemma preprocessor_transform_rows:
  "preprocessor_transform L p T = Inr out \<Longrightarrow>
     row_index out = row_index T \<and> (rows_ok T \<longrightarrow> rows_ok out)"
  by (cases p)
     (auto dest: text_transform_rows numeric_transform_rows categorical_transform_rows)

lemma factory_transform_loop_rows:
  "factory_transform_loop L cfg df ps = Inr outs \<Longrightarrow> rows_ok df \<Longrightarrow>
     (\<forall>out \<in> set outs. row_index out = row_index df \<and> rows_ok out)"
proof (induction ps arbitrary: outs)
  case Nil
  then show ?case by simp
next
  case (Cons a ps)
  obtain t p where a: "a = (t, p)" by (cases a)
  from Cons.prems(1) a obtain processed rest where
    h: "(if get_columns_by_type cfg t \<noteq> []
         then (case getitems df (get_columns_by_type cfg t) of
                 Inl e \<Rightarrow> Inl e
               | Inr sub \<Rightarrow>
                   (case preprocessor_transform L p sub of
                      Inl e \<Rightarrow> Inl e
                    | Inr processed_df \<Rightarrow> Inr [processed_df]))
         else Inr []) = Inr processed"
    and r: "factory_transform_loop L cfg df ps = Inr rest"
    and outs: "outs = processed @ rest"
    by (auto simp: Let_def split: sum.splits)
  have "\<forall>out \<in> set processed. row_index out = row_index df \<and> rows_ok out"
  proof (cases "get_columns_by_type cfg t = []")
    case True
    with h show ?thesis by simp
  next
    case False
    with h obtain sub out where
      g: "getitems df (get_columns_by_type cfg t) = Inr sub"
      and t: "preprocessor_transform L p sub = Inr out" and p: "processed = [out]"
      by (auto split: sum.splits)
    from getitems_rows [OF g] preprocessor_transform_rows [OF t] Cons.prems(2) p
    show ?thesis by simp
  qed
  with Cons.IH [OF r Cons.prems(2)] outs show ?case by auto
qed

lemma concat_axis1_rows:
  assumes "outs \<noteq> []" "\<forall>out \<in> set outs. row_index out = idx \<and> rows_ok out"
  shows "row_index (concat_axis1 outs) = idx" "rows_ok (concat_axis1 outs)"
proof -
  from assms(1) obtain o1 os where o: "outs = o1 # os" by (cases outs) auto
  with assms(2) show "row_index (concat_axis1 outs) = idx"
    by (simp add: concat_axis1_def)
  from o assms(2) show "rows_ok (concat_axis1 outs)"
    by (fastforce simp: concat_axis1_def rows_ok_def list_all_iff)
qed

lemma factory_transform_rows:
  assumes "factory_transform L E T = Inr out" "rows_ok T"
  shows "row_index out = row_index T \<and> rows_ok out"
proof -
  from assms(1) obtain outs where
    l: "factory_transform_loop L (pf_config E) T (pf_preprocessors E) = Inr outs"
    and o: "out = (if outs \<noteq> [] then concat_axis1 outs else T)"
    by (auto simp: factory_transform_def split: sum.splits if_splits)
  show ?thesis
  proof (cases "outs = []")
    case True
    with o assms(2) show ?thesis by simp
  next
    case False
    from concat_axis1_rows [OF False factory_transform_loop_rows [OF l assms(2)]] o False
    show ?thesis by simp
  qed
qed

lemma text_transform_loop_frame:
  "text_transform_loop L tcfg df cols = Inr df' \<Longrightarrow>
     map fst (columns df') = map fst (columns df)"
proof (induction cols arbitrary: df)
  case Nil
  then show ?case by simp
next
  case (Cons col cols)
  from Cons.prems obtain xs df1 where
    g: "getitem df col = Inr xs"
    and st: "setitem df col (map (\<lambda>x. Str (preprocess_text L tcfg x)) xs) = Inr df1"
    and r: "text_transform_loop L tcfg df1 cols = Inr df'"
    by (auto split: sum.splits)
  from st g have "df1 = replace_column df col (map (\<lambda>x. Str (preprocess_text L tcfg x)) xs)"
    by (auto dest: getitem_has_column setitem_Inr)
  with Cons.IH [OF r] show ?case by simp
qed

lemma text_transform_loop_columns:
  assumes "text_transform_loop L tcfg df cols = Inr df'"
    "distinct (map fst (columns df))" "distinct cols" "map_of (columns df) c = Some xs"
  shows "map_of (columns df') c =
           Some (if c \<in> set cols then map (\<lambda>x. Str (preprocess_text L tcfg x)) xs else xs)"
  using assms
proof (induction cols arbitrary: df xs)
  case Nil
  then show ?case by simp
next
  case (Cons col cols)
  have dc: "distinct cols" "col \<notin> set cols" using Cons.prems(3) by auto
  from Cons.prems(1) obtain zs df1 where
    g: "getitem df col = Inr zs"
    and st: "setitem df col (map (\<lambda>x. Str (preprocess_text L tcfg x)) zs) = Inr df1"
    and r: "text_transform_loop L tcfg df1 cols = Inr df'"
    by (auto split: sum.splits)
  let ?ys = "map (\<lambda>x. Str (preprocess_text L tcfg x)) zs"
  from st g have df1: "df1 = replace_column df col ?ys"
    by (auto dest: getitem_has_column setitem_Inr)
  have d1: "distinct (map fst (columns df1))" using Cons.prems(2) df1 by simp
  have mz: "map_of (columns df) col = Some zs"
    using g Cons.prems(2) by (simp add: getitem_distinct split: option.splits)
  then have mem: "col \<in> fst ` set (columns df)"
    by (metis map_of_eq_None_iff option.distinct(1))
  show ?case
  proof (cases "c = col")
    case True
    with mz Cons.prems(4) have "zs = xs" by simp
    from True mem df1 have "map_of (columns df1) c = Some ?ys"
      by (simp add: map_of_replace_column)
    from Cons.IH [OF r d1 dc(1) this] True dc(2) \<open>zs = xs\<close>
    show ?thesis by simp
  next
    case False
    with Cons.prems(4) df1 have "map_of (columns df1) c = Some xs"
      by (simp add: map_of_replace_column)
    from Cons.IH [OF r d1 dc(1) this] False
    show ?thesis by simp
  qed
qed

lemma text_transform_column:
  assumes "wf_table T" "wf_config (tp_config X)" "text_transform L X T = Inr out"
    and "c \<in> set (get_columns_by_type (tp_config X) ''text'')"
  shows "\<exists>xs. getitem T c = Inr xs
          \<and> getitem out c = Inr (map (\<lambda>x. Str (preprocess_text L (text_cfg (tp_config X)) x)) xs)"
proof -
  let ?cols = "get_columns_by_type (tp_config X) ''text''"
  from assms(3) have v: "validate_input (tp_config X) T"
    and tr: "text_transform_loop L (text_cfg (tp_config X)) T ?cols = Inr out"
    by (auto simp: text_transform_def Let_def split: if_splits)
  have dT: "distinct (map fst (columns T))" using assms(1) by (simp add: wf_table_def)
  have dc: "distinct ?cols" using assms(2) by (rule distinct_get_columns_by_type)
  from validate_input_map_of [OF v assms(4)] obtain xs where
    mx: "map_of (columns T) c = Some xs" by blast
  have dout: "distinct (map fst (columns out))"
    using text_transform_loop_frame [OF tr] dT by simp
  from text_transform_loop_columns [OF tr dT dc mx] assms(4)
  have "map_of (columns out) c
      = Some (map (\<lambda>x. Str (preprocess_text L (text_cfg (tp_config X)) x)) xs)"
    by simp
  with getitem_map_of [OF dT mx] getitem_map_of [OF dout] show ?thesis by blast
qed

lemma review_eval:
  "text_transform example_library (text_init review_config) review_table
     = Inr \<lparr>row_index = [0, 1, 2],
            columns = [(''review'', [Str ''cat hat'', Str [], Str ''dog''])]\<rparr>"
  by (simp add: review_config_def review_table_def text_init_def text_transform_def
      validate_input_def has_column_def get_columns_by_type_def getitem_def setitem_def
      replace_column_def preprocess_text_def preprocess_text_try_def example_defs
      punctuation_def)

lemma age_factory_eval:
  "factory_transform example_library
     \<lparr>pf_config = age_config, pf_preprocessors = [(''numeric'', NumericPreprocessor age_fitted)]\<rparr>
     age_table
   = Inr \<lparr>row_index = [0, 1], columns = [(''age'', [Num 9, Num 9])]\<rparr>"
  by (simp add: factory_transform_def getitems_def concat_axis1_def
      age_defs example_defs numeric_transform_def
      validate_input_def has_column_def get_columns_by_type_def
      numeric_handle_missing_values_def getitem_def numeric_fill_value_def mean_def
      replace_column_def fillna_def minmax_transform_def setitem_def)

text \<open>
  A table is well-formed when every column has one value per row (\<open>rows_ok\<close>).
  Whenever \<open>transform\<close> of the text, numeric or categorical preprocessor, or of the
  factory, returns a table for such an input, the output has the row index of the input,
  label by label in the same order, and every output column has one value per row.  A
  \<open>transform\<close> that returns has passed \<open>validate_input\<close>.  For the text preprocessor
  the correspondence is spelled out cell by cell: row \<open>i\<close> of an output text column is
  the processed row \<open>i\<close> of the input column, a missing value becoming the empty
  string.
\<close>

lemma transform_preserves_rows:
  assumes "rows_ok T"
  shows "(text_transform L X T = Inr out \<longrightarrow> row_index out = row_index T \<and> rows_ok out)
       \<and> (numeric_transform L P T = Inr out \<longrightarrow> row_index out = row_index T \<and> rows_ok out)
       \<and> (categorical_transform C T = Inr out \<longrightarrow> row_index out = row_index T \<and> rows_ok out)
       \<and> (factory_transform L E T = Inr out \<longrightarrow> row_index out = row_index T \<and> rows_ok out)
       \<and> (wf_table T \<and> wf_config (tp_config X) \<and> text_transform L X T = Inr out
            \<and> c \<in> set (get_columns_by_type (tp_config X) ''text'') \<longrightarrow>
          (\<exists>xs. getitem T c = Inr xs
             \<and> getitem out c
                 = Inr (map (\<lambda>x. Str (preprocess_text L (text_cfg (tp_config X)) x)) xs)))"
  using assms text_transform_rows [of L X T out] numeric_transform_rows [of L P T out]
    categorical_transform_rows [of C T out] factory_transform_rows [of L E T out]
    text_transform_column [of T X L out c]
  by blast

section \<open>The columns of the factory's output (C6)\<close>

lemma factory_transform_loop_outputs:
  "factory_transform_loop L cfg df ps = Inr outs \<Longrightarrow>
     map Inr outs = map (per_type_output L cfg df)
                      (filter (\<lambda>tp. get_columns_by_type cfg (fst tp) \<noteq> []) ps)"
proof (induction ps arbitrary: outs)
  case Nil
  then show ?case by simp
next
  case (Cons a ps)
  obtain t p where a: "a = (t, p)" by (cases a)
  from Cons.prems a obtain processed rest where
    h: "(if get_columns_by_type cfg t \<noteq> []
         then (case getitems df (get_columns_by_type cfg t) of
                 Inl e \<Rightarrow> Inl e
               | Inr sub \<Rightarrow>
                   (case preprocessor_transform L p sub of
                      Inl e \<Rightarrow> Inl e
                    | Inr processed_df \<Rightarrow> Inr [processed_df]))
         else Inr []) = Inr processed"
    and r: "factory_transform_loop L cfg df ps = Inr rest"
    and outs: "outs = processed @ rest"
    by (auto simp: Let_def split: sum.splits)
  show ?case
  proof (cases "get_columns_by_type cfg t = []")
    case True
    with h have "processed = []" by simp
    with Cons.IH [OF r] outs a True show ?thesis by simp
  next
    case False
    with h obtain sub out where
      g: "getitems df (get_columns_by_type cfg t) = Inr sub"
      and t: "preprocessor_transform L p sub = Inr out" and p: "processed = [out]"
      by (auto split: sum.splits)
    then have "per_type_output L cfg df (t, p) = Inr out"
      by (simp add: per_type_output_def)
    with Cons.IH [OF r] outs a False p show ?thesis by simp
  qed
qed

lemma get_columns_by_type_empty:
  "get_columns_by_type cfg t = [] \<longleftrightarrow> t \<notin> cs_type ` set (input_columns cfg)"
  by (auto simp: get_columns_by_type_def filter_empty_conv)

lemma initialize_preprocessors_types:
  assumes "initialize_preprocessors cfg = Inr ps"
  shows "map fst ps = filter (\<lambda>t. t \<in> cs_type ` set (input_columns cfg))
                        [''text'', ''numeric'', ''categorical'']"
  using assms
  by (auto simp: initialize_preprocessors_def Let_def split: if_splits sum.splits)

lemma factory_init_types:
  assumes "factory_init cfg = Inr E"
  shows "pf_config E = cfg"
    "map fst (pf_preprocessors E) = filter (\<lambda>t. t \<in> cs_type ` set (input_columns cfg))
                        [''text'', ''numeric'', ''categorical'']"
  using assms initialize_preprocessors_types [of cfg]
  by (auto simp: factory_init_def split: sum.splits)

lemma age_factory_eval2:
  "factory_transform example_library age_factory age_table
     = Inr \<lparr>row_index = [0, 1], columns = [(''age'', [Num 9, Num 9])]\<rparr>"
  using age_factory_eval by (simp add: age_factory_def)

lemma date_factory_eval:
  "(factory_init date_config :: error + minmax preprocessor_factory)
     = Inr \<lparr>pf_config = date_config, pf_preprocessors = []\<rparr>"
  "get_columns_by_type date_config ''text'' = []"
  "get_columns_by_type date_config ''numeric'' = []"
  "get_columns_by_type date_config ''categorical'' = []"
  by (simp_all add: date_config_def factory_init_def initialize_preprocessors_def
      get_columns_by_type_def)

text \<open>
  At a configuration that declares only the column \<open>day\<close> of type \<open>date\<close>, no
  preprocessor is instantiated, and \<open>transform\<close> returns the input table, as the
  specification says of a configuration without transforms.
\<close>

lemma date_factory_returns_input:
  "(factory_init date_config :: error + minmax preprocessor_factory)
     = Inr \<lparr>pf_config = date_config, pf_preprocessors = []\<rparr>
   \<and> get_columns_by_type date_config ''date'' = [''day'']
   \<and> ''date'' \<notin> {''text'', ''numeric'', ''categorical''}
   \<and> factory_transform example_library \<lparr>pf_config = date_config, pf_preprocessors = []\<rparr>
        date_table = Inr date_table
   \<and> has_column date_table ''day''"
  by (simp add: date_config_def date_table_def factory_init_def initialize_preprocessors_def
      get_columns_by_type_def factory_transform_def has_column_def)

text \<open>
  Whenever the factory's \<open>transform\<close> returns a table: each preprocessor registered
  for a type with declared columns has returned an output for its slice, and when there
  is at least one such output the columns of the result are the columns of these
  outputs, concatenated in the order of the preprocessors; when there is none the result
  is the input table.  A factory built from a configuration holds one preprocessor for
  each of the types text, numeric and categorical that the configuration declares, in
  this order, and none for any other type.
\<close>

lemma factory_output_columns:
  "(factory_transform L E T = Inr out \<longrightarrow>
      (\<exists>outs. map Inr outs
                = map (per_type_output L (pf_config E) T)
                    (filter (\<lambda>tp. get_columns_by_type (pf_config E) (fst tp) \<noteq> [])
                       (pf_preprocessors E))
            \<and> (if outs = [] then out = T else columns out = concat (map columns outs))))
   \<and> ((factory_init cfg :: error + 'p preprocessor_factory) = Inr E' \<longrightarrow>
        pf_config E' = cfg
        \<and> map fst (pf_preprocessors E')
            = filter (\<lambda>t. get_columns_by_type cfg t \<noteq> []) [''text'', ''numeric'', ''categorical''])
   \<and> ((factory_init cfg :: error + 'p preprocessor_factory) = Inr E'
        \<and> get_columns_by_type cfg ''text'' = [] \<and> get_columns_by_type cfg ''numeric'' = []
        \<and> get_columns_by_type cfg ''categorical'' = [] \<longrightarrow>
        pf_preprocessors E' = [] \<and> factory_transform L' E' T = Inr T)"
proof (intro conjI impI)
  assume a: "factory_transform L E T = Inr out"
  then obtain outs where
    l: "factory_transform_loop L (pf_config E) T (pf_preprocessors E) = Inr outs"
    and o: "out = (if outs \<noteq> [] then concat_axis1 outs else T)"
    by (auto simp: factory_transform_def split: sum.splits if_splits)
  have "if outs = [] then out = T else columns out = concat (map columns outs)"
    using o by (cases outs) (simp_all add: concat_axis1_def)
  with factory_transform_loop_outputs [OF l]
  show "\<exists>outs. map Inr outs
                = map (per_type_output L (pf_config E) T)
                    (filter (\<lambda>tp. get_columns_by_type (pf_config E) (fst tp) \<noteq> [])
                       (pf_preprocessors E))
            \<and> (if outs = [] then out = T else columns out = concat (map columns outs))"
    by blast
next
  assume a: "(factory_init cfg :: error + 'p preprocessor_factory) = Inr E'"
  from factory_init_types [OF a]
  show "pf_config E' = cfg"
    "map fst (pf_preprocessors E')
            = filter (\<lambda>t. get_columns_by_type cfg t \<noteq> []) [''text'', ''numeric'', ''categorical'']"
    by (simp_all add: get_columns_by_type_empty)
next
  assume a: "(factory_init cfg :: error + 'p preprocessor_factory) = Inr E'
        \<and> get_columns_by_type cfg ''text'' = [] \<and> get_columns_by_type cfg ''numeric'' = []
        \<and> get_columns_by_type cfg ''categorical'' = []"
  with factory_init_types(2) [of cfg E'] have "map fst (pf_preprocessors E') = []"
    by (simp add: get_columns_by_type_empty)
  then show e: "pf_preprocessors E' = []" by simp
  then show "factory_transform L' E' T = Inr T"
    by (simp add: factory_transform_def)
qed

section \<open>The factory on a configuration with more than one type (C5, C6)\<close>

text \<open>
  The factory hands every preprocessor the slice of the table to the columns of the
  preprocessor's type, and every preprocessor is built from the whole configuration, so
  that its \<open>validate_input\<close> asks for all declared columns.  When the configuration
  declares columns of two different types, the slice for the first preprocessor lacks a
  declared column; \<open>fit\<close> and \<open>transform\<close> of that preprocessor raise \<open>ValueError\<close>,
  and so do \<open>fit\<close> and \<open>transform\<close> of the factory.
\<close>

lemma select_columns_names:
  "select_columns data cols = Inr cs \<Longrightarrow> map fst cs = cols"
  by (induction cols arbitrary: cs) (auto split: sum.splits)

lemma getitems_names:
  "getitems data cols = Inr sub \<Longrightarrow> map fst (columns sub) = cols"
  by (auto simp: getitems_def split: sum.splits dest: select_columns_names)

lemma select_columns_Inl_present:
  "select_columns data cols = Inl e \<Longrightarrow> \<forall>c \<in> set cols. has_column data c \<Longrightarrow> e = ValueError"
proof (induction cols)
  case Nil
  then show ?case by simp
next
  case (Cons col cols)
  have g: "getitem data col = Inl e' \<Longrightarrow> e' = ValueError" for e'
    using getitem_present [of data col] Cons.prems(2) by auto
  from Cons show ?case by (auto split: sum.splits dest: g)
qed

lemma getitems_Inl_present:
  "getitems data cols = Inl e \<Longrightarrow> \<forall>c \<in> set cols. has_column data c \<Longrightarrow> e = ValueError"
  by (auto simp: getitems_def split: sum.splits dest: select_columns_Inl_present)

lemma typed_slice_invalid:
  assumes "wf_config cfg"
    and "c1 \<in> set (input_columns cfg)" "c2 \<in> set (input_columns cfg)"
    and "cs_type c2 \<noteq> cs_type c1"
    and "getitems data (get_columns_by_type cfg t) = Inr sub"
  shows "\<not> validate_input cfg sub"
proof -
  obtain c where c: "c \<in> set (input_columns cfg)" "cs_type c \<noteq> t"
    using assms(2,3,4) by (cases "cs_type c1 = t") auto
  have "cs_name c \<notin> set (get_columns_by_type cfg t)"
  proof
    assume "cs_name c \<in> set (get_columns_by_type cfg t)"
    then obtain c' where c': "c' \<in> set (input_columns cfg)" "cs_type c' = t"
      "cs_name c' = cs_name c"
      by (auto simp: get_columns_by_type_def)
    from assms(1) have "inj_on cs_name (set (input_columns cfg))"
      by (simp add: wf_config_def distinct_map)
    with c(1) c'(1,3) have "c' = c" by (auto dest: inj_onD)
    with c(2) c'(2) show False by simp
  qed
  with getitems_names [OF assms(5)] c(1) show ?thesis
    by (auto simp: validate_input_iff)
qed

lemma initialize_preprocessors_config:
  assumes "initialize_preprocessors cfg = Inr ps" "(t, p) \<in> set ps"
  shows "t \<in> cs_type ` set (input_columns cfg)"
    "\<not> validate_input cfg X \<Longrightarrow> preprocessor_transform L p X = Inl ValueError"
    "\<not> validate_input cfg X \<Longrightarrow> preprocessor_fit L p X = Inl ValueError"
  using assms
  by (auto simp: initialize_preprocessors_def Let_def numeric_init_def text_init_def
      categorical_init_def text_transform_def text_fit_def numeric_transform_def numeric_fit_def
      categorical_transform_def categorical_fit_def
      split: if_splits sum.splits)

lemma mixed_engine_raises:
  assumes "wf_config cfg"
    and "factory_init cfg = Inr E"
    and "c1 \<in> set (input_columns cfg)" "c2 \<in> set (input_columns cfg)"
    and "cs_type c1 \<in> {''text'', ''numeric'', ''categorical''}"
    and "cs_type c2 \<noteq> cs_type c1"
  shows "\<exists>e. factory_transform L E T = Inl e \<and> (validate_input cfg T \<longrightarrow> e = ValueError)"
    "\<exists>e. factory_fit L E T = Inl e \<and> (validate_input cfg T \<longrightarrow> e = ValueError)"
proof -
  from assms(2) obtain ps where
    init: "initialize_preprocessors cfg = Inr ps"
    and E: "E = \<lparr>pf_config = cfg, pf_preprocessors = ps\<rparr>"
    by (auto simp: factory_init_def split: sum.splits)
  from assms(3) have "cs_type c1 \<in> cs_type ` set (input_columns cfg)" by (rule imageI)
  with assms(5)
  have "filter (\<lambda>t. t \<in> cs_type ` set (input_columns cfg))
          [''text'', ''numeric'', ''categorical''] \<noteq> []"
    unfolding filter_empty_conv by auto
  with initialize_preprocessors_types [OF init] have "map fst ps \<noteq> []" by simp
  then obtain t p rest where ps: "ps = (t, p) # rest" by (cases ps) auto
  let ?cols = "get_columns_by_type cfg t"
  from initialize_preprocessors_config(1) [OF init, of t p] ps
  have ne: "?cols \<noteq> []" by (simp add: get_columns_by_type_empty)
  have pres: "validate_input cfg T \<Longrightarrow> \<forall>c \<in> set ?cols. has_column T c"
    by (auto dest: validate_input_has_column)
  show "\<exists>e. factory_transform L E T = Inl e \<and> (validate_input cfg T \<longrightarrow> e = ValueError)"
  proof (cases "getitems T ?cols")
    case (Inl e)
    with ne ps E have "factory_transform L E T = Inl e"
      by (simp add: factory_transform_def)
    with getitems_Inl_present [OF Inl] pres show ?thesis by auto
  next
    case (Inr sub)
    from typed_slice_invalid [OF assms(1,3,4,6) Inr]
      initialize_preprocessors_config(2) [OF init, of t p sub L] ps
    have "preprocessor_transform L p sub = Inl ValueError" by simp
    with Inr ne ps E show ?thesis by (simp add: factory_transform_def)
  qed
  show "\<exists>e. factory_fit L E T = Inl e \<and> (validate_input cfg T \<longrightarrow> e = ValueError)"
  proof (cases "getitems T ?cols")
    case (Inl e)
    with ne ps E have "factory_fit L E T = Inl e"
      by (simp add: factory_fit_def)
    with getitems_Inl_present [OF Inl] pres show ?thesis by auto
  next
    case (Inr sub)
    from typed_slice_invalid [OF assms(1,3,4,6) Inr]
      initialize_preprocessors_config(3) [OF init, of t p sub L] ps
    have "preprocessor_fit L p sub = Inl ValueError" by simp
    with Inr ne ps E show ?thesis by (simp add: factory_fit_def)
  qed
qed

lemma scenario_facts:
  "wf_config scenario_config"
  "factory_init scenario_config = Inr scenario_factory"
  "\<lparr>cs_name = ''age'', cs_type = ''numeric''\<rparr> \<in> set (input_columns scenario_config)"
  "\<lparr>cs_name = ''city'', cs_type = ''categorical''\<rparr> \<in> set (input_columns scenario_config)"
  "validate_input scenario_config example_table"
  by (simp_all add: scenario_config_def scenario_factory_def wf_config_def factory_init_def
      initialize_preprocessors_def numeric_init_def setup_scalers_def example_table_def
      validate_input_def has_column_def)

lemma age_day_facts:
  "wf_config age_day_config"
  "factory_init age_day_config = Inr age_day_factory"
  "\<lparr>cs_name = ''age'', cs_type = ''numeric''\<rparr> \<in> set (input_columns age_day_config)"
  "\<lparr>cs_name = ''day'', cs_type = ''date''\<rparr> \<in> set (input_columns age_day_config)"
  "validate_input age_day_config age_day_table"
  "get_columns_by_type age_day_config ''date'' = [''day'']"
  by (simp_all add: age_day_config_def age_day_factory_def wf_config_def factory_init_def
      initialize_preprocessors_def numeric_init_def setup_scalers_def age_day_table_def
      validate_input_def has_column_def get_columns_by_type_def)

lemma age_day_eval:
  "factory_transform example_library age_day_factory age_day_table = Inl ValueError"
  "getitems age_day_table [''age'']
     = Inr \<lparr>row_index = [0, 1], columns = [(''age'', [Num 10, Num 20])]\<rparr>"
  by (simp_all add: factory_transform_def age_day_factory_def age_day_config_def age_day_table_def
      get_columns_by_type_def getitems_def getitem_def numeric_transform_def validate_input_def
      has_column_def)

text \<open>
  C5.  The claim: for every table that passes \<open>validate_input\<close>, \<open>transform\<close> of
  every preprocessor and of the factory returns a table with the rows of the input, in
  their order.  For the factory the code departs from it.  Take a configuration with
  pairwise distinct column names that declares a column of type text, numeric or
  categorical and a column of another type, the factory that the constructor builds for
  it, and a table that holds every declared column, so that it passes \<open>validate_input\<close>.
  Then \<open>transform\<close> of the factory raises \<open>ValueError\<close> and returns no table, and
  \<open>fit\<close> raises \<open>ValueError\<close> as well.  The scenario of the specification (\<open>age\<close>
  numeric, \<open>city\<close> categorical) is such a configuration.
\<close>

theorem C5_engine_rejects_validated_table:
  assumes "wf_config cfg"
    and "factory_init cfg = Inr E"
    and "c1 \<in> set (input_columns cfg)" "c2 \<in> set (input_columns cfg)"
    and "cs_type c1 \<in> {''text'', ''numeric'', ''categorical''}"
    and "cs_type c2 \<noteq> cs_type c1"
    and "validate_input cfg T"
  shows "factory_transform L E T = Inl ValueError \<and> factory_fit L E T = Inl ValueError"
  using mixed_engine_raises [OF assms(1-6), of L T] assms(7) by auto

theorem C5_witness:
  "validate_input scenario_config example_table
   \<and> factory_init scenario_config = Inr scenario_factory
   \<and> (\<forall>L. factory_transform L scenario_factory example_table = Inl ValueError)
   \<and> (\<forall>L. factory_fit L scenario_factory example_table = Inl ValueError)"
proof -
  have "factory_transform L scenario_factory example_table = Inl ValueError
      \<and> factory_fit L scenario_factory example_table = Inl ValueError" for L
    using C5_engine_rejects_validated_table [OF scenario_facts(1-4) _ _ scenario_facts(5), of L]
    by simp
  with scenario_facts(2,5) show ?thesis by simp
qed

text \<open>
  C6.  The claim: the columns of the factory's output are the columns of the outputs of
  the instantiated preprocessors, and a declared column whose type has no preprocessor
  is absent from the output.  The code produces no such output.  For a configuration
  with pairwise distinct column names that declares a column of type text, numeric or
  categorical and a column of another type, with or without a preprocessor of its own,
  \<open>transform\<close> of the factory that the constructor builds returns no table, whatever
  the table and the library, and \<open>fit\<close> returns no fitted factory.  With the columns
  \<open>age\<close> (numeric) and \<open>day\<close> (date) the specification expects the output to hold the
  scaled \<open>age\<close> without \<open>day\<close>; the call raises \<open>ValueError\<close>.
\<close>

theorem C6_mixed_engine_never_returns:
  assumes "wf_config cfg"
    and "factory_init cfg = Inr E"
    and "c1 \<in> set (input_columns cfg)" "c2 \<in> set (input_columns cfg)"
    and "cs_type c1 \<in> {''text'', ''numeric'', ''categorical''}"
    and "cs_type c2 \<noteq> cs_type c1"
  shows "factory_transform L E T \<noteq> Inr out \<and> factory_fit L E T \<noteq> Inr E'"
  using mixed_engine_raises [OF assms, of L T] by auto

theorem C6_witness:
  "factory_init age_day_config = Inr age_day_factory
   \<and> get_columns_by_type age_day_config ''date'' = [''day'']
   \<and> ''date'' \<notin> {''text'', ''numeric'', ''categorical''}
   \<and> (\<forall>L out. factory_transform L age_day_factory age_day_table \<noteq> Inr out)
   \<and> (\<forall>L out. factory_transform L scenario_factory example_table \<noteq> Inr out)"
proof -
  have a: "factory_transform L age_day_factory age_day_table \<noteq> Inr out" for L out
    using C6_mixed_engine_never_returns [OF age_day_facts(1-4), of L age_day_table out]
    by simp
  have b: "factory_transform L scenario_factory example_table \<noteq> Inr out" for L out
    using C6_mixed_engine_never_returns [OF scenario_facts(1-4), of L example_table out]
    by simp
  from a b age_day_facts(2,6) show ?thesis by simp
qed

section \<open>Facts about the encoders\<close>

lemma label_code_Inl:
  "label_code classes x = Inl e \<Longrightarrow> e = ValueError \<and> x \<notin> set classes"
  by (induction classes arbitrary: e) (auto split: if_splits sum.splits)

lemma label_code_unseen:
  "x \<notin> set classes \<Longrightarrow> label_code classes x = Inl ValueError"
  by (induction classes) auto

lemma label_transform_Inl:
  "label_transform classes xs = Inl e \<Longrightarrow> e = ValueError"
  by (induction xs arbitrary: e) (auto split: sum.splits dest: label_code_Inl)

lemma label_transform_unseen:
  "x \<in> set xs \<Longrightarrow> x \<notin> set classes \<Longrightarrow> label_transform classes xs = Inl ValueError"
proof (induction xs)
  case Nil
  then show ?case by simp
next
  case (Cons y ys)
  show ?case
  proof (cases "y \<in> set classes")
    case False
    then show ?thesis by (simp add: label_code_unseen)
  next
    case True
    with Cons have "label_transform classes ys = Inl ValueError" by auto
    then show ?thesis
      by (auto split: sum.splits dest: label_code_Inl)
  qed
qed

lemma getitem_replace_column_other:
  "c \<noteq> col \<Longrightarrow> getitem (replace_column df col ys) c = getitem df c"
proof -
  assume "c \<noteq> col"
  then have "filter (\<lambda>p. fst p = c) (map (\<lambda>p. if fst p = col then (col, ys) else p) cs)
      = filter (\<lambda>p. fst p = c) cs" for cs
    by (induction cs) auto
  then show ?thesis by (simp add: getitem_def replace_column_def)
qed

lemma setitem_Inl: "setitem df col ys = Inl e \<Longrightarrow> e = ValueError"
  by (auto simp: setitem_def split: if_splits)

lemma getitem_Inl_present: "getitem df c = Inl e \<Longrightarrow> has_column df c \<Longrightarrow> e = ValueError"
  using getitem_cases [of df c] by auto

lemma label_loop_error:
  assumes "all_label encoders" "\<forall>c \<in> set cols. has_column df c"
    and "categorical_transform_loop encoders encoding_maps df cols = Inl e"
  shows "e = ValueError"
  using assms(2,3)
proof (induction cols arbitrary: df)
  case Nil
  then show ?case by simp
next
  case (Cons col cols)
  show ?case
  proof (cases "encoders col")
    case None
    with Cons show ?thesis by auto
  next
    case (Some enc)
    with assms(1) obtain classes where enc: "enc = LabelEncoder classes"
      by (auto simp: all_label_def)
    have hc: "has_column df col" using Cons.prems(1) by simp
    show ?thesis
    proof (cases "getitem df col")
      case (Inl e1)
      with Some enc Cons.prems(2) hc show ?thesis
        by (auto dest: getitem_Inl_present)
    next
      case (Inr xs)
      show ?thesis
      proof (cases "label_transform classes xs")
        case (Inl e1)
        with Some enc Inr Cons.prems(2) show ?thesis
          by (auto dest: label_transform_Inl)
      next
        case codes: (Inr codes)
        show ?thesis
        proof (cases "setitem df col (map (\<lambda>n. Num (of_nat n)) codes)")
          case (Inl e1)
          with Some enc Inr codes Cons.prems(2) show ?thesis
            by (auto dest: setitem_Inl)
        next
          case df1: (Inr df1)
          with hc have "df1 = replace_column df col (map (\<lambda>n. Num (of_nat n)) codes)"
            by (auto dest: setitem_Inr)
          with Cons.prems(1) have h1: "\<forall>c \<in> set cols. has_column df1 c" by simp
          from Some enc Inr codes df1 Cons.prems(2)
          have "categorical_transform_loop encoders encoding_maps df1 cols = Inl e" by simp
          from Cons.IH [OF h1 this] show ?thesis .
        qed
      qed
    qed
  qed
qed

lemma label_loop_unseen:
  assumes "all_label encoders" "c \<in> set cols" "distinct cols"
    and "encoders c = Some (LabelEncoder classes)"
    and "getitem df c = Inr xs" "x \<in> set xs" "x \<notin> set classes"
  shows "\<exists>e. categorical_transform_loop encoders encoding_maps df cols = Inl e"
  using assms(2,3,5)
proof (induction cols arbitrary: df)
  case Nil
  then show ?case by simp
next
  case (Cons col cols)
  show ?case
  proof (cases "col = c")
    case True
    with assms(4) Cons.prems(3) label_transform_unseen [OF assms(6,7)]
    show ?thesis by simp
  next
    case False
    with Cons.prems have c: "c \<in> set cols" "distinct cols" by auto
    show ?thesis
    proof (cases "encoders col")
      case None
      with Cons.IH [OF c Cons.prems(3)] show ?thesis by simp
    next
      case (Some enc)
      with assms(1) obtain cls where enc: "enc = LabelEncoder cls"
        by (auto simp: all_label_def)
      show ?thesis
      proof (cases "categorical_transform_loop encoders encoding_maps df (col # cols)")
        case (Inl e)
        then show ?thesis by blast
      next
        case (Inr out)
        with Some enc obtain ys codes df1 where
          g: "getitem df col = Inr ys"
          and st: "setitem df col (map (\<lambda>n. Num (of_nat n)) codes) = Inr df1"
          and r: "categorical_transform_loop encoders encoding_maps df1 cols = Inr out"
          by (auto split: sum.splits)
        from st g have "df1 = replace_column df col (map (\<lambda>n. Num (of_nat n)) codes)"
          by (auto dest: getitem_has_column setitem_Inr)
        with False Cons.prems(3) have "getitem df1 c = Inr xs"
          by (simp add: getitem_replace_column_other)
        from Cons.IH [OF c this] r show ?thesis by simp
      qed
    qed
  qed
qed

lemma categorical_fit_loop_label:
  assumes "categorical_fit_loop L data cols self = Inr self'"
    and "encoding (categorical_cfg (cp_config self)) = ''label''"
  shows "\<forall>c \<in> set cols. \<exists>classes. cp_encoders self' c = Some (LabelEncoder classes)"
  using assms
proof (induction cols arbitrary: self)
  case Nil
  then show ?case by simp
next
  case (Cons col cols)
  from Cons.prems obtain classes m where
    r: "categorical_fit_loop L data cols
          (self\<lparr>cp_encoders := (cp_encoders self)(col \<mapsto> LabelEncoder classes),
                cp_encoding_maps := (cp_encoding_maps self)(col \<mapsto> m)\<rparr>) = Inr self'"
    by (auto simp: setup_encoder_def split: sum.splits)
  let ?s1 = "self\<lparr>cp_encoders := (cp_encoders self)(col \<mapsto> LabelEncoder classes),
                cp_encoding_maps := (cp_encoding_maps self)(col \<mapsto> m)\<rparr>"
  have ih: "\<forall>c \<in> set cols. \<exists>classes. cp_encoders self' c = Some (LabelEncoder classes)"
    using Cons.IH [OF r] Cons.prems(2) by simp
  show ?case
  proof
    fix c assume "c \<in> set (col # cols)"
    show "\<exists>classes. cp_encoders self' c = Some (LabelEncoder classes)"
    proof (cases "c \<in> set cols")
      case True
      with ih show ?thesis by blast
    next
      case False
      with \<open>c \<in> set (col # cols)\<close> have "c = col" by simp
      with False categorical_fit_loop_state [OF r] show ?thesis by simp
    qed
  qed
qed

lemma categorical_fit_loop_onehot:
  assumes "categorical_fit_loop L data cols self = Inr self'"
    and "encoding (categorical_cfg (cp_config self)) = ''onehot''"
  shows "\<forall>c \<in> set cols. \<exists>cats. cp_encoders self' c = Some (OneHotEncoder cats)
           \<and> cp_encoding_maps self' c = Some (FeatureNames (get_feature_names_out L c cats))"
  using assms
proof (induction cols arbitrary: self)
  case Nil
  then show ?case by simp
next
  case (Cons col cols)
  from Cons.prems obtain cats where
    r: "categorical_fit_loop L data cols
          (self\<lparr>cp_encoders := (cp_encoders self)(col \<mapsto> OneHotEncoder cats),
                cp_encoding_maps := (cp_encoding_maps self)
                   (col \<mapsto> FeatureNames (get_feature_names_out L col cats))\<rparr>) = Inr self'"
    by (auto simp: setup_encoder_def split: sum.splits)
  have ih: "\<forall>c \<in> set cols. \<exists>cats. cp_encoders self' c = Some (OneHotEncoder cats)
           \<and> cp_encoding_maps self' c = Some (FeatureNames (get_feature_names_out L c cats))"
    using Cons.IH [OF r] Cons.prems(2) by simp
  show ?case
  proof
    fix c assume "c \<in> set (col # cols)"
    show "\<exists>cats. cp_encoders self' c = Some (OneHotEncoder cats)
           \<and> cp_encoding_maps self' c = Some (FeatureNames (get_feature_names_out L c cats))"
    proof (cases "c \<in> set cols")
      case True
      with ih show ?thesis by blast
    next
      case False
      with \<open>c \<in> set (col # cols)\<close> have "c = col" by simp
      with False categorical_fit_loop_state [OF r] show ?thesis by simp
    qed
  qed
qed

lemma categorical_fit_Inr:
  assumes "categorical_fit L C0 F = Inr C"
  shows "cp_config C = cp_config C0"
    "\<exists>df. categorical_fit_loop L df (get_columns_by_type (cp_config C0) ''categorical'') C0 = Inr C"
  using assms
  by (auto simp: categorical_fit_def Let_def split: if_splits sum.splits
      dest: categorical_fit_loop_config)

lemma categorical_fit_label_state:
  assumes "categorical_fit L (categorical_init cfg) F = Inr C"
    and "encoding (categorical_cfg cfg) = ''label''"
  shows "cp_config C = cfg" "all_label (cp_encoders C)"
    "\<forall>c \<in> set (get_columns_by_type cfg ''categorical'').
        \<exists>classes. cp_encoders C c = Some (LabelEncoder classes)"
proof -
  let ?cols = "get_columns_by_type cfg ''categorical''"
  have c0: "cp_config (categorical_init cfg) = cfg" "cp_encoders (categorical_init cfg) = Map.empty"
    by (simp_all add: categorical_init_def)
  from categorical_fit_Inr [OF assms(1)] c0 obtain df where
    cfg: "cp_config C = cfg"
    and l: "categorical_fit_loop L df ?cols (categorical_init cfg) = Inr C"
    by auto
  show "cp_config C = cfg" by fact
  from categorical_fit_loop_label [OF l] assms(2) c0
  show lab: "\<forall>c \<in> set ?cols. \<exists>classes. cp_encoders C c = Some (LabelEncoder classes)"
    by simp
  from categorical_fit_loop_state [OF l] c0
  have "\<forall>c. c \<notin> set ?cols \<longrightarrow> cp_encoders C c = None" by simp
  with lab show "all_label (cp_encoders C)"
    unfolding all_label_def by (metis option.distinct(1) option.inject)
qed

lemma categorical_fit_onehot_state:
  assumes "categorical_fit L (categorical_init cfg) F = Inr C"
    and "encoding (categorical_cfg cfg) = ''onehot''"
  shows "cp_config C = cfg"
    "\<forall>c \<in> set (get_columns_by_type cfg ''categorical'').
        \<exists>cats. cp_encoders C c = Some (OneHotEncoder cats)
           \<and> cp_encoding_maps C c = Some (FeatureNames (get_feature_names_out L c cats))"
proof -
  let ?cols = "get_columns_by_type cfg ''categorical''"
  have c0: "cp_config (categorical_init cfg) = cfg"
    by (simp_all add: categorical_init_def)
  from categorical_fit_Inr [OF assms(1)] c0 obtain df where
    cfg: "cp_config C = cfg"
    and l: "categorical_fit_loop L df ?cols (categorical_init cfg) = Inr C"
    by auto
  show "cp_config C = cfg" by fact
  from categorical_fit_loop_onehot [OF l] assms(2) c0
  show "\<forall>c \<in> set ?cols. \<exists>cats. cp_encoders C c = Some (OneHotEncoder cats)
           \<and> cp_encoding_maps C c = Some (FeatureNames (get_feature_names_out L c cats))"
    by simp
qed

lemma data_frame_onehot:
  assumes "length xs = length idx" "length names = length cats"
  shows "data_frame (map (\<lambda>x. map (\<lambda>c. if x = c then Num 1 else Num 0) cats) xs) names idx
     = Inr \<lparr>row_index = idx,
            columns = map (\<lambda>j. (names ! j, indicator_column (cats ! j) xs)) [0..<length names]\<rparr>"
proof -
  let ?rows = "map (\<lambda>x. map (\<lambda>c. if x = c then Num 1 else Num 0) cats) xs"
  have a: "\<not> list_ex (\<lambda>row. length row \<noteq> length names) ?rows"
    using assms(2) by (simp add: list_ex_iff)
  have "map (\<lambda>row. row ! j) ?rows = indicator_column (cats ! j) xs" if "j < length names" for j
    using that assms(2) by (simp add: indicator_column_def)
  then have "map (\<lambda>j. (names ! j, map (\<lambda>row. row ! j) ?rows)) [0..<length names]
      = map (\<lambda>j. (names ! j, indicator_column (cats ! j) xs)) [0..<length names]"
    by simp
  with a assms(1) show ?thesis by (simp add: data_frame_def)
qed

lemma getitem_concat_drop_other:
  assumes "c \<noteq> col" "c \<notin> fst ` set (columns e)"
  shows "getitem (concat_axis1 [drop_column df col, e]) c = getitem df c"
proof -
  have "filter (\<lambda>p. fst p = c) (columns e) = []"
    using assms(2) by (auto simp: filter_empty_conv)
  moreover have "filter (\<lambda>p. fst p = c) (filter (\<lambda>p. fst p \<noteq> col) (columns df))
      = filter (\<lambda>p. fst p = c) (columns df)"
    using assms(1) by (auto intro: filter_cong)
  ultimately show ?thesis
    by (simp add: getitem_def columns_concat_drop)
qed

lemma no_name_clashD:
  assumes "no_name_clash m cols" "c \<in> set cols" "c' \<in> set cols"
    "m c' = Some (FeatureNames names)"
  shows "c \<notin> set names"
proof -
  from assms(1) have "\<forall>c \<in> set cols. \<forall>c' \<in> set cols. \<forall>names.
        m c' = Some (FeatureNames names) \<longrightarrow> c \<notin> set names"
    by (simp only: no_name_clash_def)
  with assms(2,3,4) show ?thesis by blast
qed

lemma no_name_clash_tail:
  assumes "no_name_clash m (col # cols)"
  shows "no_name_clash m cols"
proof -
  have "c \<notin> set names"
    if "c \<in> set cols" "c' \<in> set cols" "m c' = Some (FeatureNames names)" for c c' names
    using no_name_clashD [OF assms, of c c' names] that by simp
  then show ?thesis by (simp only: no_name_clash_def) blast
qed

lemma onehot_loop:
  assumes "distinct cols" "rows_ok df" "row_index df \<noteq> []"
    and "\<forall>c \<in> set cols. \<exists>cats names. encoders c = Some (OneHotEncoder cats)
            \<and> encoding_maps c = Some (FeatureNames names) \<and> length names = length cats"
    and "\<forall>c \<in> set cols. \<exists>xs. getitem df c = Inr xs"
    and "no_name_clash encoding_maps cols"
  shows "\<exists>out. categorical_transform_loop encoders encoding_maps df cols = Inr out
     \<and> (\<forall>p \<in> set (columns df). fst p \<notin> set cols \<longrightarrow> p \<in> set (columns out))
     \<and> (\<forall>c \<in> set cols. \<forall>cats names xs.
           encoders c = Some (OneHotEncoder cats) \<and> encoding_maps c = Some (FeatureNames names)
           \<and> getitem df c = Inr xs \<longrightarrow>
           (\<forall>j < length cats.
              (names ! j, indicator_column (cats ! j) xs) \<in> set (columns out)))"
  using assms
proof (induction cols arbitrary: df)
  case Nil
  then show ?case by simp
next
  case (Cons col cols)
  from Cons.prems(4) obtain cats names where
    enc: "encoders col = Some (OneHotEncoder cats)"
    and mp: "encoding_maps col = Some (FeatureNames names)"
    and ln: "length names = length cats"
    by auto
  from Cons.prems(5) obtain xs where g: "getitem df col = Inr xs" by auto
  have lx: "length xs = length (row_index df)"
    using g Cons.prems(2) by (auto dest: getitem_Inr_mem rows_ok_length)
  with Cons.prems(3) have ne: "xs \<noteq> []" by auto
  let ?e = "\<lparr>row_index = row_index df,
             columns = map (\<lambda>j. (names ! j, indicator_column (cats ! j) xs)) [0..<length names]\<rparr>"
  let ?df1 = "concat_axis1 [drop_column df col, ?e]"
  have e: "data_frame (map (\<lambda>x. map (\<lambda>c. if x = c then Num 1 else Num 0) cats) xs) names
             (row_index df) = Inr ?e"
    using lx ln by (rule data_frame_onehot)
  have step: "categorical_transform_loop encoders encoding_maps df (col # cols)
      = categorical_transform_loop encoders encoding_maps ?df1 cols"
    using enc mp g ne e by (simp add: onehot_transform_def)
  have names_e: "fst ` set (columns ?e) \<subseteq> set names"
    by auto
  have clash: "c \<notin> set names" if "c \<in> set cols" for c
    using no_name_clashD [OF Cons.prems(6) _ _ mp, of c] that by simp
  have dc: "distinct cols" "col \<notin> set cols" using Cons.prems(1) by auto
  have g1: "getitem ?df1 c = getitem df c" if "c \<in> set cols" for c
  proof -
    from that dc have "c \<noteq> col" by auto
    moreover from clash [OF that] names_e have "c \<notin> fst ` set (columns ?e)" by blast
    ultimately show ?thesis by (rule getitem_concat_drop_other)
  qed
  have p2: "rows_ok ?df1"
    using data_frame_rows [OF e] Cons.prems(2) by (intro concat_drop_rows) auto
  have p3: "row_index ?df1 \<noteq> []"
    using Cons.prems(3) by (simp add: columns_concat_drop)
  have p4: "\<forall>c \<in> set cols. \<exists>cats names. encoders c = Some (OneHotEncoder cats)
            \<and> encoding_maps c = Some (FeatureNames names) \<and> length names = length cats"
    using Cons.prems(4) by simp
  have p5: "\<forall>c \<in> set cols. \<exists>xs. getitem ?df1 c = Inr xs"
    using Cons.prems(5) g1 by simp
  have p6: "no_name_clash encoding_maps cols"
    using Cons.prems(6) by (rule no_name_clash_tail)
  from Cons.IH [OF dc(1) p2 p3 p4 p5 p6] obtain out where
    r: "categorical_transform_loop encoders encoding_maps ?df1 cols = Inr out"
    and keep: "\<forall>p \<in> set (columns ?df1). fst p \<notin> set cols \<longrightarrow> p \<in> set (columns out)"
    and feat: "\<forall>c \<in> set cols. \<forall>cats names xs.
           encoders c = Some (OneHotEncoder cats) \<and> encoding_maps c = Some (FeatureNames names)
           \<and> getitem ?df1 c = Inr xs \<longrightarrow>
           (\<forall>j < length cats.
              (names ! j, indicator_column (cats ! j) xs) \<in> set (columns out))"
    by blast
  have k: "\<forall>p \<in> set (columns df). fst p \<notin> set (col # cols) \<longrightarrow> p \<in> set (columns out)"
  proof (intro ballI impI)
    fix p assume "p \<in> set (columns df)" "fst p \<notin> set (col # cols)"
    then have "p \<in> set (columns ?df1)" "fst p \<notin> set cols"
      by (simp_all add: columns_concat_drop)
    with keep show "p \<in> set (columns out)" by blast
  qed
  have f: "(names' ! j, indicator_column (cats' ! j) xs') \<in> set (columns out)"
    if c: "c \<in> set (col # cols)" and h: "encoders c = Some (OneHotEncoder cats')"
      "encoding_maps c = Some (FeatureNames names')" "getitem df c = Inr xs'"
      and j: "j < length cats'" for c cats' names' xs' j
  proof (cases "c \<in> set cols")
    case True
    with feat h g1 [OF True] j show ?thesis by simp
  next
    case False
    with c have cc: "c = col" by simp
    with h enc mp g have eq: "cats' = cats" "names' = names" "xs' = xs" by simp_all
    from j eq ln have jn: "j < length names" by simp
    then have m: "(names ! j, indicator_column (cats ! j) xs) \<in> set (columns ?e)"
      by (auto simp: image_iff)
    then have m1: "(names ! j, indicator_column (cats ! j) xs) \<in> set (columns ?df1)"
      by (simp add: columns_concat_drop)
    from jn have "names ! j \<in> set names" by simp
    with clash have "names ! j \<notin> set cols" by blast
    with keep m1 eq show ?thesis by force
  qed
  have "categorical_transform_loop encoders encoding_maps df (col # cols) = Inr out"
    by (rule trans [OF step r])
  with k f show ?case by blast
qed

lemma has_column_getitem:
  assumes "distinct (map fst (columns df))" "has_column df c"
  shows "\<exists>xs. getitem df c = Inr xs"
proof -
  from assms(2) have "c \<in> fst ` set (columns df)" by (simp add: has_column_def)
  then obtain xs where m: "map_of (columns df) c = Some xs"
    by (metis map_of_eq_None_iff not_Some_eq)
  from getitem_map_of [OF assms(1) m] show ?thesis by blast
qed

lemma indicator_unseen:
  assumes "i < length xs" "xs ! i \<notin> set cats" "j < length cats"
  shows "indicator_column (cats ! j) xs ! i = Num 0"
proof -
  from assms(3) have "cats ! j \<in> set cats" by simp
  with assms(2) have "xs ! i \<noteq> cats ! j" by auto
  with assms(1) show ?thesis by (simp add: indicator_column_def)
qed

lemma categorical_transform_unfold:
  assumes "validate_input (cp_config C) T"
    and "categorical_handle_missing_values (categorical_cfg (cp_config C)) T
           (get_columns_by_type (cp_config C) ''categorical'') = Inr df"
  shows "categorical_transform C T
      = categorical_transform_loop (cp_encoders C) (cp_encoding_maps C) df
          (get_columns_by_type (cp_config C) ''categorical'')"
  using assms by (simp add: categorical_transform_def Let_def)

lemma city_unseen_fill:
  "categorical_handle_missing_values (categorical_cfg city_label_config) city_unseen_table
     (get_columns_by_type city_label_config ''categorical'') = Inr city_unseen_table"
  "categorical_handle_missing_values (categorical_cfg city_onehot_config) city_unseen_table
     (get_columns_by_type city_onehot_config ''categorical'') = Inr city_unseen_table"
  by (simp_all add: city_defs get_columns_by_type_def categorical_handle_missing_values_def
      getitem_def categorical_fill_value_def mode_CA replace_column_def fillna_def)

lemma city_unseen_facts:
  "wf_table city_unseen_table"
  "wf_config city_label_config" "wf_config city_onehot_config"
  "validate_input city_label_config city_unseen_table"
  "validate_input city_onehot_config city_unseen_table"
  "''city'' \<in> set (get_columns_by_type city_label_config ''categorical'')"
  "''city'' \<in> set (get_columns_by_type city_onehot_config ''categorical'')"
  "getitem city_unseen_table ''city'' = Inr [Str ''C'', Str ''A'']"
  "row_index city_unseen_table \<noteq> []"
  by (simp_all add: city_defs wf_table_def rows_ok_def wf_config_def validate_input_def
      has_column_def get_columns_by_type_def getitem_def)

lemma city_no_name_clash:
  "no_name_clash (cp_encoding_maps city_onehot_fitted)
     (get_columns_by_type city_onehot_config ''categorical'')"
  by (simp add: no_name_clash_def city_defs get_columns_by_type_def)

section \<open>Categories unseen at fit time (C4)\<close>

text \<open>
  C4.  Let a categorical preprocessor be fitted (from a fresh instance) and let it
  transform a well-formed table that passes validation and whose missing values can be
  filled; let \<open>xs\<close> be a categorical column after filling.  Under label encoding, when
  \<open>xs\<close> holds a value that is not among the classes learned for the column,
  \<open>transform\<close> raises \<open>ValueError\<close>, the error of the label encoder for an unseen
  label.  Under one-hot encoding \<open>transform\<close> returns a table, whatever values \<open>xs\<close>
  holds: for every learned category the output has the generated column, named by the
  column and the category, holding the indicator of the category, so a row whose value
  is not among the learned categories has 0 in every generated column.  For one-hot
  encoding the table has at least one row, as it has when it holds an unseen value, and
  no generated column is named like a categorical column of the configuration.
\<close>

theorem C4_unseen_category:
  assumes "categorical_fit L (categorical_init cfg) F = Inr C"
    and "wf_table T" "wf_config cfg" "validate_input cfg T"
    and "categorical_handle_missing_values (categorical_cfg cfg) T
           (get_columns_by_type cfg ''categorical'') = Inr df"
    and "c \<in> set (get_columns_by_type cfg ''categorical'')"
    and "getitem df c = Inr xs"
  shows "(encoding (categorical_cfg cfg) = ''label'' \<longrightarrow>
            (\<exists>classes. cp_encoders C c = Some (LabelEncoder classes)
               \<and> ((\<exists>x \<in> set xs. x \<notin> set classes) \<longrightarrow>
                    categorical_transform C T = Inl ValueError)))
       \<and> (encoding (categorical_cfg cfg) = ''onehot'' \<and> row_index T \<noteq> []
            \<and> no_name_clash (cp_encoding_maps C) (get_columns_by_type cfg ''categorical'') \<longrightarrow>
            (\<exists>cats out. cp_encoders C c = Some (OneHotEncoder cats)
               \<and> categorical_transform C T = Inr out
               \<and> (\<forall>j < length cats.
                     (get_feature_names_out L c cats ! j, indicator_column (cats ! j) xs)
                       \<in> set (columns out))
               \<and> (\<forall>i < length xs. xs ! i \<notin> set cats \<longrightarrow>
                     (\<forall>j < length cats. indicator_column (cats ! j) xs ! i = Num 0))))"
proof (intro conjI impI)
  let ?cols = "get_columns_by_type cfg ''categorical''"
  have dc: "distinct ?cols" using assms(3) by (rule distinct_get_columns_by_type)
  have hm: "fill_loop (categorical_fill_value (cat_handle_missing (categorical_cfg cfg))) T ?cols
      = Inr df"
    using assms(5)
    by (simp add: categorical_handle_missing_values_def categorical_handle_missing_loop_fill)
  have names: "map fst (columns df) = map fst (columns T)" and idx: "row_index df = row_index T"
    using fill_loop_frame [OF hm] by simp_all
  have hc: "\<forall>c' \<in> set ?cols. has_column df c'"
    using validate_input_has_column [OF assms(4)] names by (simp add: has_column_def)
  {
    assume lab: "encoding (categorical_cfg cfg) = ''label''"
    note st = categorical_fit_label_state [OF assms(1) lab]
    from st(3) assms(6) obtain classes where
      e: "cp_encoders C c = Some (LabelEncoder classes)" by blast
    have tr: "categorical_transform C T
        = categorical_transform_loop (cp_encoders C) (cp_encoding_maps C) df ?cols"
      using categorical_transform_unfold [of C T df] assms(4,5) st(1) by simp
    have "categorical_transform C T = Inl ValueError" if "\<exists>x \<in> set xs. x \<notin> set classes"
    proof -
      from that obtain x where x: "x \<in> set xs" "x \<notin> set classes" by blast
      from label_loop_unseen [OF st(2) assms(6) dc e assms(7) x] obtain err where
        l: "categorical_transform_loop (cp_encoders C) (cp_encoding_maps C) df ?cols = Inl err"
        by blast
      from label_loop_error [OF st(2) hc l] l tr show ?thesis by simp
    qed
    with e show "\<exists>classes. cp_encoders C c = Some (LabelEncoder classes)
               \<and> ((\<exists>x \<in> set xs. x \<notin> set classes) \<longrightarrow>
                    categorical_transform C T = Inl ValueError)"
      by blast
  }
  {
    assume a: "encoding (categorical_cfg cfg) = ''onehot'' \<and> row_index T \<noteq> []
            \<and> no_name_clash (cp_encoding_maps C) ?cols"
    then have oh: "encoding (categorical_cfg cfg) = ''onehot''" by simp
    note st = categorical_fit_onehot_state [OF assms(1) oh]
    from st(2) assms(6) obtain cats where
      e: "cp_encoders C c = Some (OneHotEncoder cats)"
      and m: "cp_encoding_maps C c = Some (FeatureNames (get_feature_names_out L c cats))"
      by blast
    have tr: "categorical_transform C T
        = categorical_transform_loop (cp_encoders C) (cp_encoding_maps C) df ?cols"
      using categorical_transform_unfold [of C T df] assms(4,5) st(1) by simp
    have rT: "rows_ok T" and dT: "distinct (map fst (columns T))"
      using assms(2) by (simp_all add: wf_table_def)
    have p2: "rows_ok df" using hm rT by (rule fill_loop_rows_ok)
    have p3: "row_index df \<noteq> []" using a idx by simp
    have p4: "\<forall>c \<in> set ?cols. \<exists>cats names. cp_encoders C c = Some (OneHotEncoder cats)
            \<and> cp_encoding_maps C c = Some (FeatureNames names) \<and> length names = length cats"
    proof
      fix c' assume "c' \<in> set ?cols"
      with st(2) obtain cats' where
        "cp_encoders C c' = Some (OneHotEncoder cats')"
        "cp_encoding_maps C c' = Some (FeatureNames (get_feature_names_out L c' cats'))"
        by blast
      moreover have "length (get_feature_names_out L c' cats') = length cats'"
        by (simp add: get_feature_names_out_def)
      ultimately show "\<exists>cats names. cp_encoders C c' = Some (OneHotEncoder cats)
            \<and> cp_encoding_maps C c' = Some (FeatureNames names) \<and> length names = length cats"
        by blast
    qed
    have p5: "\<forall>c \<in> set ?cols. \<exists>xs. getitem df c = Inr xs"
      using hc dT names by (auto intro: has_column_getitem)
    have p6: "no_name_clash (cp_encoding_maps C) ?cols" using a by simp
    from onehot_loop [OF dc p2 p3 p4 p5 p6] obtain out where
      r: "categorical_transform_loop (cp_encoders C) (cp_encoding_maps C) df ?cols = Inr out"
      and feat: "\<forall>c \<in> set ?cols. \<forall>cats names xs.
           cp_encoders C c = Some (OneHotEncoder cats)
           \<and> cp_encoding_maps C c = Some (FeatureNames names)
           \<and> getitem df c = Inr xs \<longrightarrow>
           (\<forall>j < length cats.
              (names ! j, indicator_column (cats ! j) xs) \<in> set (columns out))"
      by blast
    from feat assms(6,7) e m
    have f: "\<forall>j < length cats.
        (get_feature_names_out L c cats ! j, indicator_column (cats ! j) xs) \<in> set (columns out)"
      by blast
    have z: "\<forall>i < length xs. xs ! i \<notin> set cats \<longrightarrow>
                     (\<forall>j < length cats. indicator_column (cats ! j) xs ! i = Num 0)"
      by (simp add: indicator_unseen)
    from e r tr f z
    show "\<exists>cats out. cp_encoders C c = Some (OneHotEncoder cats)
               \<and> categorical_transform C T = Inr out
               \<and> (\<forall>j < length cats.
                     (get_feature_names_out L c cats ! j, indicator_column (cats ! j) xs)
                       \<in> set (columns out))
               \<and> (\<forall>i < length xs. xs ! i \<notin> set cats \<longrightarrow>
                     (\<forall>j < length cats. indicator_column (cats ! j) xs ! i = Num 0))"
      by auto
  }
qed

theorem C4_witness:
  "categorical_transform city_label_fitted city_unseen_table = Inl ValueError
   \<and> (\<exists>cats out. cp_encoders city_onehot_fitted ''city'' = Some (OneHotEncoder cats)
         \<and> categorical_transform city_onehot_fitted city_unseen_table = Inr out
         \<and> (\<forall>j < length cats.
               (get_feature_names_out example_library ''city'' cats ! j,
                indicator_column (cats ! j) [Str ''C'', Str ''A'']) \<in> set (columns out))
         \<and> (\<forall>i < length [Str ''C'', Str ''A'']. [Str ''C'', Str ''A''] ! i \<notin> set cats \<longrightarrow>
               (\<forall>j < length cats.
                  indicator_column (cats ! j) [Str ''C'', Str ''A''] ! i = Num 0)))"
proof -
  have enc: "encoding (categorical_cfg city_label_config) = ''label''"
    "encoding (categorical_cfg city_onehot_config) = ''onehot''"
    by (simp_all add: city_defs)
  have cls: "cp_encoders city_label_fitted ''city'' = Some (LabelEncoder [Str ''A'', Str ''B''])"
    by (simp add: city_defs)
  have un: "\<exists>x \<in> set [Str ''C'', Str ''A'']. x \<notin> set [Str ''A'', Str ''B'']"
    by simp
  from C4_unseen_category [OF city_label_fit city_unseen_facts(1,2,4) city_unseen_fill(1)
         city_unseen_facts(6,8)] enc(1) cls un
  have l: "categorical_transform city_label_fitted city_unseen_table = Inl ValueError"
    by auto
  from C4_unseen_category [OF city_onehot_fit city_unseen_facts(1,3,5) city_unseen_fill(2)
         city_unseen_facts(7,8)] enc(2) city_unseen_facts(9) city_no_name_clash
  have "\<exists>cats out. cp_encoders city_onehot_fitted ''city'' = Some (OneHotEncoder cats)
         \<and> categorical_transform city_onehot_fitted city_unseen_table = Inr out
         \<and> (\<forall>j < length cats.
               (get_feature_names_out example_library ''city'' cats ! j,
                indicator_column (cats ! j) [Str ''C'', Str ''A'']) \<in> set (columns out))
         \<and> (\<forall>i < length [Str ''C'', Str ''A'']. [Str ''C'', Str ''A''] ! i \<notin> set cats \<longrightarrow>
               (\<forall>j < length cats.
                  indicator_column (cats ! j) [Str ''C'', Str ''A''] ! i = Num 0))"
    by blast
  with l show ?thesis by blast
qed

section \<open>Frames that exist before a call are kept\<close>

text \<open>Each function leaves the frames below the reference it writes to as they are, and
  never shortens the store.\<close>

lemma alloc_frame:
  assumes "alloc s t = (s1, r)"
  shows "r = length s" "length s1 = Suc (length s)" "s1 ! r = t"
    "n \<le> length s \<Longrightarrow> take n s1 = take n s"
  using assms by (auto simp: alloc_def)

lemma copy_frame_frame:
  assumes "copy_frame s d = (s1, r)"
  shows "r = length s" "length s1 = Suc (length s)" "s1 ! r = s ! d"
    "n \<le> length s \<Longrightarrow> take n s1 = take n s"
  using assms by (auto simp: copy_frame_def alloc_def)

lemma numeric_handle_missing_loop_st_frame:
  "numeric_handle_missing_loop_st m s df cols = (s', r) \<Longrightarrow> n \<le> df \<Longrightarrow>
     take n s' = take n s \<and> length s' = length s"
  by (induction cols arbitrary: s) (auto split: sum.splits)

lemma categorical_handle_missing_loop_st_frame:
  "categorical_handle_missing_loop_st m s df cols = (s', r) \<Longrightarrow> n \<le> df \<Longrightarrow>
     take n s' = take n s \<and> length s' = length s"
  by (induction cols arbitrary: s) (auto split: sum.splits)

lemma numeric_transform_loop_st_frame:
  "numeric_transform_loop_st L scalers s df cols = (s', r) \<Longrightarrow> n \<le> df \<Longrightarrow>
     take n s' = take n s \<and> length s' = length s"
  by (induction cols arbitrary: s) (auto split: sum.splits option.splits)

lemma text_transform_loop_st_frame:
  "text_transform_loop_st L tcfg s df cols = (s', r) \<Longrightarrow> n \<le> df \<Longrightarrow>
     take n s' = take n s \<and> length s' = length s"
  by (induction cols arbitrary: s) (auto split: sum.splits)

lemma numeric_handle_missing_values_st_frame:
  assumes "numeric_handle_missing_values_st ncfg s data cols = (s', r)" "n \<le> length s"
  shows "take n s' = take n s" "length s \<le> length s'" "r = Inr d \<Longrightarrow> length s \<le> d"
proof -
  obtain s1 df where c: "copy_frame s data = (s1, df)" by (cases "copy_frame s data")
  obtain s2 r2 where l: "numeric_handle_missing_loop_st (num_handle_missing ncfg) s1 df cols = (s2, r2)"
    by (cases "numeric_handle_missing_loop_st (num_handle_missing ncfg) s1 df cols")
  from assms(1) c l have s': "s' = s2" and r: "r = (case r2 of Some e \<Rightarrow> Inl e | None \<Rightarrow> Inr df)"
    by (auto simp: numeric_handle_missing_values_st_def split: option.splits)
  from copy_frame_frame [OF c] assms(2) have 1: "df = length s" "length s1 = Suc (length s)"
    "take n s1 = take n s" by auto
  from numeric_handle_missing_loop_st_frame [OF l, of n] 1 assms(2)
  have 2: "take n s2 = take n s1" "length s2 = length s1" by auto
  from 1 2 s' show "take n s' = take n s" "length s \<le> length s'" by auto
  assume "r = Inr d"
  with r 1 show "length s \<le> d" by (auto split: option.splits)
qed

lemma categorical_handle_missing_values_st_frame:
  assumes "categorical_handle_missing_values_st ccfg s data cols = (s', r)" "n \<le> length s"
  shows "take n s' = take n s" "length s \<le> length s'" "r = Inr d \<Longrightarrow> length s \<le> d"
proof -
  obtain s1 df where c: "copy_frame s data = (s1, df)" by (cases "copy_frame s data")
  obtain s2 r2 where l: "categorical_handle_missing_loop_st (cat_handle_missing ccfg) s1 df cols = (s2, r2)"
    by (cases "categorical_handle_missing_loop_st (cat_handle_missing ccfg) s1 df cols")
  from assms(1) c l have s': "s' = s2" and r: "r = (case r2 of Some e \<Rightarrow> Inl e | None \<Rightarrow> Inr df)"
    by (auto simp: categorical_handle_missing_values_st_def split: option.splits)
  from copy_frame_frame [OF c] assms(2) have 1: "df = length s" "length s1 = Suc (length s)"
    "take n s1 = take n s" by auto
  from categorical_handle_missing_loop_st_frame [OF l, of n] 1 assms(2)
  have 2: "take n s2 = take n s1" "length s2 = length s1" by auto
  from 1 2 s' show "take n s' = take n s" "length s \<le> length s'" by auto
  assume "r = Inr d"
  with r 1 show "length s \<le> d" by (auto split: option.splits)
qed

lemma numeric_fit_st_frame:
  assumes "numeric_fit_st L self s data = (s', r)" "n \<le> length s"
  shows "take n s' = take n s \<and> length s \<le> length s'"
proof (cases "validate_input (np_config self) (s ! data)")
  case False
  with assms(1) show ?thesis by (simp add: numeric_fit_st_def)
next
  case True
  let ?cols = "get_columns_by_type (np_config self) ''numeric''"
  obtain s1 r1 where h: "numeric_handle_missing_values_st (numeric_cfg (np_config self)) s data ?cols = (s1, r1)"
    by (cases "numeric_handle_missing_values_st (numeric_cfg (np_config self)) s data ?cols")
  with assms(1) True have "s' = s1"
    by (auto simp: numeric_fit_st_def Let_def split: sum.splits)
  with numeric_handle_missing_values_st_frame(1,2) [OF h assms(2)] show ?thesis by simp
qed

lemma categorical_fit_st_frame:
  assumes "categorical_fit_st L self s data = (s', r)" "n \<le> length s"
  shows "take n s' = take n s \<and> length s \<le> length s'"
proof (cases "validate_input (cp_config self) (s ! data)")
  case False
  with assms(1) show ?thesis by (simp add: categorical_fit_st_def)
next
  case True
  let ?cols = "get_columns_by_type (cp_config self) ''categorical''"
  obtain s1 r1 where h: "categorical_handle_missing_values_st (categorical_cfg (cp_config self)) s data ?cols = (s1, r1)"
    by (cases "categorical_handle_missing_values_st (categorical_cfg (cp_config self)) s data ?cols")
  with assms(1) True have "s' = s1"
    by (auto simp: categorical_fit_st_def Let_def split: sum.splits)
  with categorical_handle_missing_values_st_frame(1,2) [OF h assms(2)] show ?thesis by simp
qed

lemma text_fit_st_frame:
  "text_fit_st self s data = (s', r) \<Longrightarrow> s' = s"
  by (auto simp: text_fit_st_def split: if_splits)

lemma numeric_transform_st_frame:
  assumes "numeric_transform_st L self s data = (s', r)" "n \<le> length s"
  shows "take n s' = take n s \<and> length s \<le> length s'"
proof (cases "validate_input (np_config self) (s ! data)")
  case False
  with assms(1) show ?thesis by (simp add: numeric_transform_st_def)
next
  case True
  let ?cols = "get_columns_by_type (np_config self) ''numeric''"
  obtain s1 df where c: "copy_frame s data = (s1, df)" by (cases "copy_frame s data")
  obtain s2 r2 where h: "numeric_handle_missing_values_st (numeric_cfg (np_config self)) s1 df ?cols = (s2, r2)"
    by (cases "numeric_handle_missing_values_st (numeric_cfg (np_config self)) s1 df ?cols")
  from copy_frame_frame [OF c] assms(2) have 1: "length s1 = Suc (length s)"
    "take n s1 = take n s" by auto
  then have n1: "n \<le> length s1" using assms(2) by simp
  note 2 = numeric_handle_missing_values_st_frame [OF h n1]
  show ?thesis
  proof (cases r2)
    case (Inl e)
    with assms(1) True c h have "s' = s2"
      by (simp add: numeric_transform_st_def Let_def)
    with 1 2 show ?thesis by simp
  next
    case (Inr df')
    obtain s3 r3 where l: "numeric_transform_loop_st L (np_scalers self) s2 df' ?cols = (s3, r3)"
      by (cases "numeric_transform_loop_st L (np_scalers self) s2 df' ?cols")
    with assms(1) True c h Inr have s': "s' = s3"
      by (auto simp: numeric_transform_st_def Let_def split: option.splits)
    from 2(3) [OF Inr] n1 have "n \<le> df'" by simp
    from numeric_transform_loop_st_frame [OF l this] 1 2 s' show ?thesis by simp
  qed
qed

lemma text_transform_st_frame:
  assumes "text_transform_st L self s data = (s', r)" "n \<le> length s"
  shows "take n s' = take n s \<and> length s \<le> length s'"
proof (cases "validate_input (tp_config self) (s ! data)")
  case False
  with assms(1) show ?thesis by (simp add: text_transform_st_def)
next
  case True
  let ?cols = "get_columns_by_type (tp_config self) ''text''"
  obtain s1 df where c: "copy_frame s data = (s1, df)" by (cases "copy_frame s data")
  obtain s2 r2 where l: "text_transform_loop_st L (text_cfg (tp_config self)) s1 df ?cols = (s2, r2)"
    by (cases "text_transform_loop_st L (text_cfg (tp_config self)) s1 df ?cols")
  from copy_frame_frame [OF c] assms(2) have 1: "df = length s" "length s1 = Suc (length s)"
    "take n s1 = take n s" by auto
  from assms(1) True c l have s': "s' = s2"
    by (auto simp: text_transform_st_def Let_def split: option.splits)
  from 1 assms(2) have "n \<le> df" by simp
  from text_transform_loop_st_frame [OF l this] 1 s' show ?thesis by simp
qed

lemma categorical_transform_loop_st_frame:
  "categorical_transform_loop_st encoders encoding_maps s df cols = (s', r) \<Longrightarrow>
     n \<le> df \<Longrightarrow> n \<le> length s \<Longrightarrow>
     take n s' = take n s \<and> length s \<le> length s'"
proof (induction cols arbitrary: s df)
  case Nil
  then show ?case by simp
next
  case (Cons col cols)
  show ?case
  proof (cases "encoders col")
    case None
    with Cons show ?thesis by simp
  next
    case (Some enc)
    show ?thesis
    proof (cases enc)
      case (LabelEncoder classes)
      show ?thesis
      proof (cases "\<exists>t. categorical_transform_loop_st encoders encoding_maps (s[df := t]) df cols
                          = (s', r)")
        case True
        then obtain t where
          "categorical_transform_loop_st encoders encoding_maps (s[df := t]) df cols = (s', r)"
          by blast
        from Cons.IH [OF this Cons.prems(2)] Cons.prems(2,3) show ?thesis by simp
      next
        case False
        with Cons.prems(1) Some LabelEncoder have "s' = s"
          by (auto split: sum.splits)
        then show ?thesis by simp
      qed
    next
      case (OneHotEncoder categories)
      show ?thesis
      proof (cases "\<exists>t1 t2 t3. categorical_transform_loop_st encoders encoding_maps
                        (((s @ [t1]) @ [t2]) @ [t3]) (Suc (Suc (length s))) cols = (s', r)")
        case True
        then obtain t1 t2 t3 where
          l: "categorical_transform_loop_st encoders encoding_maps
                        (((s @ [t1]) @ [t2]) @ [t3]) (Suc (Suc (length s))) cols = (s', r)"
          by blast
        have "n \<le> Suc (Suc (length s))" "n \<le> length (((s @ [t1]) @ [t2]) @ [t3])"
          using Cons.prems(3) by simp_all
        from Cons.IH [OF l this] Cons.prems(3) show ?thesis by simp
      next
        case False
        with Cons.prems(1) Some OneHotEncoder have "s' = s"
          by (auto simp: alloc_def split: sum.splits option.splits encoding_map.splits)
        then show ?thesis by simp
      qed
    qed
  qed
qed

lemma categorical_transform_st_frame:
  assumes "categorical_transform_st self s data = (s', r)" "n \<le> length s"
  shows "take n s' = take n s \<and> length s \<le> length s'"
proof (cases "validate_input (cp_config self) (s ! data)")
  case False
  with assms(1) show ?thesis by (simp add: categorical_transform_st_def)
next
  case True
  let ?cols = "get_columns_by_type (cp_config self) ''categorical''"
  obtain s1 df where c: "copy_frame s data = (s1, df)" by (cases "copy_frame s data")
  obtain s2 r2 where h: "categorical_handle_missing_values_st (categorical_cfg (cp_config self)) s1 df ?cols = (s2, r2)"
    by (cases "categorical_handle_missing_values_st (categorical_cfg (cp_config self)) s1 df ?cols")
  from copy_frame_frame [OF c] assms(2) have 1: "length s1 = Suc (length s)"
    "take n s1 = take n s" by auto
  then have n1: "n \<le> length s1" using assms(2) by simp
  note 2 = categorical_handle_missing_values_st_frame [OF h n1]
  show ?thesis
  proof (cases r2)
    case (Inl e)
    with assms(1) True c h have "s' = s2"
      by (simp add: categorical_transform_st_def Let_def)
    with 1 2 show ?thesis by simp
  next
    case (Inr df')
    with assms(1) True c h
    have l: "categorical_transform_loop_st (cp_encoders self) (cp_encoding_maps self) s2 df' ?cols
        = (s', r)"
      by (simp add: categorical_transform_st_def Let_def)
    from 2(3) [OF Inr] n1 have a: "n \<le> df'" by simp
    from 2(2) n1 have b: "n \<le> length s2" by simp
    from categorical_transform_loop_st_frame [OF l a b] 1 2 show ?thesis by simp
  qed
qed

lemma preprocessor_fit_st_frame:
  assumes "preprocessor_fit_st L p s data = (s', r)" "n \<le> length s"
  shows "take n s' = take n s \<and> length s \<le> length s'"
proof (cases p)
  case (TextPreprocessor x)
  obtain s1 r1 where h: "text_fit_st x s data = (s1, r1)" by (cases "text_fit_st x s data")
  with assms(1) TextPreprocessor have "s' = s1" by (auto split: sum.splits)
  with text_fit_st_frame [OF h] show ?thesis by simp
next
  case (NumericPreprocessor x)
  obtain s1 r1 where h: "numeric_fit_st L x s data = (s1, r1)"
    by (cases "numeric_fit_st L x s data")
  with assms(1) NumericPreprocessor have "s' = s1" by (auto split: sum.splits)
  with numeric_fit_st_frame [OF h assms(2)] show ?thesis by simp
next
  case (CategoricalPreprocessor x)
  obtain s1 r1 where h: "categorical_fit_st L x s data = (s1, r1)"
    by (cases "categorical_fit_st L x s data")
  with assms(1) CategoricalPreprocessor have "s' = s1" by (auto split: sum.splits)
  with categorical_fit_st_frame [OF h assms(2)] show ?thesis by simp
qed

lemma preprocessor_transform_st_frame:
  assumes "preprocessor_transform_st L p s data = (s', r)" "n \<le> length s"
  shows "take n s' = take n s \<and> length s \<le> length s'"
  using assms
  by (cases p)
     (auto dest: text_transform_st_frame numeric_transform_st_frame
        categorical_transform_st_frame)

lemma factory_fit_loop_st_frame:
  "factory_fit_loop_st L cfg s data ps = (s', r) \<Longrightarrow> n \<le> length s \<Longrightarrow>
     take n s' = take n s \<and> length s \<le> length s'"
proof (induction ps arbitrary: s r s')
  case Nil
  then show ?case by simp
next
  case (Cons a ps)
  obtain t p where a: "a = (t, p)" by (cases a)
  let ?cols = "get_columns_by_type cfg t"
  let ?step = "(if ?cols \<noteq> []
            then (case getitems (s ! data) ?cols of
                    Inl e \<Rightarrow> (s, Inl e)
                  | Inr sub \<Rightarrow>
                      (case alloc s sub of
                         (s1, slice) \<Rightarrow> preprocessor_fit_st L p s1 slice))
            else (s, Inr p))"
  obtain s2 r2 where st: "?step = (s2, r2)" by (cases ?step)
  have f2: "take n s2 = take n s \<and> length s \<le> length s2"
  proof (cases "?cols \<noteq> [] \<and> (\<exists>sub. getitems (s ! data) ?cols = Inr sub)")
    case False
    with st have "s2 = s" by (auto split: sum.splits if_splits)
    then show ?thesis by simp
  next
    case True
    then obtain sub where g: "getitems (s ! data) ?cols = Inr sub" by blast
    with st True have "preprocessor_fit_st L p (s @ [sub]) (length s) = (s2, r2)"
      by (simp add: alloc_def)
    from preprocessor_fit_st_frame [OF this, of n] Cons.prems(2) show ?thesis by simp
  qed
  show ?case
  proof (cases r2)
    case (Inl e)
    with Cons.prems(1) a st have "s' = s2" by (simp add: Let_def)
    with f2 show ?thesis by simp
  next
    case (Inr p')
    obtain s3 r3 where l: "factory_fit_loop_st L cfg s2 data ps = (s3, r3)"
      by (cases "factory_fit_loop_st L cfg s2 data ps")
    with Cons.prems(1) a st Inr have s': "s' = s3"
      by (auto simp: Let_def split: sum.splits)
    from f2 Cons.prems(2) have "n \<le> length s2" by simp
    from Cons.IH [OF l this] f2 s' show ?thesis by simp
  qed
qed

lemma factory_transform_loop_st_frame:
  "factory_transform_loop_st L cfg s df ps = (s', r) \<Longrightarrow> n \<le> length s \<Longrightarrow>
     take n s' = take n s \<and> length s \<le> length s'"
proof (induction ps arbitrary: s r s')
  case Nil
  then show ?case by simp
next
  case (Cons a ps)
  obtain t p where a: "a = (t, p)" by (cases a)
  let ?cols = "get_columns_by_type cfg t"
  let ?step = "(if ?cols \<noteq> []
            then (case getitems (s ! df) ?cols of
                    Inl e \<Rightarrow> (s, Inl e)
                  | Inr sub \<Rightarrow>
                      (case alloc s sub of
                         (s1, slice) \<Rightarrow>
                           (case preprocessor_transform_st L p s1 slice of
                              (s2, Inl e) \<Rightarrow> (s2, Inl e)
                            | (s2, Inr processed_df) \<Rightarrow> (s2, Inr [processed_df]))))
            else (s, Inr []))"
  obtain s2 r2 where st: "?step = (s2, r2)" by (cases ?step)
  have f2: "take n s2 = take n s \<and> length s \<le> length s2"
  proof (cases "?cols \<noteq> [] \<and> (\<exists>sub. getitems (s ! df) ?cols = Inr sub)")
    case False
    with st have "s2 = s" by (auto split: sum.splits if_splits)
    then show ?thesis by simp
  next
    case True
    then obtain sub where g: "getitems (s ! df) ?cols = Inr sub" by blast
    obtain s4 r4 where pt: "preprocessor_transform_st L p (s @ [sub]) (length s) = (s4, r4)"
      by (cases "preprocessor_transform_st L p (s @ [sub]) (length s)")
    with st True g have "s2 = s4"
      by (auto simp: alloc_def split: sum.splits)
    with preprocessor_transform_st_frame [OF pt, of n] Cons.prems(2) show ?thesis by simp
  qed
  show ?case
  proof (cases r2)
    case (Inl e)
    with Cons.prems(1) a st have "s' = s2" by (simp add: Let_def)
    with f2 show ?thesis by simp
  next
    case (Inr p')
    obtain s3 r3 where l: "factory_transform_loop_st L cfg s2 df ps = (s3, r3)"
      by (cases "factory_transform_loop_st L cfg s2 df ps")
    with Cons.prems(1) a st Inr have s': "s' = s3"
      by (auto simp: Let_def split: sum.splits)
    from f2 Cons.prems(2) have "n \<le> length s2" by simp
    from Cons.IH [OF l this] f2 s' show ?thesis by simp
  qed
qed

lemma factory_fit_st_frame:
  assumes "factory_fit_st L self s data = (s', r)" "n \<le> length s"
  shows "take n s' = take n s \<and> length s \<le> length s'"
proof -
  obtain s1 r1 where l: "factory_fit_loop_st L (pf_config self) s data (pf_preprocessors self) = (s1, r1)"
    by (cases "factory_fit_loop_st L (pf_config self) s data (pf_preprocessors self)")
  with assms(1) have "s' = s1" by (auto simp: factory_fit_st_def split: sum.splits)
  with factory_fit_loop_st_frame [OF l assms(2)] show ?thesis by simp
qed

lemma factory_transform_st_frame:
  assumes "factory_transform_st L self s data = (s', r)" "n \<le> length s"
  shows "take n s' = take n s \<and> length s \<le> length s'"
proof -
  obtain s1 df where c: "copy_frame s data = (s1, df)" by (cases "copy_frame s data")
  obtain s2 r2 where l: "factory_transform_loop_st L (pf_config self) s1 df (pf_preprocessors self) = (s2, r2)"
    by (cases "factory_transform_loop_st L (pf_config self) s1 df (pf_preprocessors self)")
  from copy_frame_frame [OF c] assms(2) have 1: "length s1 = Suc (length s)"
    "take n s1 = take n s" by auto
  then have n1: "n \<le> length s1" using assms(2) by simp
  note 2 = factory_transform_loop_st_frame [OF l n1]
  from assms(1) c l have "s' = s2 \<or> (\<exists>t. s' = s2 @ [t])"
    by (auto simp: factory_transform_st_def alloc_def split: sum.splits if_splits)
  then show ?thesis
  proof
    assume "s' = s2"
    with 1 2 show ?thesis by simp
  next
    assume "\<exists>t. s' = s2 @ [t]"
    then obtain t where "s' = s2 @ [t]" by blast
    with 1 2 n1 show ?thesis by simp
  qed
qed

section \<open>The store functions compute the functions on tables\<close>

lemma deref_simps [simp]: "deref s (Inl e) = Inl e" "deref s (Inr d) = Inr (s ! d)"
  by (simp_all add: deref_def)

lemma numeric_handle_missing_loop_st_value:
  "numeric_handle_missing_loop_st m s df cols = (s', r) \<Longrightarrow> df < length s \<Longrightarrow>
     numeric_handle_missing_loop m (s ! df) cols
       = (case r of None \<Rightarrow> Inr (s' ! df) | Some e \<Rightarrow> Inl e)"
proof (induction cols arbitrary: s)
  case Nil
  then show ?case by auto
next
  case (Cons col cols)
  show ?case
  proof (cases "getitem (s ! df) col")
    case (Inl e)
    with Cons.prems show ?thesis by auto
  next
    case (Inr xs)
    show ?thesis
    proof (cases "numeric_fill_value m xs")
      case (Inl e)
      with Inr Cons.prems show ?thesis by auto
    next
      case v: (Inr v)
      let ?t = "replace_column (s ! df) col (fillna xs v)"
      from Cons.prems(1) Inr v
      have l: "numeric_handle_missing_loop_st m (s[df := ?t]) df cols = (s', r)" by simp
      from Cons.IH [OF l] Cons.prems(2) Inr v show ?thesis by simp
    qed
  qed
qed

lemma categorical_handle_missing_loop_st_value:
  "categorical_handle_missing_loop_st m s df cols = (s', r) \<Longrightarrow> df < length s \<Longrightarrow>
     categorical_handle_missing_loop m (s ! df) cols
       = (case r of None \<Rightarrow> Inr (s' ! df) | Some e \<Rightarrow> Inl e)"
proof (induction cols arbitrary: s)
  case Nil
  then show ?case by auto
next
  case (Cons col cols)
  show ?case
  proof (cases "getitem (s ! df) col")
    case (Inl e)
    with Cons.prems show ?thesis by auto
  next
    case (Inr xs)
    show ?thesis
    proof (cases "categorical_fill_value m xs")
      case (Inl e)
      with Inr Cons.prems show ?thesis by auto
    next
      case v: (Inr v)
      let ?t = "replace_column (s ! df) col (fillna xs v)"
      from Cons.prems(1) Inr v
      have l: "categorical_handle_missing_loop_st m (s[df := ?t]) df cols = (s', r)" by simp
      from Cons.IH [OF l] Cons.prems(2) Inr v show ?thesis by simp
    qed
  qed
qed

lemma numeric_transform_loop_st_value:
  "numeric_transform_loop_st L scalers s df cols = (s', r) \<Longrightarrow> df < length s \<Longrightarrow>
     numeric_transform_loop L scalers (s ! df) cols
       = (case r of None \<Rightarrow> Inr (s' ! df) | Some e \<Rightarrow> Inl e)"
proof (induction cols arbitrary: s)
  case Nil
  then show ?case by auto
next
  case (Cons col cols)
  show ?case
  proof (cases "scalers col")
    case None
    with Cons show ?thesis by simp
  next
    case (Some sc)
    show ?thesis
    proof (cases "\<exists>xs ys t. getitem (s ! df) col = Inr xs \<and> scaler_transform L sc xs = Inr ys
                     \<and> setitem (s ! df) col ys = Inr t")
      case False
      with Some Cons.prems show ?thesis by (auto split: sum.splits)
    next
      case True
      then obtain xs ys t where
        st: "getitem (s ! df) col = Inr xs" "scaler_transform L sc xs = Inr ys"
          "setitem (s ! df) col ys = Inr t"
        by blast
      with Cons.prems(1) Some
      have l: "numeric_transform_loop_st L scalers (s[df := t]) df cols = (s', r)" by simp
      from Cons.IH [OF l] Cons.prems(2) Some st show ?thesis by simp
    qed
  qed
qed

lemma text_transform_loop_st_value:
  "text_transform_loop_st L tcfg s df cols = (s', r) \<Longrightarrow> df < length s \<Longrightarrow>
     text_transform_loop L tcfg (s ! df) cols
       = (case r of None \<Rightarrow> Inr (s' ! df) | Some e \<Rightarrow> Inl e)"
proof (induction cols arbitrary: s)
  case Nil
  then show ?case by auto
next
  case (Cons col cols)
  show ?case
  proof (cases "\<exists>xs t. getitem (s ! df) col = Inr xs
                   \<and> setitem (s ! df) col (map (\<lambda>x. Str (preprocess_text L tcfg x)) xs) = Inr t")
    case False
    with Cons.prems show ?thesis by (auto split: sum.splits)
  next
    case True
    then obtain xs t where
      st: "getitem (s ! df) col = Inr xs"
        "setitem (s ! df) col (map (\<lambda>x. Str (preprocess_text L tcfg x)) xs) = Inr t"
      by blast
    with Cons.prems(1)
    have l: "text_transform_loop_st L tcfg (s[df := t]) df cols = (s', r)" by simp
    from Cons.IH [OF l] Cons.prems(2) st show ?thesis by simp
  qed
qed

lemma numeric_handle_missing_values_st_value:
  assumes "numeric_handle_missing_values_st ncfg s data cols = (s', r)"
  shows "deref s' r = numeric_handle_missing_values ncfg (s ! data) cols"
    "r = Inr d \<Longrightarrow> d < length s'"
proof -
  obtain s2 r2 where l: "numeric_handle_missing_loop_st (num_handle_missing ncfg)
      (s @ [s ! data]) (length s) cols = (s2, r2)"
    by (cases "numeric_handle_missing_loop_st (num_handle_missing ncfg)
      (s @ [s ! data]) (length s) cols")
  from assms l have s': "s' = s2"
    and r: "r = (case r2 of Some e \<Rightarrow> Inl e | None \<Rightarrow> Inr (length s))"
    by (auto simp: numeric_handle_missing_values_st_def copy_frame_def alloc_def
        split: option.splits)
  from numeric_handle_missing_loop_st_value [OF l] s' r
  show "deref s' r = numeric_handle_missing_values ncfg (s ! data) cols"
    by (auto simp: numeric_handle_missing_values_def split: option.splits)
  assume "r = Inr d"
  with r numeric_handle_missing_loop_st_frame [OF l, of 0] s'
  show "d < length s'" by (auto split: option.splits)
qed

lemma categorical_handle_missing_values_st_value:
  assumes "categorical_handle_missing_values_st ccfg s data cols = (s', r)"
  shows "deref s' r = categorical_handle_missing_values ccfg (s ! data) cols"
    "r = Inr d \<Longrightarrow> d < length s'"
proof -
  obtain s2 r2 where l: "categorical_handle_missing_loop_st (cat_handle_missing ccfg)
      (s @ [s ! data]) (length s) cols = (s2, r2)"
    by (cases "categorical_handle_missing_loop_st (cat_handle_missing ccfg)
      (s @ [s ! data]) (length s) cols")
  from assms l have s': "s' = s2"
    and r: "r = (case r2 of Some e \<Rightarrow> Inl e | None \<Rightarrow> Inr (length s))"
    by (auto simp: categorical_handle_missing_values_st_def copy_frame_def alloc_def
        split: option.splits)
  from categorical_handle_missing_loop_st_value [OF l] s' r
  show "deref s' r = categorical_handle_missing_values ccfg (s ! data) cols"
    by (auto simp: categorical_handle_missing_values_def split: option.splits)
  assume "r = Inr d"
  with r categorical_handle_missing_loop_st_frame [OF l, of 0] s'
  show "d < length s'" by (auto split: option.splits)
qed

lemma numeric_fit_st_value:
  assumes "numeric_fit_st L self s data = (s', r)"
  shows "r = numeric_fit L self (s ! data)"
proof (cases "validate_input (np_config self) (s ! data)")
  case False
  with assms show ?thesis by (simp add: numeric_fit_st_def numeric_fit_def)
next
  case True
  let ?cols = "get_columns_by_type (np_config self) ''numeric''"
  obtain s1 r1 where h: "numeric_handle_missing_values_st (numeric_cfg (np_config self)) s data ?cols = (s1, r1)"
    by (cases "numeric_handle_missing_values_st (numeric_cfg (np_config self)) s data ?cols")
  from numeric_handle_missing_values_st_value(1) [OF h, symmetric] assms True h show ?thesis
    by (cases r1) (auto simp: numeric_fit_st_def numeric_fit_def Let_def)
qed

lemma categorical_fit_st_value:
  assumes "categorical_fit_st L self s data = (s', r)"
  shows "r = categorical_fit L self (s ! data)"
proof (cases "validate_input (cp_config self) (s ! data)")
  case False
  with assms show ?thesis by (simp add: categorical_fit_st_def categorical_fit_def)
next
  case True
  let ?cols = "get_columns_by_type (cp_config self) ''categorical''"
  obtain s1 r1 where h: "categorical_handle_missing_values_st (categorical_cfg (cp_config self)) s data ?cols = (s1, r1)"
    by (cases "categorical_handle_missing_values_st (categorical_cfg (cp_config self)) s data ?cols")
  from categorical_handle_missing_values_st_value(1) [OF h, symmetric] assms True h show ?thesis
    by (cases r1) (auto simp: categorical_fit_st_def categorical_fit_def Let_def)
qed

lemma text_fit_st_value:
  "text_fit_st self s data = (s', r) \<Longrightarrow> r = text_fit self (s ! data)"
  by (auto simp: text_fit_st_def text_fit_def split: if_splits)

lemma numeric_transform_st_value:
  assumes "numeric_transform_st L self s data = (s', r)"
  shows "deref s' r = numeric_transform L self (s ! data)" "r = Inr d \<Longrightarrow> d < length s'"
proof -
  let ?cols = "get_columns_by_type (np_config self) ''numeric''"
  let ?s1 = "s @ [s ! data]"
  obtain s2 r2 where h: "numeric_handle_missing_values_st (numeric_cfg (np_config self)) ?s1 (length s) ?cols = (s2, r2)"
    by (cases "numeric_handle_missing_values_st (numeric_cfg (np_config self)) ?s1 (length s) ?cols")
  have hmv: "numeric_handle_missing_values (numeric_cfg (np_config self)) (s ! data) ?cols
      = deref s2 r2"
    using numeric_handle_missing_values_st_value(1) [OF h] by simp
  have both: "deref s' r = numeric_transform L self (s ! data) \<and> (\<forall>d. r = Inr d \<longrightarrow> d < length s')"
  proof (cases "validate_input (np_config self) (s ! data)")
    case False
    with assms show ?thesis by (auto simp: numeric_transform_st_def numeric_transform_def)
  next
    case True
    show ?thesis
    proof (cases r2)
      case (Inl e)
      with assms True h have "s' = s2" "r = Inl e"
        by (simp_all add: numeric_transform_st_def Let_def copy_frame_def alloc_def)
      moreover from hmv Inl True have "numeric_transform L self (s ! data) = Inl e"
        by (simp add: numeric_transform_def Let_def)
      ultimately show ?thesis by simp
    next
      case (Inr df')
      obtain s3 r3 where l: "numeric_transform_loop_st L (np_scalers self) s2 df' ?cols = (s3, r3)"
        by (cases "numeric_transform_loop_st L (np_scalers self) s2 df' ?cols")
      from numeric_handle_missing_values_st_value(2) [OF h Inr] have lt: "df' < length s2" .
      from assms True h Inr l have s': "s' = s3"
        and r: "r = (case r3 of Some e \<Rightarrow> Inl e | None \<Rightarrow> Inr df')"
        by (auto simp: numeric_transform_st_def Let_def copy_frame_def alloc_def
            split: option.splits)
      from hmv Inr True have "numeric_transform L self (s ! data)
          = numeric_transform_loop L (np_scalers self) (s2 ! df') ?cols"
        by (simp add: numeric_transform_def Let_def)
      also from numeric_transform_loop_st_value [OF l lt]
      have "\<dots> = (case r3 of None \<Rightarrow> Inr (s3 ! df') | Some e \<Rightarrow> Inl e)" .
      finally have "numeric_transform L self (s ! data) = deref s' r"
        using s' r by (simp split: option.splits)
      moreover have "\<forall>d. r = Inr d \<longrightarrow> d < length s'"
        using r s' lt numeric_transform_loop_st_frame [OF l, of 0]
        by (auto split: option.splits)
      ultimately show ?thesis by simp
    qed
  qed
  then show "deref s' r = numeric_transform L self (s ! data)" by simp
  assume "r = Inr d"
  with both show "d < length s'" by simp
qed

lemma text_transform_st_value:
  assumes "text_transform_st L self s data = (s', r)"
  shows "deref s' r = text_transform L self (s ! data)" "r = Inr d \<Longrightarrow> d < length s'"
proof -
  let ?cols = "get_columns_by_type (tp_config self) ''text''"
  let ?s1 = "s @ [s ! data]"
  obtain s2 r2 where l: "text_transform_loop_st L (text_cfg (tp_config self)) ?s1 (length s) ?cols = (s2, r2)"
    by (cases "text_transform_loop_st L (text_cfg (tp_config self)) ?s1 (length s) ?cols")
  have both: "deref s' r = text_transform L self (s ! data) \<and> (\<forall>d. r = Inr d \<longrightarrow> d < length s')"
  proof (cases "validate_input (tp_config self) (s ! data)")
    case False
    with assms show ?thesis by (auto simp: text_transform_st_def text_transform_def)
  next
    case True
    from assms True l have s': "s' = s2"
      and r: "r = (case r2 of Some e \<Rightarrow> Inl e | None \<Rightarrow> Inr (length s))"
      by (auto simp: text_transform_st_def Let_def copy_frame_def alloc_def
          split: option.splits)
    from True have "text_transform L self (s ! data)
        = text_transform_loop L (text_cfg (tp_config self)) (?s1 ! length s) ?cols"
      by (simp add: text_transform_def Let_def)
    also from text_transform_loop_st_value [OF l]
    have "\<dots> = (case r2 of None \<Rightarrow> Inr (s2 ! length s) | Some e \<Rightarrow> Inl e)" by simp
    finally have "text_transform L self (s ! data) = deref s' r"
      using s' r by (simp split: option.splits)
    moreover have "\<forall>d. r = Inr d \<longrightarrow> d < length s'"
      using r s' text_transform_loop_st_frame [OF l, of 0]
      by (auto split: option.splits)
    ultimately show ?thesis by simp
  qed
  then show "deref s' r = text_transform L self (s ! data)" by simp
  assume "r = Inr d"
  with both show "d < length s'" by simp
qed

lemma nth_of_take_eq:
  "take n s' = take n s \<Longrightarrow> i < n \<Longrightarrow> s' ! i = s ! i"
  by (metis nth_take)

lemma categorical_transform_loop_st_value:
  "categorical_transform_loop_st encoders encoding_maps s df cols = (s', r) \<Longrightarrow>
     df < length s \<Longrightarrow>
     deref s' r = categorical_transform_loop encoders encoding_maps (s ! df) cols
     \<and> (\<forall>d. r = Inr d \<longrightarrow> d < length s')"
proof (induction cols arbitrary: s df)
  case Nil
  then show ?case by auto
next
  case (Cons col cols)
  show ?case
  proof (cases "encoders col")
    case None
    with Cons.prems have l: "categorical_transform_loop_st encoders encoding_maps s df cols
        = (s', r)" by simp
    from Cons.IH [OF l Cons.prems(2)] None show ?thesis by simp
  next
    case (Some enc)
    show ?thesis
    proof (cases enc)
      case (LabelEncoder classes)
      show ?thesis
      proof (cases "\<exists>xs codes t. getitem (s ! df) col = Inr xs
                       \<and> label_transform classes xs = Inr codes
                       \<and> setitem (s ! df) col (map (\<lambda>n. Num (of_nat n)) codes) = Inr t")
        case False
        with Some LabelEncoder Cons.prems show ?thesis by (auto split: sum.splits)
      next
        case True
        then obtain xs codes t where
          st: "getitem (s ! df) col = Inr xs" "label_transform classes xs = Inr codes"
            "setitem (s ! df) col (map (\<lambda>n. Num (of_nat n)) codes) = Inr t"
          by blast
        with Cons.prems(1) Some LabelEncoder
        have l: "categorical_transform_loop_st encoders encoding_maps (s[df := t]) df cols
            = (s', r)" by simp
        from Cons.IH [OF l] Cons.prems(2) Some LabelEncoder st show ?thesis by simp
      qed
    next
      case (OneHotEncoder categories)
      show ?thesis
      proof (cases "\<exists>xs rows names e. getitem (s ! df) col = Inr xs
                       \<and> onehot_transform categories xs = Inr rows
                       \<and> encoding_maps col = Some (FeatureNames names)
                       \<and> data_frame rows names (row_index (s ! df)) = Inr e")
        case False
        with Some OneHotEncoder Cons.prems show ?thesis
          by (auto split: sum.splits option.splits encoding_map.splits)
      next
        case True
        then obtain xs rows names e where
          st: "getitem (s ! df) col = Inr xs" "onehot_transform categories xs = Inr rows"
            "encoding_maps col = Some (FeatureNames names)"
            "data_frame rows names (row_index (s ! df)) = Inr e"
          by blast
        let ?d = "drop_column (s ! df) col"
        let ?c = "concat_axis1 [?d, e]"
        let ?s3 = "((s @ [e]) @ [?d]) @ [?c]"
        have nth: "(s @ [e]) ! df = s ! df" "((s @ [e]) @ [?d]) ! Suc (length s) = ?d"
          "((s @ [e]) @ [?d]) ! length s = e"
          using Cons.prems(2) by (simp_all add: nth_append)
        from Cons.prems(1) Some OneHotEncoder st nth
        have l: "categorical_transform_loop_st encoders encoding_maps ?s3 (Suc (Suc (length s)))
                   cols = (s', r)"
          by (simp add: alloc_def)
        have "Suc (Suc (length s)) < length ?s3" by simp
        from Cons.IH [OF l this] Some OneHotEncoder st show ?thesis
          by (simp add: nth_append)
      qed
    qed
  qed
qed

lemma categorical_transform_st_value:
  assumes "categorical_transform_st self s data = (s', r)"
  shows "deref s' r = categorical_transform self (s ! data)" "r = Inr d \<Longrightarrow> d < length s'"
proof -
  let ?cols = "get_columns_by_type (cp_config self) ''categorical''"
  let ?s1 = "s @ [s ! data]"
  obtain s2 r2 where h: "categorical_handle_missing_values_st (categorical_cfg (cp_config self)) ?s1 (length s) ?cols = (s2, r2)"
    by (cases "categorical_handle_missing_values_st (categorical_cfg (cp_config self)) ?s1 (length s) ?cols")
  have hmv: "categorical_handle_missing_values (categorical_cfg (cp_config self)) (s ! data) ?cols
      = deref s2 r2"
    using categorical_handle_missing_values_st_value(1) [OF h] by simp
  have both: "deref s' r = categorical_transform self (s ! data) \<and> (\<forall>d. r = Inr d \<longrightarrow> d < length s')"
  proof (cases "validate_input (cp_config self) (s ! data)")
    case False
    with assms show ?thesis by (auto simp: categorical_transform_st_def categorical_transform_def)
  next
    case True
    show ?thesis
    proof (cases r2)
      case (Inl e)
      with assms True h have "s' = s2" "r = Inl e"
        by (simp_all add: categorical_transform_st_def Let_def copy_frame_def alloc_def)
      moreover from hmv Inl True have "categorical_transform self (s ! data) = Inl e"
        by (simp add: categorical_transform_def Let_def)
      ultimately show ?thesis by simp
    next
      case (Inr df')
      from categorical_handle_missing_values_st_value(2) [OF h Inr] have lt: "df' < length s2" .
      from assms True h Inr
      have l: "categorical_transform_loop_st (cp_encoders self) (cp_encoding_maps self) s2 df' ?cols
          = (s', r)"
        by (simp add: categorical_transform_st_def Let_def copy_frame_def alloc_def)
      from hmv Inr True have "categorical_transform self (s ! data)
          = categorical_transform_loop (cp_encoders self) (cp_encoding_maps self) (s2 ! df') ?cols"
        by (simp add: categorical_transform_def Let_def)
      with categorical_transform_loop_st_value [OF l lt] show ?thesis by simp
    qed
  qed
  then show "deref s' r = categorical_transform self (s ! data)" by simp
  assume "r = Inr d"
  with both show "d < length s'" by simp
qed

lemma preprocessor_transform_st_value:
  assumes "preprocessor_transform_st L p s data = (s', r)"
  shows "deref s' r = preprocessor_transform L p (s ! data)" "r = Inr d \<Longrightarrow> d < length s'"
  using assms
  by (cases p; simp add: text_transform_st_value numeric_transform_st_value
        categorical_transform_st_value)+

lemma preprocessor_fit_st_value:
  assumes "preprocessor_fit_st L p s data = (s', r)"
  shows "r = preprocessor_fit L p (s ! data)"
proof (cases p)
  case (TextPreprocessor x)
  obtain s1 r1 where h: "text_fit_st x s data = (s1, r1)" by (cases "text_fit_st x s data")
  from text_fit_st_value [OF h] h assms TextPreprocessor show ?thesis
    by (auto split: sum.splits)
next
  case (NumericPreprocessor x)
  obtain s1 r1 where h: "numeric_fit_st L x s data = (s1, r1)"
    by (cases "numeric_fit_st L x s data")
  from numeric_fit_st_value [OF h] h assms NumericPreprocessor show ?thesis
    by (auto split: sum.splits)
next
  case (CategoricalPreprocessor x)
  obtain s1 r1 where h: "categorical_fit_st L x s data = (s1, r1)"
    by (cases "categorical_fit_st L x s data")
  from categorical_fit_st_value [OF h] h assms CategoricalPreprocessor show ?thesis
    by (auto split: sum.splits)
qed

lemma factory_fit_loop_st_value:
  "factory_fit_loop_st L cfg s data ps = (s', r) \<Longrightarrow> data < length s \<Longrightarrow>
     r = factory_fit_loop L cfg (s ! data) ps"
proof (induction ps arbitrary: s s' r)
  case Nil
  then show ?case by auto
next
  case (Cons a ps)
  obtain t p where a: "a = (t, p)" by (cases a)
  let ?cols = "get_columns_by_type cfg t"
  let ?step = "(if ?cols \<noteq> []
            then (case getitems (s ! data) ?cols of
                    Inl e \<Rightarrow> (s, Inl e)
                  | Inr sub \<Rightarrow>
                      (case alloc s sub of
                         (s1, slice) \<Rightarrow> preprocessor_fit_st L p s1 slice))
            else (s, Inr p))"
  let ?pure = "(if ?cols \<noteq> []
            then (case getitems (s ! data) ?cols of
                    Inl e \<Rightarrow> Inl e
                  | Inr sub \<Rightarrow> preprocessor_fit L p sub)
            else Inr p)"
  obtain s2 r2 where st: "?step = (s2, r2)" by (cases ?step)
  have f2: "take (length s) s2 = take (length s) s \<and> length s \<le> length s2 \<and> r2 = ?pure"
  proof (cases "?cols \<noteq> [] \<and> (\<exists>sub. getitems (s ! data) ?cols = Inr sub)")
    case False
    with st show ?thesis by (auto split: sum.splits if_splits)
  next
    case True
    then obtain sub where g: "getitems (s ! data) ?cols = Inr sub" by blast
    with st True have pf: "preprocessor_fit_st L p (s @ [sub]) (length s) = (s2, r2)"
      by (simp add: alloc_def)
    from preprocessor_fit_st_frame [OF pf, of "length s"] preprocessor_fit_st_value [OF pf]
      True g
    show ?thesis by simp
  qed
  show ?case
  proof (cases r2)
    case (Inl e)
    with Cons.prems(1) a st have "r = Inl e" by (simp add: Let_def)
    moreover from f2 Inl have "?pure = Inl e" by simp
    ultimately show ?thesis unfolding a
      by (auto simp: Let_def split: sum.splits if_splits)
  next
    case (Inr p')
    obtain s3 r3 where l: "factory_fit_loop_st L cfg s2 data ps = (s3, r3)"
      by (cases "factory_fit_loop_st L cfg s2 data ps")
    from f2 have tk: "take (length s) s2 = take (length s) s" by simp
    from f2 Cons.prems(2) have d2: "data < length s2" by simp
    from nth_of_take_eq [OF tk Cons.prems(2)] have eq: "s2 ! data = s ! data" .
    from Cons.IH [OF l d2] eq have r3: "r3 = factory_fit_loop L cfg (s ! data) ps" by simp
    from Cons.prems(1) a st Inr l
    have "r = (case r3 of Inl e \<Rightarrow> Inl e | Inr rest' \<Rightarrow> Inr ((t, p') # rest'))"
      by (auto simp: Let_def split: sum.splits)
    moreover from f2 Inr have "?pure = Inr p'" by simp
    ultimately show ?thesis unfolding a using r3
      by (auto simp: Let_def split: sum.splits if_splits)
  qed
qed

lemma factory_fit_st_value:
  assumes "factory_fit_st L self s data = (s', r)" "data < length s"
  shows "r = factory_fit L self (s ! data)"
proof -
  obtain s1 r1 where l: "factory_fit_loop_st L (pf_config self) s data (pf_preprocessors self) = (s1, r1)"
    by (cases "factory_fit_loop_st L (pf_config self) s data (pf_preprocessors self)")
  from factory_fit_loop_st_value [OF l assms(2)] l assms(1) show ?thesis
    by (auto simp: factory_fit_st_def factory_fit_def split: sum.splits)
qed

lemma factory_transform_loop_st_value:
  "factory_transform_loop_st L cfg s df ps = (s', r) \<Longrightarrow> df < length s \<Longrightarrow>
     factory_transform_loop L cfg (s ! df) ps
       = (case r of Inl e \<Rightarrow> Inl e | Inr refs \<Rightarrow> Inr (map (\<lambda>d. s' ! d) refs))
     \<and> (\<forall>refs. r = Inr refs \<longrightarrow> (\<forall>d \<in> set refs. d < length s'))"
proof (induction ps arbitrary: s s' r)
  case Nil
  then show ?case by auto
next
  case (Cons a ps)
  obtain t p where a: "a = (t, p)" by (cases a)
  let ?cols = "get_columns_by_type cfg t"
  let ?step = "(if ?cols \<noteq> []
            then (case getitems (s ! df) ?cols of
                    Inl e \<Rightarrow> (s, Inl e)
                  | Inr sub \<Rightarrow>
                      (case alloc s sub of
                         (s1, slice) \<Rightarrow>
                           (case preprocessor_transform_st L p s1 slice of
                              (s2, Inl e) \<Rightarrow> (s2, Inl e)
                            | (s2, Inr processed_df) \<Rightarrow> (s2, Inr [processed_df]))))
            else (s, Inr []))"
  let ?pure = "(if ?cols \<noteq> []
            then (case getitems (s ! df) ?cols of
                    Inl e \<Rightarrow> Inl e
                  | Inr sub \<Rightarrow>
                      (case preprocessor_transform L p sub of
                         Inl e \<Rightarrow> Inl e
                       | Inr processed_df \<Rightarrow> Inr [processed_df]))
            else Inr [])"
  obtain s2 r2 where st: "?step = (s2, r2)" by (cases ?step)
  have f2: "take (length s) s2 = take (length s) s \<and> length s \<le> length s2
      \<and> ?pure = (case r2 of Inl e \<Rightarrow> Inl e | Inr refs \<Rightarrow> Inr (map (\<lambda>d. s2 ! d) refs))
      \<and> (\<forall>refs. r2 = Inr refs \<longrightarrow> (\<forall>d \<in> set refs. d < length s2))"
  proof (cases "?cols \<noteq> [] \<and> (\<exists>sub. getitems (s ! df) ?cols = Inr sub)")
    case False
    with st show ?thesis by (auto split: sum.splits if_splits)
  next
    case True
    then obtain sub where g: "getitems (s ! df) ?cols = Inr sub" by blast
    obtain s4 r4 where pt: "preprocessor_transform_st L p (s @ [sub]) (length s) = (s4, r4)"
      by (cases "preprocessor_transform_st L p (s @ [sub]) (length s)")
    from st True g pt have s2: "s2 = s4"
      and r2: "r2 = (case r4 of Inl e \<Rightarrow> Inl e | Inr d \<Rightarrow> Inr [d])"
      by (auto simp: alloc_def split: sum.splits)
    from preprocessor_transform_st_value(1) [OF pt]
    have v: "preprocessor_transform L p sub = deref s4 r4" by simp
    from preprocessor_transform_st_frame [OF pt, of "length s"]
    have fr: "take (length s) s4 = take (length s) s" "length s \<le> length s4" by simp_all
    show ?thesis
    proof (cases r4)
      case (Inl e)
      with s2 r2 v fr True g show ?thesis by simp
    next
      case (Inr d)
      with preprocessor_transform_st_value(2) [OF pt] have "d < length s4" by simp
      with Inr s2 r2 v fr True g show ?thesis by simp
    qed
  qed
  show ?case
  proof (cases r2)
    case (Inl e)
    with Cons.prems(1) a st have "r = Inl e" by (simp add: Let_def)
    moreover from f2 Inl have "?pure = Inl e" by simp
    ultimately show ?thesis unfolding a
      by (auto simp: Let_def split: sum.splits if_splits)
  next
    case (Inr refs2)
    obtain s3 r3 where l: "factory_transform_loop_st L cfg s2 df ps = (s3, r3)"
      by (cases "factory_transform_loop_st L cfg s2 df ps")
    from f2 have tk: "take (length s) s2 = take (length s) s" by simp
    from f2 Cons.prems(2) have d2: "df < length s2" by simp
    from nth_of_take_eq [OF tk Cons.prems(2)] have eq: "s2 ! df = s ! df" .
    from Cons.IH [OF l d2] eq
    have ih: "factory_transform_loop L cfg (s ! df) ps
         = (case r3 of Inl e \<Rightarrow> Inl e | Inr refs \<Rightarrow> Inr (map (\<lambda>d. s3 ! d) refs))"
      "\<forall>refs. r3 = Inr refs \<longrightarrow> (\<forall>d \<in> set refs. d < length s3)"
      by simp_all
    from factory_transform_loop_st_frame [OF l, of "length s2"]
    have fr3: "take (length s2) s3 = take (length s2) s2" "length s2 \<le> length s3" by simp_all
    from f2 Inr have lt2: "\<forall>d \<in> set refs2. d < length s2" by simp
    have same: "map (\<lambda>d. s3 ! d) refs2 = map (\<lambda>d. s2 ! d) refs2"
    proof (rule map_cong [OF refl])
      fix d assume "d \<in> set refs2"
      with lt2 have "d < length s2" by blast
      from nth_of_take_eq [OF fr3(1) this] show "s3 ! d = s2 ! d" .
    qed
    from Cons.prems(1) a st Inr l
    have s': "s' = s3"
      and r: "r = (case r3 of Inl e \<Rightarrow> Inl e | Inr rest \<Rightarrow> Inr (refs2 @ rest))"
      by (auto simp: Let_def split: sum.splits)
    from f2 Inr have p: "?pure = Inr (map (\<lambda>d. s2 ! d) refs2)" by simp
    show ?thesis
    proof (cases r3)
      case (Inl e)
      with r s' ih(1) p a show ?thesis by (simp add: Let_def)
    next
      case rest: (Inr rest)
      with r s' ih p a same lt2 fr3(2) show ?thesis
        by (auto simp: Let_def)
    qed
  qed
qed

lemma factory_transform_st_value:
  assumes "factory_transform_st L self s data = (s', r)"
  shows "deref s' r = factory_transform L self (s ! data)"
proof -
  let ?s1 = "s @ [s ! data]"
  obtain s2 r2 where l: "factory_transform_loop_st L (pf_config self) ?s1 (length s)
      (pf_preprocessors self) = (s2, r2)"
    by (cases "factory_transform_loop_st L (pf_config self) ?s1 (length s) (pf_preprocessors self)")
  have lt: "length s < length ?s1" by simp
  from factory_transform_loop_st_value [OF l lt]
  have v: "factory_transform_loop L (pf_config self) (s ! data) (pf_preprocessors self)
       = (case r2 of Inl e \<Rightarrow> Inl e | Inr refs \<Rightarrow> Inr (map (\<lambda>d. s2 ! d) refs))"
    by simp
  from factory_transform_loop_st_frame [OF l, of "length ?s1"]
  have "take (length ?s1) s2 = take (length ?s1) ?s1" by simp
  then have "s2 ! length s = ?s1 ! length s"
    by (rule nth_of_take_eq) simp
  then have keep: "s2 ! length s = s ! data" by simp
  show ?thesis
  proof (cases r2)
    case (Inl e)
    with assms l have "r = Inl e"
      by (simp add: factory_transform_st_def copy_frame_def alloc_def)
    with v Inl show ?thesis by (simp add: factory_transform_def)
  next
    case (Inr refs)
    show ?thesis
    proof (cases "refs = []")
      case True
      with assms l Inr have "s' = s2" "r = Inr (length s)"
        by (simp_all add: factory_transform_st_def copy_frame_def alloc_def)
      with v Inr True keep show ?thesis by (simp add: factory_transform_def)
    next
      case False
      with assms l Inr
      have "s' = s2 @ [concat_axis1 (map (\<lambda>d. s2 ! d) refs)]" "r = Inr (length s2)"
        by (simp_all add: factory_transform_st_def copy_frame_def alloc_def)
      with v Inr False show ?thesis by (simp add: factory_transform_def)
    qed
  qed
qed

section \<open>The table of the caller (C8)\<close>

lemma frame_preserves:
  assumes "take (length s) s' = take (length s) s \<and> length s \<le> length s'" "data < length s"
  shows "take (length s) s' = s \<and> s' ! data = s ! data"
proof -
  from assms(1) have t: "take (length s) s' = take (length s) s" by blast
  from nth_of_take_eq [OF t assms(2)] t show ?thesis by simp
qed

text \<open>The loop of \<open>_handle_missing_values\<close> on its own writes to the frame it is
  given: what protects the table of the caller is the copy made before the loop.\<close>

lemma handle_missing_loop_writes_in_place:
  "numeric_handle_missing_loop_st ''mean'' [age_table] 0 [''age'']
     = ([\<lparr>row_index = [0, 1], columns = [(''age'', [Num 100, Num 100])]\<rparr>], None)"
  by (simp add: age_defs getitem_def numeric_fill_value_def mean_def dropna_def
      replace_column_def fillna_def)

lemma age_st_eval:
  "numeric_transform_st example_library age_fitted [age_table] 0
     = ([age_table, age_table,
         \<lparr>row_index = [0, 1], columns = [(''age'', [Num 9, Num 9])]\<rparr>], Inr 2)"
  by (simp add: numeric_transform_st_def numeric_handle_missing_values_st_def
      copy_frame_def alloc_def age_defs example_defs
      validate_input_def has_column_def get_columns_by_type_def
      getitem_def numeric_fill_value_def mean_def
      replace_column_def fillna_def minmax_transform_def setitem_def)

lemma city_st_eval:
  "categorical_transform_st city_onehot_fitted [city_unseen_table] 0
     = ([city_unseen_table, city_unseen_table, city_unseen_table,
         \<lparr>row_index = [0, 1],
          columns = [(''city_A'', [Num 0, Num 1]), (''city_B'', [Num 0, Num 0])]\<rparr>,
         \<lparr>row_index = [0, 1], columns = []\<rparr>,
         \<lparr>row_index = [0, 1],
          columns = [(''city_A'', [Num 0, Num 1]), (''city_B'', [Num 0, Num 0])]\<rparr>], Inr 5)"
  by (simp add: categorical_transform_st_def categorical_handle_missing_values_st_def
      copy_frame_def alloc_def city_defs
      validate_input_def has_column_def get_columns_by_type_def
      getitem_def categorical_fill_value_def mode_CA
      replace_column_def fillna_def setitem_def onehot_transform_def data_frame_def
      drop_column_def concat_axis1_def upt_rec)

text \<open>
  C8.  The table of the caller is a frame of the store, at the reference \<open>data\<close>.
  Whatever \<open>fit\<close> or \<open>transform\<close> of the numeric, categorical or text preprocessor,
  or of the factory, does, and whether it returns or raises, the frames that were in the
  store before the call are the same afterwards: the store after the call starts with
  the store before the call, so the caller's table has the columns, cells and row index
  it had.  Every write goes to a frame that the call created.  The result is the one of
  the functions on tables: the fitted state of \<open>fit\<close>, and for \<open>transform\<close> the table
  at the returned reference.
\<close>

theorem C8_input_table_not_mutated:
  assumes "data < length s"
  shows "(numeric_fit_st L P s data = (s', rn) \<longrightarrow>
            take (length s) s' = s \<and> s' ! data = s ! data
            \<and> rn = numeric_fit L P (s ! data))
       \<and> (numeric_transform_st L P s data = (s', out) \<longrightarrow>
            take (length s) s' = s \<and> s' ! data = s ! data
            \<and> deref s' out = numeric_transform L P (s ! data))
       \<and> (categorical_fit_st L C s data = (s', rc) \<longrightarrow>
            take (length s) s' = s \<and> s' ! data = s ! data
            \<and> rc = categorical_fit L C (s ! data))
       \<and> (categorical_transform_st C s data = (s', out) \<longrightarrow>
            take (length s) s' = s \<and> s' ! data = s ! data
            \<and> deref s' out = categorical_transform C (s ! data))
       \<and> (text_fit_st X s data = (s', rt) \<longrightarrow>
            take (length s) s' = s \<and> s' ! data = s ! data
            \<and> rt = text_fit X (s ! data))
       \<and> (text_transform_st L X s data = (s', out) \<longrightarrow>
            take (length s) s' = s \<and> s' ! data = s ! data
            \<and> deref s' out = text_transform L X (s ! data))
       \<and> (factory_fit_st L E s data = (s', rf) \<longrightarrow>
            take (length s) s' = s \<and> s' ! data = s ! data
            \<and> rf = factory_fit L E (s ! data))
       \<and> (factory_transform_st L E s data = (s', out) \<longrightarrow>
            take (length s) s' = s \<and> s' ! data = s ! data
            \<and> deref s' out = factory_transform L E (s ! data))"
proof -
  have c1: "numeric_fit_st L P s data = (s', rn) \<longrightarrow>
            take (length s) s' = s \<and> s' ! data = s ! data
            \<and> rn = numeric_fit L P (s ! data)"
  proof
    assume a: "numeric_fit_st L P s data = (s', rn)"
    from frame_preserves [OF numeric_fit_st_frame [OF a order_refl] assms]
      numeric_fit_st_value [OF a]
    show "take (length s) s' = s \<and> s' ! data = s ! data
            \<and> rn = numeric_fit L P (s ! data)" by blast
  qed
  have c2: "numeric_transform_st L P s data = (s', out) \<longrightarrow>
            take (length s) s' = s \<and> s' ! data = s ! data
            \<and> deref s' out = numeric_transform L P (s ! data)"
  proof
    assume a: "numeric_transform_st L P s data = (s', out)"
    from frame_preserves [OF numeric_transform_st_frame [OF a order_refl] assms]
      numeric_transform_st_value(1) [OF a]
    show "take (length s) s' = s \<and> s' ! data = s ! data
            \<and> deref s' out = numeric_transform L P (s ! data)" by blast
  qed
  have c3: "categorical_fit_st L C s data = (s', rc) \<longrightarrow>
            take (length s) s' = s \<and> s' ! data = s ! data
            \<and> rc = categorical_fit L C (s ! data)"
  proof
    assume a: "categorical_fit_st L C s data = (s', rc)"
    from frame_preserves [OF categorical_fit_st_frame [OF a order_refl] assms]
      categorical_fit_st_value [OF a]
    show "take (length s) s' = s \<and> s' ! data = s ! data
            \<and> rc = categorical_fit L C (s ! data)" by blast
  qed
  have c4: "categorical_transform_st C s data = (s', out) \<longrightarrow>
            take (length s) s' = s \<and> s' ! data = s ! data
            \<and> deref s' out = categorical_transform C (s ! data)"
  proof
    assume a: "categorical_transform_st C s data = (s', out)"
    from frame_preserves [OF categorical_transform_st_frame [OF a order_refl] assms]
      categorical_transform_st_value(1) [OF a]
    show "take (length s) s' = s \<and> s' ! data = s ! data
            \<and> deref s' out = categorical_transform C (s ! data)" by blast
  qed
  have c5: "text_fit_st X s data = (s', rt) \<longrightarrow>
            take (length s) s' = s \<and> s' ! data = s ! data
            \<and> rt = text_fit X (s ! data)"
  proof
    assume a: "text_fit_st X s data = (s', rt)"
    from text_fit_st_frame [OF a] text_fit_st_value [OF a]
    show "take (length s) s' = s \<and> s' ! data = s ! data
            \<and> rt = text_fit X (s ! data)" by simp
  qed
  have c6: "text_transform_st L X s data = (s', out) \<longrightarrow>
            take (length s) s' = s \<and> s' ! data = s ! data
            \<and> deref s' out = text_transform L X (s ! data)"
  proof
    assume a: "text_transform_st L X s data = (s', out)"
    from frame_preserves [OF text_transform_st_frame [OF a order_refl] assms]
      text_transform_st_value(1) [OF a]
    show "take (length s) s' = s \<and> s' ! data = s ! data
            \<and> deref s' out = text_transform L X (s ! data)" by blast
  qed
  have c7: "factory_fit_st L E s data = (s', rf) \<longrightarrow>
            take (length s) s' = s \<and> s' ! data = s ! data
            \<and> rf = factory_fit L E (s ! data)"
  proof
    assume a: "factory_fit_st L E s data = (s', rf)"
    from frame_preserves [OF factory_fit_st_frame [OF a order_refl] assms]
      factory_fit_st_value [OF a assms]
    show "take (length s) s' = s \<and> s' ! data = s ! data
            \<and> rf = factory_fit L E (s ! data)" by blast
  qed
  have c8: "factory_transform_st L E s data = (s', out) \<longrightarrow>
            take (length s) s' = s \<and> s' ! data = s ! data
            \<and> deref s' out = factory_transform L E (s ! data)"
  proof
    assume a: "factory_transform_st L E s data = (s', out)"
    from frame_preserves [OF factory_transform_st_frame [OF a order_refl] assms]
      factory_transform_st_value [OF a]
    show "take (length s) s' = s \<and> s' ! data = s ! data
            \<and> deref s' out = factory_transform L E (s ! data)" by blast
  qed
  show ?thesis by (intro conjI c1 c2 c3 c4 c5 c6 c7 c8)
qed

theorem C8_witness:
  "take (length [age_table])
     [age_table, age_table, \<lparr>row_index = [0, 1], columns = [(''age'', [Num 9, Num 9])]\<rparr>]
     = [age_table]
   \<and> deref [age_table, age_table,
             \<lparr>row_index = [0, 1], columns = [(''age'', [Num 9, Num 9])]\<rparr>] (Inr 2)
       = numeric_transform example_library age_fitted ([age_table] ! 0)
   \<and> take (length [city_unseen_table])
        [city_unseen_table, city_unseen_table, city_unseen_table,
         \<lparr>row_index = [0, 1],
          columns = [(''city_A'', [Num 0, Num 1]), (''city_B'', [Num 0, Num 0])]\<rparr>,
         \<lparr>row_index = [0, 1], columns = []\<rparr>,
         \<lparr>row_index = [0, 1],
          columns = [(''city_A'', [Num 0, Num 1]), (''city_B'', [Num 0, Num 0])]\<rparr>]
       = [city_unseen_table]"
proof -
  let ?s1 = "[age_table, age_table,
              \<lparr>row_index = [0, 1], columns = [(''age'', [Num 9, Num 9])]\<rparr>]"
  let ?s2 = "[city_unseen_table, city_unseen_table, city_unseen_table,
         \<lparr>row_index = [0, 1],
          columns = [(''city_A'', [Num 0, Num 1]), (''city_B'', [Num 0, Num 0])]\<rparr>,
         \<lparr>row_index = [0, 1], columns = []\<rparr>,
         \<lparr>row_index = [0, 1],
          columns = [(''city_A'', [Num 0, Num 1]), (''city_B'', [Num 0, Num 0])]\<rparr>]"
  have a: "(0::nat) < length [age_table]" by simp
  have c: "(0::nat) < length [city_unseen_table]" by simp
  from C8_input_table_not_mutated [OF a, where L = example_library and P = age_fitted
      and s' = ?s1 and out = "Inr 2"] age_st_eval
  have n: "take (length [age_table]) ?s1 = [age_table]
     \<and> deref ?s1 (Inr 2) = numeric_transform example_library age_fitted ([age_table] ! 0)"
    by blast
  from C8_input_table_not_mutated [OF c, where C = city_onehot_fitted
      and s' = ?s2 and out = "Inr 5"] city_st_eval
  have k: "take (length [city_unseen_table]) ?s2 = [city_unseen_table]"
    by blast
  from n k show ?thesis by blast
qed

end
